theory Spec2Isabelle
  imports Main "HOL-Library.Sublist" "HOL-Library.Multiset"
begin

section \<open>Data model (qaAgent.ts, Types)\<close>

datatype Severity = Low | Medium | High | Critical

datatype Category =
    Navigation | Console | Network | Accessibility | SEO | Security
  | Performance | Layout | Functional | Content | UX

text \<open>The field \<open>id\<close> of the source is \<open>bug_id\<close> here (\<open>id\<close> is the identity function of HOL);
  the optional \<open>details\<close> is an option.\<close>

record BugEntry =
  bug_id :: string
  title :: string
  severity :: Severity
  category :: Category
  description :: string
  steps :: "string list"
  evidence :: "string list"
  details :: "string list option"

record RunContext =
  runId :: string
  outputRoot :: string
  screenshotDir :: string
  reportPath :: string

record FailedRequest =
  url :: string
  req_method :: string
  resourceType :: string
  status :: "nat option"
  failure :: "string option"

record WorkflowStep =
  ws_action :: string
  ws_target :: "string option"
  ws_value :: "string option"
  ws_expect :: "string option"

record WorkflowResult =
  wf_name :: string
  wf_steps :: "WorkflowStep list"
  wf_passed :: bool
  wf_error :: "string option"

section \<open>Strings of the JavaScript runtime\<close>

definition digit_char :: "nat \<Rightarrow> char" where
  "digit_char d = char_of (48 + d)"

text \<open>\<open>String(n)\<close> and the \<open>${n}\<close> of a template literal, for a non-negative integer.\<close>

function string_of_nat :: "nat \<Rightarrow> string" where
  "string_of_nat n =
     (if n < 10 then [digit_char n] else string_of_nat (n div 10) @ [digit_char (n mod 10)])"
  by pat_completeness auto
termination
  by (relation "measure id") auto

declare string_of_nat.simps [simp del]

text \<open>\<open>s.padStart(n, c)\<close> for a one-character pad string.\<close>

definition padStart :: "nat \<Rightarrow> char \<Rightarrow> string \<Rightarrow> string" where
  "padStart n c s = replicate (n - length s) c @ s"

text \<open>\<open>xs.join(sep)\<close>.\<close>

fun join :: "string \<Rightarrow> string list \<Rightarrow> string" where
  "join sep [] = []"
| "join sep [x] = x"
| "join sep (x # y # ys) = x @ sep @ join sep (y # ys)"

text \<open>\<open>s.includes(t)\<close> and \<open>s.startsWith(t)\<close>.\<close>

fun includes_str :: "string \<Rightarrow> string \<Rightarrow> bool" where
  "includes_str [] t = (t = [])"
| "includes_str (c # cs) t = (prefix t (c # cs) \<or> includes_str cs t)"

definition startsWith :: "string \<Rightarrow> string \<Rightarrow> bool" where
  "startsWith s t = prefix t s"

text \<open>\<open>s.trim()\<close>: the white space of ASCII (tab, line feed, vertical tab, form feed,
  carriage return, space); strings are byte strings here.\<close>

definition is_space :: "char \<Rightarrow> bool" where
  "is_space c = (of_char c \<in> {9, 10, 11, 12, 13, 32 :: nat})"

definition trim :: "string \<Rightarrow> string" where
  "trim s = rev (dropWhile is_space (rev (dropWhile is_space s)))"

text \<open>\<open>[...new Set(xs)]\<close>: the first occurrence of each element, in order.\<close>

fun uniq :: "'a list \<Rightarrow> 'a list" where
  "uniq [] = []"
| "uniq (x # xs) = x # uniq (filter (\<lambda>y. y \<noteq> x) xs)"

text \<open>\<open>slug\<close>: lower case, every run of characters outside \<open>[a-z0-9]\<close> replaced by one
  hyphen, one hyphen removed at each end, and \<open>ev\<close> for an empty result.\<close>

definition toLowerCase_char :: "char \<Rightarrow> char" where
  "toLowerCase_char c =
     (if 65 \<le> (of_char c :: nat) \<and> (of_char c :: nat) \<le> 90 then char_of (of_char c + 32 :: nat) else c)"

definition is_slug_char :: "char \<Rightarrow> bool" where
  "is_slug_char c =
     ((97 \<le> (of_char c :: nat) \<and> (of_char c :: nat) \<le> 122) \<or>
      (48 \<le> (of_char c :: nat) \<and> (of_char c :: nat) \<le> 57))"

function hyphenate :: "string \<Rightarrow> string" where
  "hyphenate [] = []"
| "hyphenate (c # cs) =
     (if is_slug_char c then c # hyphenate cs
      else CHR ''-'' # hyphenate (dropWhile (\<lambda>d. \<not> is_slug_char d) cs))"
  by pat_completeness auto
termination
  by (relation "measure length") (auto simp: le_imp_less_Suc length_dropWhile_le)

definition strip_edge_hyphens :: "string \<Rightarrow> string" where
  "strip_edge_hyphens s =
     (let s1 = (case s of [] \<Rightarrow> [] | c # cs \<Rightarrow> if c = CHR ''-'' then cs else c # cs)
      in if s1 \<noteq> [] \<and> last s1 = CHR ''-'' then butlast s1 else s1)"

definition slug :: "string \<Rightarrow> string" where
  "slug v =
     (let r = strip_edge_hyphens (hyphenate (map toLowerCase_char v))
      in if r = [] then ''ev'' else r)"

text \<open>Characters that a string literal of the theory cannot hold: line feed, double quote,
  apostrophe, the code fence of three backticks, and the em dash (three bytes in UTF-8).\<close>

definition nl :: string where "nl = [CHR 0x0A]"
definition dq :: string where "dq = [CHR 0x22]"
definition sq :: string where "sq = [CHR 0x27]"
definition fence :: string where "fence = [CHR 0x60, CHR 0x60, CHR 0x60]"
definition em_dash :: string where "em_dash = [CHR 0xE2, CHR 0x80, CHR 0x94]"

text \<open>\<open>path.join\<close> and \<open>path.relative\<close> of Node, for POSIX paths without \<open>.\<close> and \<open>..\<close>
  segments. \<open>path_relative\<close> covers the target lying below the base, which is what a
  context made by \<open>buildCtx\<close> gives; elsewhere Node climbs with \<open>..\<close> segments and the
  model leaves the target as it is.\<close>

definition path_join :: "string \<Rightarrow> string \<Rightarrow> string" where
  "path_join a b = a @ ''/'' @ b"

definition path_relative :: "string \<Rightarrow> string \<Rightarrow> string" where
  "path_relative base target =
     (if prefix (base @ ''/'') target then drop (length base + 1) target else target)"

definition backslashes_to_slashes :: "string \<Rightarrow> string" where
  "backslashes_to_slashes s = map (\<lambda>c. if c = CHR 0x5C then CHR ''/'' else c) s"

section \<open>The world outside the agent, and the state of one run\<close>

text \<open>A call that can throw returns its value or the message of the \<open>Error\<close> thrown.\<close>

datatype 'a res = Returned 'a | Threw string

text \<open>What the page's listeners receive (\<open>attachConsoleListeners\<close>, \<open>attachNetworkListeners\<close>):
  a console message (type, text, location url, line number), an uncaught exception, a failed
  request (url, method, resource type, failure text), a response (status, url, method,
  resource type).\<close>

datatype page_event =
    ConsoleMsg string string string "nat option"
  | PageErrorEv string
  | RequestFailedEv string string string "string option"
  | ResponseEv nat string string string

text \<open>How an element is looked up: \<open>page.getByText(t, {exact: false}).first()\<close>,
  \<open>page.getByPlaceholder(t, {exact: false}).first()\<close>, \<open>page.locator(sel).first()\<close>.\<close>

datatype locator = ByText string | ByPlaceholder string | BySelector string

text \<open>The calls on the browser driver; \<open>Evaluate\<close> names the script that
  \<open>page.evaluate\<close> runs in the page.\<close>

datatype browser_op =
    Screenshot string bool
  | NewPage
  | SetViewportSize nat nat
  | Goto string nat
  | WaitForTimeout nat
  | Evaluate string
  | ClosePage
  | PageTitle
  | IsVisible locator
  | Click locator nat
  | Fill locator string nat
  | Hover locator nat
  | KeyboardPress string
  | RequestHead string nat

datatype effect =
    Browser browser_op
  | OracleRequest string string
  | ConsoleLog string
  | Sleep nat
  | FsMkdir string
  | FsWriteFile string string
  | FsReadFile string

text \<open>What \<open>checkSEO\<close> reads from the document head in one \<open>page.evaluate\<close>.\<close>

record head_meta =
  meta_description :: string
  meta_viewport :: string
  meta_ogTitle :: string
  meta_ogImage :: string
  meta_charset :: bool
  meta_lang :: string
  meta_canonical :: string
  meta_favicon :: bool

text \<open>A value that \<open>JSON.parse\<close> can return; an object is its list of own properties.\<close>

datatype json =
    JNull | JBool bool | JNum int | JStr string | JArr "json list" | JObj "(string \<times> json) list"

text \<open>The world answers every external interaction of the run. The run counts its
  interactions (\<open>tick\<close>), and the world's answer may depend on the count, so two calls with
  the same arguments can be answered differently. \<open>JSON_parse\<close> is the runtime's
  \<open>JSON.parse\<close> (it throws a \<open>SyntaxError\<close> on text that is not JSON); \<open>GEMINI_API_KEY\<close> and
  \<open>NAV_TIMEOUT\<close> are the two values read from the process environment.\<close>

record world =
  events :: "nat \<Rightarrow> page_event list"
  date_now :: "nat \<Rightarrow> nat"
  date_iso :: "nat \<Rightarrow> string"
  browser_unit :: "nat \<Rightarrow> browser_op \<Rightarrow> unit res"
  browser_bool :: "nat \<Rightarrow> browser_op \<Rightarrow> bool res"
  browser_string :: "nat \<Rightarrow> browser_op \<Rightarrow> string res"
  browser_strings :: "nat \<Rightarrow> browser_op \<Rightarrow> string list res"
  browser_meta :: "nat \<Rightarrow> head_meta res"
  browser_status :: "nat \<Rightarrow> browser_op \<Rightarrow> nat res"
  page_url :: "nat \<Rightarrow> string"
  generateContent :: "nat \<Rightarrow> string \<Rightarrow> string \<Rightarrow> string option \<Rightarrow> string res"
  fs_call :: "nat \<Rightarrow> effect \<Rightarrow> unit res"
  fs_readFile :: "nat \<Rightarrow> string \<Rightarrow> string res"
  JSON_parse :: "string \<Rightarrow> json res"
  GEMINI_API_KEY :: string
  NAV_TIMEOUT :: nat

definition LLM_ENABLED :: "world \<Rightarrow> bool" where
  "LLM_ENABLED w = (GEMINI_API_KEY w \<noteq> [])"

definition LLM_MIN_DELAY :: nat where
  "LLM_MIN_DELAY = 7000"

text \<open>Arrays of bug entries live in a store: an array value is an address, \<open>[...a]\<close>
  allocates a new array, \<open>push\<close> and \<open>sort\<close> change the array at an address. The constant
  \<open>bugs\<close> of the source is the array at address \<open>bugs_ref\<close>. The other module-level arrays
  are never copied or sorted and are plain lists.\<close>

type_synonym addr = nat

record run_state =
  heap :: "addr \<Rightarrow> BugEntry list"
  next_addr :: addr
  consoleErrors :: "string list"
  consoleWarnings :: "string list"
  pageErrors :: "string list"
  failedRequests :: "FailedRequest list"
  workflowResults :: "WorkflowResult list"
  geminiModel :: "string option"
  geminiVisionModel :: "string option"
  lastLLMCall :: nat
  tick :: nat
  trace :: "effect list"

definition bugs_ref :: addr where
  "bugs_ref = 0"

definition bugs :: "run_state \<Rightarrow> BugEntry list" where
  "bugs s = heap s bugs_ref"

definition init_state :: run_state where
  "init_state =
     \<lparr> heap = (\<lambda>_. []), next_addr = 1,
       consoleErrors = [], consoleWarnings = [], pageErrors = [],
       failedRequests = [], workflowResults = [],
       geminiModel = None, geminiVisionModel = None, lastLLMCall = 0,
       tick = 0, trace = [] \<rparr>"

subsection \<open>Array operations on the store\<close>

definition array_push :: "addr \<Rightarrow> BugEntry \<Rightarrow> run_state \<Rightarrow> run_state" where
  "array_push a e s = s\<lparr>heap := (heap s)(a := heap s a @ [e])\<rparr>"

definition array_spread :: "addr \<Rightarrow> run_state \<Rightarrow> addr \<times> run_state" where
  "array_spread a s =
     (next_addr s, s\<lparr>heap := (heap s)(next_addr s := heap s a), next_addr := Suc (next_addr s)\<rparr>)"

text \<open>\<open>Array.prototype.sort\<close> with a comparator: in place, stable (ECMAScript 2019), and it
  returns the array it was called on. The model is the stable insertion sort.\<close>

fun insert_by :: "('a \<Rightarrow> 'a \<Rightarrow> int) \<Rightarrow> 'a \<Rightarrow> 'a list \<Rightarrow> 'a list" where
  "insert_by cmp x [] = [x]"
| "insert_by cmp x (y # ys) = (if cmp x y \<le> 0 then x # y # ys else y # insert_by cmp x ys)"

definition sort_by :: "('a \<Rightarrow> 'a \<Rightarrow> int) \<Rightarrow> 'a list \<Rightarrow> 'a list" where
  "sort_by cmp xs = foldr (insert_by cmp) xs []"

definition array_sort :: "(BugEntry \<Rightarrow> BugEntry \<Rightarrow> int) \<Rightarrow> addr \<Rightarrow> run_state \<Rightarrow> addr \<times> run_state" where
  "array_sort cmp a s = (a, s\<lparr>heap := (heap s)(a := sort_by cmp (heap s a))\<rparr>)"

subsection \<open>Listeners and external interactions\<close>

text \<open>\<open>attachConsoleListeners\<close> and \<open>attachNetworkListeners\<close>: what one event appends.\<close>

fun deliver :: "page_event \<Rightarrow> run_state \<Rightarrow> run_state" where
  "deliver (ConsoleMsg ty txt loc_url line) s =
     (let wher = (if loc_url \<noteq> [] then loc_url @ '':'' @ string_of_nat (case line of None \<Rightarrow> 0 | Some n \<Rightarrow> n) else []);
          text_line = trim (txt @ '' '' @ (if wher \<noteq> [] then ''('' @ wher @ '')'' else []));
          s1 = (if ty = ''error'' then s\<lparr>consoleErrors := consoleErrors s @ [text_line]\<rparr> else s)
      in if ty = ''warning'' then s1\<lparr>consoleWarnings := consoleWarnings s1 @ [text_line]\<rparr> else s1)"
| "deliver (PageErrorEv msg) s = s\<lparr>pageErrors := pageErrors s @ [msg]\<rparr>"
| "deliver (RequestFailedEv u m rt f) s =
     s\<lparr>failedRequests := failedRequests s @
        [\<lparr>url = u, req_method = m, resourceType = rt, status = None, failure = f\<rparr>]\<rparr>"
| "deliver (ResponseEv st u m rt) s =
     (if st \<ge> 400
      then s\<lparr>failedRequests := failedRequests s @
        [\<lparr>url = u, req_method = m, resourceType = rt, status = Some st, failure = None\<rparr>]\<rparr>
      else s)"

text \<open>One awaited interaction: the events that arrive while it is pending reach the
  listeners, the interaction is counted and recorded.\<close>

definition await_step :: "world \<Rightarrow> effect \<Rightarrow> run_state \<Rightarrow> run_state" where
  "await_step w e s =
     (foldl (\<lambda>st ev. deliver ev st) s (events w (tick s)))
       \<lparr>tick := Suc (tick s), trace := trace s @ [e]\<rparr>"

text \<open>\<open>Date.now()\<close>: a reading of the clock, counted but not awaited.\<close>

definition read_clock :: "world \<Rightarrow> run_state \<Rightarrow> nat \<times> run_state" where
  "read_clock w s = (date_now w (tick s), s\<lparr>tick := Suc (tick s)\<rparr>)"

text \<open>\<open>log\<close>: \<open>console.log\<close> of the message behind an arrow.\<close>

definition log :: "string \<Rightarrow> run_state \<Rightarrow> run_state" where
  "log msg s = s\<lparr>trace := trace s @ [ConsoleLog (''  -> '' @ msg)]\<rparr>"

definition browser_unit_call :: "world \<Rightarrow> browser_op \<Rightarrow> run_state \<Rightarrow> unit res \<times> run_state" where
  "browser_unit_call w op s = (browser_unit w (tick s) op, await_step w (Browser op) s)"

definition browser_bool_call :: "world \<Rightarrow> browser_op \<Rightarrow> run_state \<Rightarrow> bool res \<times> run_state" where
  "browser_bool_call w op s = (browser_bool w (tick s) op, await_step w (Browser op) s)"

definition browser_string_call :: "world \<Rightarrow> browser_op \<Rightarrow> run_state \<Rightarrow> string res \<times> run_state" where
  "browser_string_call w op s = (browser_string w (tick s) op, await_step w (Browser op) s)"

definition browser_strings_call :: "world \<Rightarrow> browser_op \<Rightarrow> run_state \<Rightarrow> string list res \<times> run_state" where
  "browser_strings_call w op s = (browser_strings w (tick s) op, await_step w (Browser op) s)"

definition browser_status_call :: "world \<Rightarrow> browser_op \<Rightarrow> run_state \<Rightarrow> nat res \<times> run_state" where
  "browser_status_call w op s = (browser_status w (tick s) op, await_step w (Browser op) s)"

section \<open>Evidence capture and the bug recorder\<close>

text \<open>\<open>takeScreenshot\<close>: the failure of \<open>page.screenshot\<close> is swallowed by
  \<open>.catch(() => {})\<close>; the relative path is returned in both cases.\<close>

definition takeScreenshot :: "world \<Rightarrow> RunContext \<Rightarrow> string \<Rightarrow> bool \<Rightarrow> run_state \<Rightarrow> string \<times> run_state" where
  "takeScreenshot w ctx label fullPage s =
     (let (now, s1) = read_clock w s;
          file = slug label @ ''-'' @ string_of_nat now @ ''.png'';
          abs = path_join (screenshotDir ctx) file;
          (r, s2) = browser_unit_call w (Screenshot abs fullPage) s1
      in (backslashes_to_slashes (path_relative (outputRoot ctx) abs), s2))"

fun severity_str :: "Severity \<Rightarrow> string" where
  "severity_str Low = ''Low''"
| "severity_str Medium = ''Medium''"
| "severity_str High = ''High''"
| "severity_str Critical = ''Critical''"

fun category_str :: "Category \<Rightarrow> string" where
  "category_str Navigation = ''Navigation''"
| "category_str Console = ''Console''"
| "category_str Network = ''Network''"
| "category_str Accessibility = ''Accessibility''"
| "category_str SEO = ''SEO''"
| "category_str Security = ''Security''"
| "category_str Performance = ''Performance''"
| "category_str Layout = ''Layout''"
| "category_str Functional = ''Functional''"
| "category_str Content = ''Content''"
| "category_str UX = ''UX''"

text \<open>The argument \<open>opts\<close> of \<open>addBug\<close>.\<close>

record AddBugOpts =
  opt_title :: string
  opt_severity :: Severity
  opt_category :: Category
  opt_description :: string
  opt_steps :: "string list"
  opt_evidenceLabel :: string
  opt_details :: "string list option"
  opt_fullPage :: "bool option"

text \<open>The id expression of both commit paths,
  \<open>`BUG-${String(bugs.length + 1).padStart(3, '0')}`\<close>, at ledger length \<open>len\<close>.\<close>

definition bug_id_for :: "nat \<Rightarrow> string" where
  "bug_id_for len = ''BUG-'' @ padStart 3 (CHR ''0'') (string_of_nat (len + 1))"

text \<open>\<open>addBug\<close>: the id is computed before the screenshot is awaited, the entry is pushed
  after it.\<close>

definition addBug :: "world \<Rightarrow> RunContext \<Rightarrow> AddBugOpts \<Rightarrow> run_state \<Rightarrow> run_state" where
  "addBug w ctx opts s =
     (let ident = bug_id_for (length (bugs s));
          (shot, s1) = takeScreenshot w ctx (ident @ ''-'' @ opt_evidenceLabel opts)
                         (case opt_fullPage opts of None \<Rightarrow> True | Some b \<Rightarrow> b) s;
          s2 = array_push bugs_ref
                 \<lparr> bug_id = ident, title = opt_title opts, severity = opt_severity opts,
                   category = opt_category opts, description = opt_description opts,
                   steps = opt_steps opts, evidence = [shot], details = opt_details opts \<rparr> s1
      in log (ident @ '' ['' @ severity_str (opt_severity opts) @ ''] '' @ opt_title opts) s2)"

text \<open>\<open>checkResponsive\<close>: a second page at 375 by 812. Opening the page, sizing it and
  closing it are outside the \<open>try\<close>, so their faults reach the caller; everything between
  is best effort. The commit pushes to the ledger directly: screenshot first, then the id.\<close>

definition checkResponsive_try :: "world \<Rightarrow> RunContext \<Rightarrow> string \<Rightarrow> run_state \<Rightarrow> run_state" where
  "checkResponsive_try w ctx target s =
     (case browser_unit_call w (Goto target (NAV_TIMEOUT w)) s of
        (Threw m, s1) \<Rightarrow> s1
      | (Returned u, s1) \<Rightarrow>
     (case browser_unit_call w (WaitForTimeout 3000) s1 of
        (Threw m, s2) \<Rightarrow> s2
      | (Returned u, s2) \<Rightarrow>
     (case browser_strings_call w (Evaluate ''responsive'') s2 of
        (Threw m, s3) \<Rightarrow> s3
      | (Returned issues, s3) \<Rightarrow>
          if issues \<noteq> [] then
            (let (shot, s4) = takeScreenshot w ctx ''responsive-mobile'' True s3;
                 ident = bug_id_for (length (bugs s4));
                 s5 = array_push bugs_ref
                        \<lparr> bug_id = ident,
                          title = string_of_nat (length issues) @ '' responsive design issue(s)'',
                          severity = Medium, category = Layout,
                          description = ''Page has layout problems at mobile viewport (375px).'',
                          steps = [''Open target URL on a 375px-wide viewport''],
                          evidence = [shot], details = Some issues \<rparr> s4
             in log (ident @ '' [Medium] '' @ string_of_nat (length issues) @ '' responsive design issue(s)'') s5)
          else s3)))"

definition checkResponsive :: "world \<Rightarrow> RunContext \<Rightarrow> string \<Rightarrow> run_state \<Rightarrow> unit res \<times> run_state" where
  "checkResponsive w ctx target s =
     (case browser_unit_call w NewPage s of
        (Threw m, s1) \<Rightarrow> (Threw m, s1)
      | (Returned u, s1) \<Rightarrow>
     (case browser_unit_call w (SetViewportSize 375 812) s1 of
        (Threw m, s2) \<Rightarrow> (Threw m, s2)
      | (Returned u, s2) \<Rightarrow>
     (case browser_unit_call w ClosePage (checkResponsive_try w ctx target s2) of
        (Threw m, s3) \<Rightarrow> (Threw m, s3)
      | (Returned u, s3) \<Rightarrow> (Returned (), s3))))"

section \<open>The oracle (LLM module)\<close>

text \<open>\<open>initGemini\<close>: without a key nothing is initialised; with one, the text model and
  the vision model.\<close>

definition initGemini :: "world \<Rightarrow> run_state \<Rightarrow> run_state" where
  "initGemini w s =
     (if GEMINI_API_KEY w = [] then
        s\<lparr>trace := trace s @
          [ConsoleLog (''  '' @ [CHR 0xE2, CHR 0x9A, CHR 0xA0] @ '' GEMINI_API_KEY not set '' @ em_dash @
             '' LLM features disabled. Set it for AI-powered testing.'')]\<rparr>
      else
        s\<lparr>geminiModel := Some ''gemini-2.5-flash-lite'',
          geminiVisionModel := Some ''gemini-2.5-flash'',
          trace := trace s @
            [ConsoleLog (''  '' @ [CHR 0xE2, CHR 0x9C, CHR 0x93] @ '' Gemini LLM initialized''),
             ConsoleLog ''    Text model:   gemini-2.5-flash-lite (10 RPM)'',
             ConsoleLog ''    Vision model: gemini-2.5-flash (5 RPM)'']\<rparr>)"

text \<open>\<open>throttleLLM\<close>: at least \<open>LLM_MIN_DELAY\<close> milliseconds between two calls.\<close>

definition throttleLLM :: "world \<Rightarrow> run_state \<Rightarrow> run_state" where
  "throttleLLM w s =
     (let (now, s1) = read_clock w s;
          elapsed = int now - int (lastLLMCall s1);
          s2 = (if elapsed < int LLM_MIN_DELAY
                then await_step w (Sleep (nat (int LLM_MIN_DELAY - elapsed))) s1 else s1);
          (now2, s3) = read_clock w s2
      in s3\<lparr>lastLLMCall := now2\<rparr>)"

text \<open>\<open>model.generateContent(...)\<close> followed by \<open>result.response.text()\<close>: the text, or the
  message of whatever either of them throws.\<close>

definition generate :: "world \<Rightarrow> string \<Rightarrow> string \<Rightarrow> string option \<Rightarrow> run_state \<Rightarrow> string res \<times> run_state" where
  "generate w model prompt img s =
     (generateContent w (tick s) model prompt img, await_step w (OracleRequest model prompt) s)"

definition is_rate_limit :: "string \<Rightarrow> bool" where
  "is_rate_limit msg = (includes_str msg ''429'' \<or> includes_str msg ''RESOURCE_EXHAUSTED'')"

definition rate_limited_msg :: string where
  "rate_limited_msg = ''Rate limited '' @ em_dash @ '' waiting 15s...''"

text \<open>\<open>askGemini\<close>: the \<open>try\<close> block, then the function with its handler. The result
  \<open>Threw\<close> would be a fault reaching the caller.\<close>

definition askGemini_try :: "world \<Rightarrow> string \<Rightarrow> string \<Rightarrow> run_state \<Rightarrow> string res \<times> run_state" where
  "askGemini_try w model prompt s = generate w model prompt None (throttleLLM w s)"

definition askGemini :: "world \<Rightarrow> string \<Rightarrow> run_state \<Rightarrow> string res \<times> run_state" where
  "askGemini w prompt s =
     (case geminiModel s of
        None \<Rightarrow> (Returned [], s)
      | Some model \<Rightarrow>
          (case askGemini_try w model prompt s of
             (Returned t, s1) \<Rightarrow> (Returned t, s1)
           | (Threw msg, s1) \<Rightarrow>
               if is_rate_limit msg then
                 (case generate w model prompt None
                         (await_step w (Sleep 15000) (log rate_limited_msg s1)) of
                    (Returned t, s2) \<Rightarrow> (Returned t, s2)
                  | (Threw msg2, s2) \<Rightarrow> (Returned [], s2))
               else (Returned [], log (''LLM call failed: '' @ msg) s1)))"

text \<open>\<open>askGeminiVision\<close>: the same with the screenshot read from disk and sent along; the
  vision model when there is one, else the text model.\<close>

definition read_image :: "world \<Rightarrow> string \<Rightarrow> run_state \<Rightarrow> string res \<times> run_state" where
  "read_image w file s = (fs_readFile w (tick s) file, await_step w (FsReadFile file) s)"

definition askGeminiVision_try :: "world \<Rightarrow> string \<Rightarrow> string \<Rightarrow> string \<Rightarrow> run_state \<Rightarrow> string res \<times> run_state" where
  "askGeminiVision_try w model screenshotPath prompt s =
     (case read_image w screenshotPath (throttleLLM w s) of
        (Threw msg, s1) \<Rightarrow> (Threw msg, s1)
      | (Returned imageData, s1) \<Rightarrow> generate w model prompt (Some imageData) s1)"

definition askGeminiVision :: "world \<Rightarrow> string \<Rightarrow> string \<Rightarrow> run_state \<Rightarrow> string res \<times> run_state" where
  "askGeminiVision w screenshotPath prompt s =
     (case (case geminiVisionModel s of Some m \<Rightarrow> Some m | None \<Rightarrow> geminiModel s) of
        None \<Rightarrow> (Returned [], s)
      | Some model \<Rightarrow>
          (case askGeminiVision_try w model screenshotPath prompt s of
             (Returned t, s1) \<Rightarrow> (Returned t, s1)
           | (Threw msg, s1) \<Rightarrow>
               if is_rate_limit msg then
                 (case read_image w screenshotPath
                         (await_step w (Sleep 15000) (log rate_limited_msg s1)) of
                    (Threw msg2, s2) \<Rightarrow> (Returned [], s2)
                  | (Returned imageData, s2) \<Rightarrow>
                      (case generate w model prompt (Some imageData) s2 of
                         (Returned t, s3) \<Rightarrow> (Returned t, s3)
                       | (Threw msg3, s3) \<Rightarrow> (Returned [], s3)))
               else (Returned [], log (''LLM vision call failed: '' @ msg) s1)))"

text \<open>\<open>getDOMSummary\<close>: one evaluation in the page.\<close>

definition getDOMSummary :: "world \<Rightarrow> run_state \<Rightarrow> string res \<times> run_state" where
  "getDOMSummary w s = browser_string_call w (Evaluate ''getDOMSummary'') s"

text \<open>\<open>page.url()\<close>: a reading, not awaited.\<close>

definition read_page_url :: "world \<Rightarrow> run_state \<Rightarrow> string \<times> run_state" where
  "read_page_url w s = (page_url w (tick s), s\<lparr>tick := Suc (tick s)\<rparr>)"

subsection \<open>Reading the oracle's answer\<close>

text \<open>\<open>raw.replace(/```json\s*\n?/g, '').replace(/```\s*$/g, '').trim()\<close>: every opening
  fence with the white space after it, then the first fence that only white space follows
  to the end of the text, then the white space at both ends.\<close>

function strip_json_fences :: "string \<Rightarrow> string" where
  "strip_json_fences [] = []"
| "strip_json_fences (c # cs) =
     (if prefix (fence @ ''json'') (c # cs)
      then strip_json_fences (dropWhile is_space (drop 7 (c # cs)))
      else c # strip_json_fences cs)"
  by pat_completeness auto
termination
proof (relation "measure length")
  show "wf (measure length)" by simp
next
  fix c :: char and cs :: string
  have "length (dropWhile is_space (drop 7 (c # cs))) \<le> length (drop 7 (c # cs))"
    by (rule length_dropWhile_le)
  then show "(dropWhile is_space (drop 7 (c # cs)), c # cs) \<in> measure length"
    by simp
next
  fix c :: char and cs :: string
  show "(cs, c # cs) \<in> measure length" by simp
qed

fun strip_closing_fence :: "string \<Rightarrow> string" where
  "strip_closing_fence [] = []"
| "strip_closing_fence (c # cs) =
     (if prefix fence (c # cs) \<and> list_all is_space (drop 3 (c # cs)) then []
      else c # strip_closing_fence cs)"

definition clean_response :: "string \<Rightarrow> string" where
  "clean_response raw = trim (strip_closing_fence (strip_json_fences raw))"

text \<open>The two fixed answers of \<open>getNextTestAction\<close>.\<close>

definition done_action :: "string \<Rightarrow> json" where
  "done_action why = JObj [(''action'', JStr ''done''), (''reasoning'', JStr why)]"

definition numbered :: "string list \<Rightarrow> string list" where
  "numbered hs = map (\<lambda>(i, h). string_of_nat (i + 1) @ ''. '' @ h) (enumerate 0 hs)"

definition last_n :: "nat \<Rightarrow> 'a list \<Rightarrow> 'a list" where
  "last_n n xs = drop (length xs - n) xs"

definition nextAction_prompt :: "string \<Rightarrow> string \<Rightarrow> string \<Rightarrow> string list \<Rightarrow> string" where
  "nextAction_prompt pageUnderstanding currentUrl domSummary history = join nl
     [''You are an autonomous QA testing agent. You control a browser and must decide what to test next.'',
      [],
      ''Page Understanding: '' @ take 1500 pageUnderstanding,
      [],
      ''Current URL: '' @ currentUrl,
      ''Current DOM (simplified):'',
      fence,
      take 3000 domSummary,
      fence,
      [],
      ''Actions already performed:'',
      join nl (numbered (last_n 15 history)),
      [],
      ''I'' @ sq @ ''m showing you a screenshot of the current page state.'',
      [],
      ''Your goal: Find bugs by interacting with the page. Choose ONE next action to test something that hasn'' @ sq @ ''t been tested yet.'',
      [],
      ''Rules:'',
      ''- Prefer testing core functionality (forms, buttons, navigation) over cosmetic elements'',
      ''- Try edge cases: empty inputs, special characters, very long values, negative numbers'',
      ''- Test all visible interactive elements'',
      ''- If you'' @ sq @ ''ve tested most things, say '' @ dq @ ''done'' @ dq,
      ''- Make selector values that Playwright can find (CSS selectors or text content)'',
      ''- For '' @ sq @ ''click'' @ sq @ '', provide either a CSS selector OR text content to find the element'',
      ''- For '' @ sq @ ''fill'' @ sq @ '', provide the selector and value to type'',
      [],
      ''Return ONLY valid JSON (no markdown fences) in this exact format:'',
      ''{'',
      ''  '' @ dq @ ''action'' @ dq @ '': '' @ dq @ ''click|fill|scroll|hover|navigate|press_key|done'' @ dq @ '','',
      ''  '' @ dq @ ''selector'' @ dq @ '': '' @ dq @ ''CSS selector like button.submit or #email-input'' @ dq @ '','',
      ''  '' @ dq @ ''text'' @ dq @ '': '' @ dq @ ''visible text to find element by (alternative to selector)'' @ dq @ '','',
      ''  '' @ dq @ ''value'' @ dq @ '': '' @ dq @ ''value to type (for fill action)'' @ dq @ '','',
      ''  '' @ dq @ ''url'' @ dq @ '': '' @ dq @ ''url to navigate to (for navigate action)'' @ dq @ '','',
      ''  '' @ dq @ ''key'' @ dq @ '': '' @ dq @ ''key name (for press_key action, e.g. Enter, Tab, Escape)'' @ dq @ '','',
      ''  '' @ dq @ ''reasoning'' @ dq @ '': '' @ dq @ ''Why this action is a good test'' @ dq,
      ''}'']"

text \<open>\<open>getNextTestAction\<close>: the screenshot and the DOM summary are awaited outside any
  \<open>try\<close>; only the parse of the answer is guarded. What \<open>JSON.parse\<close> returns is returned
  as it is.\<close>

definition getNextTestAction ::
  "world \<Rightarrow> RunContext \<Rightarrow> string list \<Rightarrow> string \<Rightarrow> run_state \<Rightarrow> json res \<times> run_state" where
  "getNextTestAction w ctx history pageUnderstanding s =
     (if geminiModel s = None then (Returned (done_action ''LLM not available''), s)
      else
        (let (now, s1) = read_clock w s;
             screenshotFile = path_join (screenshotDir ctx) (''llm-action-'' @ string_of_nat now @ ''.png'')
         in case browser_unit_call w (Screenshot screenshotFile False) s1 of
              (Threw m, s2) \<Rightarrow> (Threw m, s2)
            | (Returned u, s2) \<Rightarrow>
          (case getDOMSummary w s2 of
              (Threw m, s3) \<Rightarrow> (Threw m, s3)
            | (Returned domSummary, s3) \<Rightarrow>
          (let (currentUrl, s4) = read_page_url w s3
           in case askGeminiVision w screenshotFile
                     (nextAction_prompt pageUnderstanding currentUrl domSummary history) s4 of
                (Threw m, s5) \<Rightarrow> (Threw m, s5)
              | (Returned raw, s5) \<Rightarrow>
                  (case JSON_parse w (clean_response raw) of
                     Returned v \<Rightarrow> (Returned v, s5)
                   | Threw m \<Rightarrow> (Returned (done_action ''Could not parse LLM response''), s5))))))"

subsection \<open>The head of one turn of the exploration loop\<close>

text \<open>A JavaScript value read from a parsed answer: \<open>undefined\<close> or a JSON value.\<close>

datatype jsval = Undefined | Val json

text \<open>\<open>v.name\<close> for a property name that no prototype defines (\<open>action\<close>, \<open>reasoning\<close>):
  a \<open>TypeError\<close> on \<open>null\<close>, the own property of an object, \<open>undefined\<close> elsewhere.\<close>

fun get_property :: "json \<Rightarrow> string \<Rightarrow> jsval res" where
  "get_property JNull name =
     Threw (''Cannot read properties of null (reading '' @ sq @ name @ sq @ '')'')"
| "get_property (JObj kvs) name =
     Returned (case map_of kvs name of None \<Rightarrow> Undefined | Some v \<Rightarrow> Val v)"
| "get_property v name = Returned Undefined"

text \<open>\<open>x.slice(0, n)\<close>: strings and arrays have the method; reading it from \<open>undefined\<close> or
  \<open>null\<close> is a \<open>TypeError\<close>, and so is calling what a number, a boolean or a parsed
  object has under that name.\<close>

fun slice_call :: "jsval \<Rightarrow> nat \<Rightarrow> jsval res" where
  "slice_call Undefined n =
     Threw (''Cannot read properties of undefined (reading '' @ sq @ ''slice'' @ sq @ '')'')"
| "slice_call (Val JNull) n =
     Threw (''Cannot read properties of null (reading '' @ sq @ ''slice'' @ sq @ '')'')"
| "slice_call (Val (JStr s)) n = Returned (Val (JStr (take n s)))"
| "slice_call (Val (JArr xs)) n = Returned (Val (JArr (take n xs)))"
| "slice_call (Val v) n = Threw ''action.reasoning.slice is not a function''"

definition string_of_int :: "int \<Rightarrow> string" where
  "string_of_int i = (if i < 0 then ''-'' @ string_of_nat (nat (- i)) else string_of_nat (nat i))"

text \<open>The text a template literal gives a value.\<close>

fun js_to_string :: "json \<Rightarrow> string" where
  "js_to_string JNull = ''null''"
| "js_to_string (JBool b) = (if b then ''true'' else ''false'')"
| "js_to_string (JNum i) = string_of_int i"
| "js_to_string (JStr s) = s"
| "js_to_string (JArr xs) = join '','' (map (\<lambda>x. if x = JNull then [] else js_to_string x) xs)"
| "js_to_string (JObj kvs) = ''[object Object]''"

fun template :: "jsval \<Rightarrow> string" where
  "template Undefined = ''undefined''"
| "template (Val v) = js_to_string v"

datatype plan_outcome = Break | Continue "string list" | Act json

text \<open>The first statements of the body of the \<open>for\<close> loop of \<open>llmAutonomousExploration\<close>:
  the plan is asked for and logged, and a plan \<open>done\<close> ends the turn. There is no \<open>try\<close>
  around them, in the loop or in the function: a fault here leaves
  \<open>llmAutonomousExploration\<close> and reaches the handler of \<open>main\<close>, which sets the exit code
  to 1; the calls after it in \<open>main\<close>, \<open>writeReport\<close> among them, are not made.\<close>

definition plan_turn ::
  "world \<Rightarrow> RunContext \<Rightarrow> nat \<Rightarrow> nat \<Rightarrow> string list \<Rightarrow> string \<Rightarrow> nat \<Rightarrow> run_state
     \<Rightarrow> plan_outcome res \<times> run_state" where
  "plan_turn w ctx i maxIterations history pageUnderstanding consecutiveDone s =
     (case getNextTestAction w ctx history pageUnderstanding
             (log (''LLM iteration '' @ string_of_nat (i + 1) @ ''/'' @ string_of_nat maxIterations @ ''...'') s) of
        (Threw m, s1) \<Rightarrow> (Threw m, s1)
      | (Returned action, s1) \<Rightarrow>
     (case get_property action ''action'' of
        Threw m \<Rightarrow> (Threw m, s1)
      | Returned a \<Rightarrow>
     (case get_property action ''reasoning'' of
        Threw m \<Rightarrow> (Threw m, s1)
      | Returned r \<Rightarrow>
     (case slice_call r 80 of
        Threw m \<Rightarrow> (Threw m, s1)
      | Returned sl \<Rightarrow>
          (let s2 = log (''LLM action: '' @ template a @ '' '' @ em_dash @ '' '' @ template sl) s1
           in if a = Val (JStr ''done'') then
                (if consecutiveDone + 1 \<ge> 2
                 then (Returned Break, log ''LLM has finished autonomous exploration'' s2)
                 else (Returned (Continue (history @ [''LLM indicated done, continuing for confirmation...''])), s2))
              else (Returned (Act action), s2))))))"

section \<open>The Workflow Action Engine\<close>

text \<open>\<open>LLMAction\<close>, with the prefix \<open>la_\<close> on its fields.\<close>

record LLMAction =
  la_action :: string
  la_selector :: "string option"
  la_text :: "string option"
  la_value :: "string option"
  la_url :: "string option"
  la_key :: "string option"
  la_reasoning :: string

record exec_result =
  ex_description :: string
  ex_error :: bool
  ex_jsErrors :: int

text \<open>Truthiness of an optional string, \<open>a || b\<close>, and the text of \<open>${a}\<close>.\<close>

definition truthy :: "string option \<Rightarrow> bool" where
  "truthy a = (case a of None \<Rightarrow> False | Some s \<Rightarrow> s \<noteq> [])"

definition or_else :: "string option \<Rightarrow> string option \<Rightarrow> string option" where
  "or_else a b = (if truthy a then a else b)"

definition tmpl :: "string option \<Rightarrow> string" where
  "tmpl a = (case a of None \<Rightarrow> ''undefined'' | Some s \<Rightarrow> s)"

definition quoted_target :: "LLMAction \<Rightarrow> string" where
  "quoted_target action = dq @ tmpl (or_else (la_text action) (la_selector action)) @ dq"

definition js_errors_since :: "nat \<Rightarrow> run_state \<Rightarrow> int" where
  "js_errors_since errorsBefore s = int (length (pageErrors s)) - int errorsBefore"

text \<open>The \<open>try\<close> block of \<open>executeLLMAction\<close>. A fault of \<open>isVisible\<close> counts as not
  visible (\<open>.catch(() => false)\<close>); every other fault leaves the block.\<close>

definition executeLLMAction_try ::
  "world \<Rightarrow> LLMAction \<Rightarrow> nat \<Rightarrow> run_state \<Rightarrow> exec_result res \<times> run_state" where
  "executeLLMAction_try w action errorsBefore s =
     (if la_action action = ''click'' then
        (case (if truthy (la_text action) then Some (ByText (the (la_text action)))
               else if truthy (la_selector action) then Some (BySelector (the (la_selector action)))
               else None) of
           None \<Rightarrow> (Returned \<lparr>ex_description = ''No target for click'', ex_error = True, ex_jsErrors = 0\<rparr>, s)
         | Some loc \<Rightarrow>
        (case browser_bool_call w (IsVisible loc) s of (rv, s1) \<Rightarrow>
           if \<not> (case rv of Returned b \<Rightarrow> b | Threw m \<Rightarrow> False) then
             (Returned \<lparr>ex_description = ''Element '' @ quoted_target action @ '' not visible'',
                        ex_error = True, ex_jsErrors = 0\<rparr>, s1)
           else
        (case browser_unit_call w (Click loc 5000) s1 of
           (Threw m, s2) \<Rightarrow> (Threw m, s2)
         | (Returned u, s2) \<Rightarrow>
        (case browser_unit_call w (WaitForTimeout 1500) s2 of
           (Threw m, s3) \<Rightarrow> (Threw m, s3)
         | (Returned u, s3) \<Rightarrow>
             (Returned \<lparr>ex_description = ''Clicked '' @ quoted_target action, ex_error = False,
                        ex_jsErrors = js_errors_since errorsBefore s3\<rparr>, s3)))))
      else if la_action action = ''fill'' then
        (case (if truthy (la_text action) then Some (ByPlaceholder (the (la_text action)))
               else if truthy (la_selector action) then Some (BySelector (the (la_selector action)))
               else None) of
           None \<Rightarrow> (Returned \<lparr>ex_description = ''No target for fill'', ex_error = True, ex_jsErrors = 0\<rparr>, s)
         | Some loc \<Rightarrow>
        (case browser_bool_call w (IsVisible loc) s of (rv, s1) \<Rightarrow>
           if \<not> (case rv of Returned b \<Rightarrow> b | Threw m \<Rightarrow> False) then
             (Returned \<lparr>ex_description = ''Input '' @ quoted_target action @ '' not visible'',
                        ex_error = True, ex_jsErrors = 0\<rparr>, s1)
           else
        (case browser_unit_call w (Click loc 3000) s1 of
           (Threw m, s2) \<Rightarrow> (Threw m, s2)
         | (Returned u, s2) \<Rightarrow>
        (case browser_unit_call w
                (Fill loc (case la_value action of None \<Rightarrow> ''test'' | Some v \<Rightarrow> v) 3000) s2 of
           (Threw m, s3) \<Rightarrow> (Threw m, s3)
         | (Returned u, s3) \<Rightarrow>
        (case browser_unit_call w (WaitForTimeout 800) s3 of
           (Threw m, s4) \<Rightarrow> (Threw m, s4)
         | (Returned u, s4) \<Rightarrow>
             (Returned \<lparr>ex_description = ''Filled '' @ quoted_target action @ '' with '' @
                          dq @ tmpl (la_value action) @ dq,
                        ex_error = False, ex_jsErrors = js_errors_since errorsBefore s4\<rparr>, s4))))))
      else if la_action action = ''scroll'' then
        (case browser_unit_call w (Evaluate ''window.scrollBy(0, 600)'') s of
           (Threw m, s1) \<Rightarrow> (Threw m, s1)
         | (Returned u, s1) \<Rightarrow>
        (case browser_unit_call w (WaitForTimeout 1000) s1 of
           (Threw m, s2) \<Rightarrow> (Threw m, s2)
         | (Returned u, s2) \<Rightarrow>
             (Returned \<lparr>ex_description = ''Scrolled down 600px'', ex_error = False,
                        ex_jsErrors = js_errors_since errorsBefore s2\<rparr>, s2)))
      else if la_action action = ''hover'' then
        (case (if truthy (la_text action) then Some (ByText (the (la_text action)))
               else if truthy (la_selector action) then Some (BySelector (the (la_selector action)))
               else None) of
           None \<Rightarrow> (Returned \<lparr>ex_description = ''No target for hover'', ex_error = True, ex_jsErrors = 0\<rparr>, s)
         | Some loc \<Rightarrow>
        (case browser_unit_call w (Hover loc 3000) s of
           (Threw m, s1) \<Rightarrow> (Threw m, s1)
         | (Returned u, s1) \<Rightarrow>
        (case browser_unit_call w (WaitForTimeout 800) s1 of
           (Threw m, s2) \<Rightarrow> (Threw m, s2)
         | (Returned u, s2) \<Rightarrow>
             (Returned \<lparr>ex_description = ''Hovered '' @ quoted_target action, ex_error = False,
                        ex_jsErrors = js_errors_since errorsBefore s2\<rparr>, s2))))
      else if la_action action = ''navigate'' then
        (if truthy (la_url action) then
           (case browser_unit_call w (Goto (the (la_url action)) 30000) s of
              (Threw m, s1) \<Rightarrow> (Threw m, s1)
            | (Returned u, s1) \<Rightarrow>
           (case browser_unit_call w (WaitForTimeout 2000) s1 of
              (Threw m, s2) \<Rightarrow> (Threw m, s2)
            | (Returned u, s2) \<Rightarrow>
                (Returned \<lparr>ex_description = ''Navigated to '' @ the (la_url action), ex_error = False,
                           ex_jsErrors = js_errors_since errorsBefore s2\<rparr>, s2)))
         else (Returned \<lparr>ex_description = ''No URL for navigate'', ex_error = True, ex_jsErrors = 0\<rparr>, s))
      else if la_action action = ''press_key'' then
        (case browser_unit_call w
                (KeyboardPress (if truthy (la_key action) then the (la_key action) else ''Enter'')) s of
           (Threw m, s1) \<Rightarrow> (Threw m, s1)
         | (Returned u, s1) \<Rightarrow>
        (case browser_unit_call w (WaitForTimeout 800) s1 of
           (Threw m, s2) \<Rightarrow> (Threw m, s2)
         | (Returned u, s2) \<Rightarrow>
             (Returned \<lparr>ex_description = ''Pressed key: '' @
                          (if truthy (la_key action) then the (la_key action) else ''Enter''),
                        ex_error = False, ex_jsErrors = js_errors_since errorsBefore s2\<rparr>, s2)))
      else if la_action action = ''done'' then
        (Returned \<lparr>ex_description = ''LLM decided testing is complete'', ex_error = False, ex_jsErrors = 0\<rparr>, s)
      else
        (Returned \<lparr>ex_description = ''Unknown action: '' @ la_action action, ex_error = True, ex_jsErrors = 0\<rparr>, s))"

text \<open>\<open>executeLLMAction\<close>: the block and its handler.\<close>

definition executeLLMAction ::
  "world \<Rightarrow> RunContext \<Rightarrow> LLMAction \<Rightarrow> string \<Rightarrow> run_state \<Rightarrow> exec_result res \<times> run_state" where
  "executeLLMAction w ctx action baseUrl s =
     (case executeLLMAction_try w action (length (pageErrors s)) s of
        (Returned r, s1) \<Rightarrow> (Returned r, s1)
      | (Threw msg, s1) \<Rightarrow>
          (Returned \<lparr>ex_description = ''Action failed: '' @ take 100 msg, ex_error = True,
                     ex_jsErrors = js_errors_since (length (pageErrors s)) s1\<rparr>, s1))"

text \<open>\<open>safeAction\<close>: the action's value, or the fallback when it throws.\<close>

definition safeAction ::
  "(run_state \<Rightarrow> 'a res \<times> run_state) \<Rightarrow> 'a \<Rightarrow> run_state \<Rightarrow> 'a res \<times> run_state" where
  "safeAction fn fallback s =
     (case fn s of
        (Returned v, s1) \<Rightarrow> (Returned v, s1)
      | (Threw m, s1) \<Rightarrow> (Returned fallback, s1))"

section \<open>Detectors\<close>

definition browser_meta_call :: "world \<Rightarrow> run_state \<Rightarrow> head_meta res \<times> run_state" where
  "browser_meta_call w s = (browser_meta w (tick s), await_step w (Browser (Evaluate ''meta'')) s)"

text \<open>\<open>checkSEO\<close>: the title, then one evaluation reading the head, then one bug for each
  finding, in the order of the source.\<close>

definition checkSEO :: "world \<Rightarrow> RunContext \<Rightarrow> run_state \<Rightarrow> unit res \<times> run_state" where
  "checkSEO w ctx s =
     (case browser_string_call w PageTitle s of
        (Threw m, s1) \<Rightarrow> (Threw m, s1)
      | (Returned t, s1) \<Rightarrow>
     (let s2 = (if trim t = [] then
                  addBug w ctx
                    \<lparr> opt_title = ''Missing page <title>'', opt_severity = Medium, opt_category = SEO,
                      opt_description = ''The page has no <title> or it is empty '' @ em_dash @
                                        '' hurts SEO and browser tab UX.'',
                      opt_steps = [''Open target URL'', ''Inspect <head>''],
                      opt_evidenceLabel = ''missing-title'', opt_details = None, opt_fullPage = None \<rparr> s1
                else s1)
      in case browser_meta_call w s2 of
           (Threw m, s3) \<Rightarrow> (Threw m, s3)
         | (Returned meta, s3) \<Rightarrow>
     (let s4 = (if meta_description meta = [] then
                  addBug w ctx
                    \<lparr> opt_title = ''Missing meta description'', opt_severity = Low, opt_category = SEO,
                      opt_description = ''No <meta name='' @ dq @ ''description'' @ dq @ ''> found '' @ em_dash @
                                        '' important for search engine snippets.'',
                      opt_steps = [''Inspect <head>''],
                      opt_evidenceLabel = ''missing-description'', opt_details = None, opt_fullPage = None \<rparr> s3
                else s3);
          s5 = (if meta_viewport meta = [] then
                  addBug w ctx
                    \<lparr> opt_title = ''Missing viewport meta tag'', opt_severity = Medium, opt_category = SEO,
                      opt_description = ''Without a viewport meta tag the page may not render correctly on mobile.'',
                      opt_steps = [''Inspect <head>''],
                      opt_evidenceLabel = ''missing-viewport'', opt_details = None, opt_fullPage = None \<rparr> s4
                else s4);
          s6 = (if meta_lang meta = [] then
                  addBug w ctx
                    \<lparr> opt_title = ''Missing lang attribute on <html>'', opt_severity = Low,
                      opt_category = Accessibility,
                      opt_description = ''Screen readers need a lang attribute to choose the right pronunciation.'',
                      opt_steps = [''Inspect <html> element''],
                      opt_evidenceLabel = ''missing-lang'', opt_details = None, opt_fullPage = None \<rparr> s5
                else s5);
          s7 = (if \<not> meta_favicon meta then
                  addBug w ctx
                    \<lparr> opt_title = ''Missing favicon'', opt_severity = Low, opt_category = UX,
                      opt_description = ''No favicon link detected; the browser will show a generic icon.'',
                      opt_steps = [''Check browser tab icon''],
                      opt_evidenceLabel = ''missing-favicon'', opt_details = None, opt_fullPage = None \<rparr> s6
                else s6);
          s8 = (if meta_ogTitle meta = [] \<and> meta_ogImage meta = [] then
                  addBug w ctx
                    \<lparr> opt_title = ''Missing Open Graph tags'', opt_severity = Low, opt_category = SEO,
                      opt_description = ''No og:title / og:image found '' @ em_dash @
                                        '' shared links will have poor previews.'',
                      opt_steps = [''Inspect <head> for og: meta tags''],
                      opt_evidenceLabel = ''missing-og'', opt_details = None, opt_fullPage = None \<rparr> s7
                else s7)
      in (Returned (), s8))))"

text \<open>\<open>checkBrokenLinks\<close>. The page gives the \<open>href\<close> of every anchor; those starting with
  \<open>http\<close> are kept, then the first 30 distinct ones get a HEAD request each, in order.\<close>

fun head_requests :: "world \<Rightarrow> string list \<Rightarrow> string list \<Rightarrow> run_state \<Rightarrow> string list \<times> run_state" where
  "head_requests w [] broken s = (broken, s)"
| "head_requests w (href # rest) broken s =
     (case browser_status_call w (RequestHead href 8000) s of
        (Returned st, s1) \<Rightarrow>
          head_requests w rest
            (if st \<ge> 400 then broken @ [href @ '' -> '' @ string_of_nat st] else broken) s1
      | (Threw m, s1) \<Rightarrow>
          head_requests w rest (broken @ [href @ '' -> timeout/network error'']) s1)"

definition checkBrokenLinks :: "world \<Rightarrow> RunContext \<Rightarrow> run_state \<Rightarrow> unit res \<times> run_state" where
  "checkBrokenLinks w ctx s =
     (case browser_strings_call w (Evaluate ''a[href]'') s of
        (Threw m, s1) \<Rightarrow> (Threw m, s1)
      | (Returned hrefs, s1) \<Rightarrow>
          (let links = filter (\<lambda>h. startsWith h ''http'') hrefs;
               unique = take 30 (uniq links);
               (broken, s2) = head_requests w unique [] s1
           in if broken \<noteq> [] then
                (Returned (),
                 addBug w ctx
                   \<lparr> opt_title = string_of_nat (length broken) @ '' broken / unreachable link(s)'',
                     opt_severity = (if length broken > 5 then High else Medium),
                     opt_category = Content,
                     opt_description = ''Links on the page point to unreachable or error-returning URLs.'',
                     opt_steps = [''Open target URL'', ''Click links''],
                     opt_evidenceLabel = ''broken-links'',
                     opt_details = Some (take 20 broken), opt_fullPage = None \<rparr> s2)
              else (Returned (), s2)))"

section \<open>The report writer\<close>

definition bt :: string where "bt = [CHR 0x60]"

text \<open>\<open>path.dirname\<close>, for a POSIX path with a directory part.\<close>

definition path_dirname :: "string \<Rightarrow> string" where
  "path_dirname p = rev (drop 1 (dropWhile (\<lambda>c. c \<noteq> CHR ''/'') (rev p)))"

definition fs_step :: "world \<Rightarrow> effect \<Rightarrow> run_state \<Rightarrow> unit res \<times> run_state" where
  "fs_step w e s = (fs_call w (tick s) e, await_step w e s)"

text \<open>\<open>new Date().toISOString()\<close>: a reading of the clock as text.\<close>

definition read_date_iso :: "world \<Rightarrow> run_state \<Rightarrow> string \<times> run_state" where
  "read_date_iso w s = (date_iso w (tick s), s\<lparr>tick := Suc (tick s)\<rparr>)"

definition bySev :: "run_state \<Rightarrow> Severity \<Rightarrow> nat" where
  "bySev s sv = length (filter (\<lambda>b. severity b = sv) (bugs s))"

definition summary_prompt :: "string \<Rightarrow> string \<Rightarrow> run_state \<Rightarrow> string" where
  "summary_prompt target scope s = join nl
     [''You are a senior QA engineer writing an executive summary for a QA test report.'',
      [],
      ''Website tested: '' @ target,
      ''Scope: '' @ scope,
      ''Total bugs found: '' @ string_of_nat (length (bugs s)),
      ''Critical: '' @ string_of_nat (bySev s Critical),
      ''High: '' @ string_of_nat (bySev s High),
      ''Medium: '' @ string_of_nat (bySev s Medium),
      ''Low: '' @ string_of_nat (bySev s Low),
      [],
      ''Bugs found:'',
      take 3000 (join nl (map (\<lambda>b. ''['' @ severity_str (severity b) @ ''] '' @ title b @ '': '' @ description b) (bugs s))),
      [],
      ''Workflow results:'',
      take 2000 (join nl (map (\<lambda>wr. ''['' @ (if wf_passed wr then ''PASS'' else ''FAIL'') @ ''] '' @ wf_name wr) (workflowResults s))),
      [],
      ''Write a concise executive summary (3-5 paragraphs) that:'',
      ''1. Describes the overall quality of the website'',
      ''2. Highlights the most critical issues that need immediate attention'',
      ''3. Groups related issues into themes'',
      ''4. Provides prioritized recommendations'',
      ''5. Notes any positive aspects of the site'',
      [],
      ''Write in professional QA report style. Use markdown formatting.'']"

definition generateLLMReportSummary :: "world \<Rightarrow> string \<Rightarrow> string \<Rightarrow> run_state \<Rightarrow> string res \<times> run_state" where
  "generateLLMReportSummary w target scope s =
     (if geminiModel s = None then (Returned [], s)
      else askGemini w (summary_prompt target scope s) s)"

definition header_lines :: "world \<Rightarrow> RunContext \<Rightarrow> string \<Rightarrow> string \<Rightarrow> string \<Rightarrow> run_state \<Rightarrow> string list" where
  "header_lines w ctx target scope date s =
     [''# QA Test Report'',
      [],
      ''| Field | Value |'',
      ''|-------|-------|'',
      ''| URL | '' @ target @ '' |'',
      ''| Run | '' @ runId ctx @ '' |'',
      ''| Date | '' @ date @ '' |'',
      ''| Browser | Chromium (Playwright, headless) |'',
      ''| AI Engine | '' @ (if LLM_ENABLED w then ''Gemini 2.5 Flash + 2.5 Flash Lite''
                          else ''Disabled (no API key)'') @ '' |'',
      ''| Scope | '' @ scope @ '' |'',
      ''| Bugs Found | **'' @ string_of_nat (length (bugs s)) @ ''** |'',
      []]"

definition severity_summary_lines :: "run_state \<Rightarrow> string list" where
  "severity_summary_lines s =
     [''## Summary'',
      [],
      ''| Severity | Count |'',
      ''|----------|-------|'',
      ''| Critical | '' @ string_of_nat (bySev s Critical) @ '' |'',
      ''| High | '' @ string_of_nat (bySev s High) @ '' |'',
      ''| Medium | '' @ string_of_nat (bySev s Medium) @ '' |'',
      ''| Low | '' @ string_of_nat (bySev s Low) @ '' |'',
      []]"

definition category_lines :: "run_state \<Rightarrow> string list" where
  "category_lines s =
     (let cats = uniq (map category (bugs s))
      in if cats \<noteq> [] then
           [''| Category | Count |'', ''|----------|-------|''] @
           map (\<lambda>c. ''| '' @ category_str c @ '' | '' @
                      string_of_nat (length (filter (\<lambda>b. category b = c) (bugs s))) @ '' |'') cats @
           [[]]
         else [])"

definition code_item :: "string \<Rightarrow> string" where
  "code_item e = ''- '' @ bt @ e @ bt"

definition runtime_lines :: "run_state \<Rightarrow> string list" where
  "runtime_lines s =
     (if consoleErrors s \<noteq> [] \<or> pageErrors s \<noteq> [] \<or> consoleWarnings s \<noteq> [] then
        [''## Runtime Signals'', []] @
        (if consoleErrors s \<noteq> [] then
           [''### Console Errors ('' @ string_of_nat (length (consoleErrors s)) @ '')''] @
           map code_item (take 25 (consoleErrors s)) @ [[]]
         else []) @
        (if pageErrors s \<noteq> [] then
           [''### Uncaught Exceptions ('' @ string_of_nat (length (pageErrors s)) @ '')''] @
           map code_item (take 25 (pageErrors s)) @ [[]]
         else []) @
        (if consoleWarnings s \<noteq> [] then
           [''### Console Warnings ('' @ string_of_nat (length (consoleWarnings s)) @ '')''] @
           map code_item (take 10 (consoleWarnings s)) @ [[]]
         else [])
      else [])"

text \<open>\<open>${r.status ?? r.failure}\<close>: the status when there is one, else the failure text,
  else the text of \<open>undefined\<close>.\<close>

definition status_or_failure :: "FailedRequest \<Rightarrow> string" where
  "status_or_failure r =
     (case status r of Some st \<Rightarrow> string_of_nat st | None \<Rightarrow> tmpl (failure r))"

definition network_lines :: "run_state \<Rightarrow> string list" where
  "network_lines s =
     (if failedRequests s \<noteq> [] then
        [''## Failed Network Requests ('' @ string_of_nat (length (failedRequests s)) @ '')'', []] @
        map (\<lambda>r. ''- '' @ bt @ req_method r @ '' '' @ url r @ bt @ '' -> '' @ status_or_failure r @
                   '' ('' @ resourceType r @ '')'') (take 30 (failedRequests s)) @
        [[]]
      else [])"

definition dash_if_none :: "string option \<Rightarrow> string" where
  "dash_if_none a = (case a of None \<Rightarrow> ''-'' | Some v \<Rightarrow> v)"

definition workflow_entry_lines :: "WorkflowResult \<Rightarrow> string list" where
  "workflow_entry_lines wr =
     [''#### ['' @ (if wf_passed wr then ''PASS'' else ''FAIL'') @ ''] '' @ wf_name wr, []] @
     (if wf_steps wr \<noteq> [] then
        [''| Step | Action | Target | Expected |'', ''|------|--------|--------|----------|''] @
        map (\<lambda>(i, st). ''| '' @ string_of_nat (i + 1) @ '' | '' @ ws_action st @ '' | '' @
                        dash_if_none (ws_target st) @ '' | '' @ dash_if_none (ws_expect st) @ '' |'')
            (enumerate 0 (wf_steps wr)) @
        [[]]
      else []) @
     (if truthy (wf_error wr) then [''> **Error:** '' @ the (wf_error wr), []] else [])"

definition workflow_lines :: "run_state \<Rightarrow> string list" where
  "workflow_lines s =
     (if workflowResults s \<noteq> [] then
        [''## Workflow Test Results'',
         [],
         ''| Metric | Count |'',
         ''|--------|-------|'',
         ''| Total Workflows | '' @ string_of_nat (length (workflowResults s)) @ '' |'',
         ''| Passed | '' @ string_of_nat (length (filter wf_passed (workflowResults s))) @ '' |'',
         ''| Failed | '' @ string_of_nat (length (filter (\<lambda>wr. \<not> wf_passed wr) (workflowResults s))) @ '' |'',
         []] @
        concat (map workflow_entry_lines (workflowResults s))
      else [])"

text \<open>\<open>order\<close> and the comparator of the sort.\<close>

fun severity_order :: "Severity \<Rightarrow> int" where
  "severity_order Critical = 0"
| "severity_order High = 1"
| "severity_order Medium = 2"
| "severity_order Low = 3"

definition by_severity :: "BugEntry \<Rightarrow> BugEntry \<Rightarrow> int" where
  "by_severity a b = severity_order (severity a) - severity_order (severity b)"

definition render_bug :: "BugEntry \<Rightarrow> string list" where
  "render_bug bug =
     [''### '' @ bug_id bug @ '': '' @ title bug,
      [],
      ''| Field | Value |'',
      ''|-------|-------|'',
      ''| Severity | **'' @ severity_str (severity bug) @ ''** |'',
      ''| Category | '' @ category_str (category bug) @ '' |'',
      ''| Description | '' @ description bug @ '' |'',
      [],
      ''**Steps to reproduce:**''] @
     numbered (steps bug) @
     [[]] @
     (case details bug of
        None \<Rightarrow> []
      | Some ds \<Rightarrow> if ds \<noteq> [] then [''**Details:**''] @ map (\<lambda>d. ''- '' @ d) ds @ [[]] else []) @
     [''**Evidence:**''] @
     map (\<lambda>e. ''- !['' @ bug_id bug @ '']('' @ e @ '')'') (evidence bug) @
     [[], ''---'', []]"

text \<open>\<open>[...bugs].sort((a, b) => order[a.severity] - order[b.severity])\<close>: a new array,
  sorted in place; the address of the sorted array and the store after it.\<close>

definition sorted_copy :: "run_state \<Rightarrow> addr \<times> run_state" where
  "sorted_copy s = (let (copy, s1) = array_spread bugs_ref s in array_sort by_severity copy s1)"

definition bug_entries :: "run_state \<Rightarrow> string list \<times> run_state" where
  "bug_entries s =
     (if bugs s = [] then ([''No issues detected in this pass.''], s)
      else (let (sorted, s1) = sorted_copy s
            in (concat (map render_bug (heap s1 sorted)), s1)))"

text \<open>The lines \<open>L\<close> of \<open>writeReport\<close>. The header is written before the summary is
  awaited, the other sections after it.\<close>

definition report_lines ::
  "world \<Rightarrow> RunContext \<Rightarrow> string \<Rightarrow> string \<Rightarrow> run_state \<Rightarrow> string list res \<times> run_state" where
  "report_lines w ctx target scope s =
     (let (date, s1) = read_date_iso w s;
          L1 = header_lines w ctx target scope date s1
      in case (if LLM_ENABLED w then
                 (case generateLLMReportSummary w target scope
                         (log ''Generating AI executive summary...'' s1) of
                    (Threw m, s2) \<Rightarrow> (Threw m, s2)
                  | (Returned llmSummary, s2) \<Rightarrow>
                      (Returned (if llmSummary \<noteq> []
                                 then [''## AI Executive Summary'', [], llmSummary, []] else []), s2))
               else (Returned [], s1)) of
           (Threw m, s2) \<Rightarrow> (Threw m, s2)
         | (Returned L2, s2) \<Rightarrow>
             (let (L3, s3) = bug_entries s2
              in (Returned (L1 @ L2 @ severity_summary_lines s2 @ category_lines s2 @
                            runtime_lines s2 @ network_lines s2 @ workflow_lines s2 @
                            [''## Bug Entries'', []] @ L3), s3)))"

text \<open>\<open>writeReport\<close>: the lines joined by line feeds, written to the report path.\<close>

definition writeReport ::
  "world \<Rightarrow> RunContext \<Rightarrow> string \<Rightarrow> string \<Rightarrow> run_state \<Rightarrow> unit res \<times> run_state" where
  "writeReport w ctx target scope s =
     (case report_lines w ctx target scope s of
        (Threw m, s1) \<Rightarrow> (Threw m, s1)
      | (Returned L, s1) \<Rightarrow>
     (case fs_step w (FsMkdir (path_dirname (reportPath ctx))) s1 of
        (Threw m, s2) \<Rightarrow> (Threw m, s2)
      | (Returned u, s2) \<Rightarrow> fs_step w (FsWriteFile (reportPath ctx) (join nl L)) s2))"

text \<open>The document of a compilation, and the effects it adds to the trace.\<close>

definition report_text :: "world \<Rightarrow> RunContext \<Rightarrow> string \<Rightarrow> string \<Rightarrow> run_state \<Rightarrow> string option" where
  "report_text w ctx target scope s =
     (case fst (report_lines w ctx target scope s) of
        Returned L \<Rightarrow> Some (join nl L)
      | Threw m \<Rightarrow> None)"

definition report_effects :: "world \<Rightarrow> RunContext \<Rightarrow> string \<Rightarrow> string \<Rightarrow> run_state \<Rightarrow> effect list" where
  "report_effects w ctx target scope s =
     drop (length (trace s)) (trace (snd (writeReport w ctx target scope s)))"

fun is_browser_call :: "effect \<Rightarrow> bool" where
  "is_browser_call (Browser op) = True"
| "is_browser_call e = False"

fun is_network_call :: "effect \<Rightarrow> bool" where
  "is_network_call (OracleRequest model prompt) = True"
| "is_network_call (Browser (RequestHead href timeout)) = True"
| "is_network_call (Browser (Goto target timeout)) = True"
| "is_network_call e = False"

text \<open>What the compiler reads: the ledger, the accumulators and the workflow results.\<close>

definition snapshot ::
  "run_state \<Rightarrow> BugEntry list \<times> string list \<times> string list \<times> string list \<times> FailedRequest list \<times> WorkflowResult list" where
  "snapshot s =
     (bugs s, consoleErrors s, pageErrors s, consoleWarnings s, failedRequests s, workflowResults s)"

section \<open>Runs, and inputs for the examples\<close>

text \<open>The number a decimal text denotes.\<close>

definition nat_of_digits :: "string \<Rightarrow> nat" where
  "nat_of_digits s = foldl (\<lambda>a c. 10 * a + (of_char c - 48)) 0 s"

text \<open>The ledger in the course of a run: empty at the start; a step is a commit by
  \<open>addBug\<close>, a call of \<open>checkResponsive\<close>, or anything else, which leaves the ledger as it
  is (\<open>bugs.push\<close> occurs nowhere else in the source, and the listeners never commit).
  Every call of \<open>addBug\<close> is awaited before the next statement runs, so no two commits
  overlap.\<close>

inductive run :: "world \<Rightarrow> run_state \<Rightarrow> bool" for w :: world where
  run_start: "bugs s = [] \<Longrightarrow> run w s"
| run_other: "run w s \<Longrightarrow> bugs s' = bugs s \<Longrightarrow> run w s'"
| run_addBug: "run w s \<Longrightarrow> run w (addBug w ctx opts s)"
| run_checkResponsive: "run w s \<Longrightarrow> run w (snd (checkResponsive w ctx target s))"

definition example_ctx :: RunContext where
  "example_ctx =
     \<lparr> runId = ''run-1'', outputRoot = ''/app/output/run-1'',
       screenshotDir = ''/app/output/run-1/screenshots'',
       reportPath = ''/app/output/run-1/report.md'' \<rparr>"

text \<open>A world in which every call on the browser, the oracle and the file system fails.\<close>

definition failing_world :: world where
  "failing_world =
     \<lparr> events = (\<lambda>t. []),
       date_now = (\<lambda>t. t),
       date_iso = (\<lambda>t. ''2026-01-01T00:00:00.000Z''),
       browser_unit = (\<lambda>t op. Threw ''Target closed''),
       browser_bool = (\<lambda>t op. Threw ''Target closed''),
       browser_string = (\<lambda>t op. Threw ''Target closed''),
       browser_strings = (\<lambda>t op. Threw ''Target closed''),
       browser_meta = (\<lambda>t. Threw ''Target closed''),
       browser_status = (\<lambda>t op. Threw ''Target closed''),
       page_url = (\<lambda>t. []),
       generateContent = (\<lambda>t model prompt img. Threw ''fetch failed''),
       fs_call = (\<lambda>t e. Threw ''EACCES''),
       fs_readFile = (\<lambda>t file. Threw ''ENOENT''),
       JSON_parse = (\<lambda>txt. Threw ''SyntaxError''),
       GEMINI_API_KEY = [],
       NAV_TIMEOUT = 90000 \<rparr>"

definition title_opts :: AddBugOpts where
  "title_opts =
     \<lparr> opt_title = ''Missing page <title>'', opt_severity = Medium, opt_category = SEO,
       opt_description = ''The page has no <title> or it is empty'',
       opt_steps = [''Open target URL'', ''Inspect <head>''],
       opt_evidenceLabel = ''missing-title'', opt_details = None, opt_fullPage = None \<rparr>"

text \<open>Two actions on a selector that matches nothing.\<close>

definition hover_missing :: LLMAction where
  "hover_missing =
     \<lparr> la_action = ''hover'', la_selector = Some ''#no-such-element'', la_text = None,
       la_value = None, la_url = None, la_key = None, la_reasoning = ''probe'' \<rparr>"

definition click_missing :: LLMAction where
  "click_missing =
     \<lparr> la_action = ''click'', la_selector = Some ''#no-such-element'', la_text = None,
       la_value = None, la_url = None, la_key = None, la_reasoning = ''probe'' \<rparr>"

text \<open>The order of the spec: the entries grouped by severity, Critical, then High, then
  Medium, then Low, each group in the order of the ledger.\<close>

definition grouped_by_severity :: "BugEntry list \<Rightarrow> BugEntry list" where
  "grouped_by_severity bs =
     filter (\<lambda>b. severity b = Critical) bs @ filter (\<lambda>b. severity b = High) bs @
     filter (\<lambda>b. severity b = Medium) bs @ filter (\<lambda>b. severity b = Low) bs"

text \<open>The state in which \<open>writeReport\<close> renders every section after the header.\<close>

definition summary_state :: "world \<Rightarrow> string \<Rightarrow> string \<Rightarrow> run_state \<Rightarrow> run_state" where
  "summary_state w target scope s =
     (if LLM_ENABLED w
      then snd (generateLLMReportSummary w target scope
                  (log ''Generating AI executive summary...'' (snd (read_date_iso w s))))
      else snd (read_date_iso w s))"

definition crash_opts :: AddBugOpts where
  "crash_opts =
     \<lparr> opt_title = ''Navigation timeout'', opt_severity = Critical, opt_category = Navigation,
       opt_description = ''Page did not load within 90s.'',
       opt_steps = [''Open target URL''],
       opt_evidenceLabel = ''nav-timeout'', opt_details = None, opt_fullPage = None \<rparr>"

text \<open>A ledger with a Medium entry found first and a Critical one found second.\<close>

definition two_bug_state :: run_state where
  "two_bug_state =
     addBug failing_world example_ctx crash_opts (addBug failing_world example_ctx title_opts init_state)"

text \<open>The two-bug ledger with one console error, one warning, one uncaught exception, one
  failed request and one failed workflow recorded.\<close>

definition busy_state :: run_state where
  "busy_state =
     two_bug_state
       \<lparr>consoleErrors := [''x is undefined (http://example.test/app.js:10)''],
        consoleWarnings := [''Deprecated API used''],
        pageErrors := [''x is undefined''],
        failedRequests :=
          [\<lparr>url = ''http://example.test/api/items'', req_method = ''GET'',
             resourceType = ''fetch'', status = Some 500, failure = None\<rparr>],
        workflowResults :=
          [\<lparr>wf_name = ''Site Page Crawl'',
             wf_steps = [\<lparr>ws_action = ''navigate'', ws_target = Some ''http://example.test/about'',
                           ws_value = None, ws_expect = None\<rparr>],
             wf_passed = False, wf_error = Some ''1 issue(s) found''\<rparr>]\<rparr>"

text \<open>A world in which every call succeeds, the page is silent, the clock stands still and
  no key is configured.\<close>

definition quiet_world :: world where
  "quiet_world =
     \<lparr> events = (\<lambda>t. []),
       date_now = (\<lambda>t. 0),
       date_iso = (\<lambda>t. ''2026-01-01T00:00:00.000Z''),
       browser_unit = (\<lambda>t op. Returned ()),
       browser_bool = (\<lambda>t op. Returned True),
       browser_string = (\<lambda>t op. Returned []),
       browser_strings = (\<lambda>t op. Returned []),
       browser_meta = (\<lambda>t. Returned
         \<lparr> meta_description = ''A page'', meta_viewport = ''width=device-width'',
           meta_ogTitle = ''A page'', meta_ogImage = ''http://example.test/og.png'',
           meta_charset = True, meta_lang = ''en'', meta_canonical = ''http://example.test/'',
           meta_favicon = True \<rparr>),
       browser_status = (\<lambda>t op. Returned 200),
       page_url = (\<lambda>t. ''http://example.test/''),
       generateContent = (\<lambda>t model prompt img. Returned ''The site is in good shape.''),
       fs_call = (\<lambda>t e. Returned ()),
       fs_readFile = (\<lambda>t file. Returned []),
       JSON_parse = (\<lambda>txt. Threw ''SyntaxError''),
       GEMINI_API_KEY = [],
       NAV_TIMEOUT = 90000 \<rparr>"

text \<open>The same world with a clock that moves after its first reading.\<close>

definition ticking_world :: world where
  "ticking_world =
     quiet_world\<lparr>date_iso :=
       (\<lambda>t. if t = 0 then ''2026-01-01T00:00:00.000Z'' else ''2026-01-01T00:00:01.000Z'')\<rparr>"

text \<open>The same world with a key configured.\<close>

definition oracle_world :: world where
  "oracle_world = quiet_world\<lparr>GEMINI_API_KEY := ''key''\<rparr>"

text \<open>The outcome of the first request for the summary: the \<open>try\<close> block of \<open>askGemini\<close>,
  called by \<open>generateLLMReportSummary\<close> from \<open>writeReport\<close>.\<close>

definition summary_attempt :: "world \<Rightarrow> string \<Rightarrow> string \<Rightarrow> string \<Rightarrow> run_state \<Rightarrow> string res" where
  "summary_attempt w model target scope s =
     (let s1 = log ''Generating AI executive summary...'' (snd (read_date_iso w s))
      in fst (askGemini_try w model (summary_prompt target scope s1) s1))"

text \<open>The same world with a key and an oracle that refuses every request as one too many.\<close>

definition rate_limited_world :: world where
  "rate_limited_world =
     oracle_world\<lparr>generateContent := (\<lambda>t model prompt img. Threw ''429 Too Many Requests'')\<rparr>"

text \<open>The summary section of the report, and the sections after it, as \<open>writeReport\<close>
  renders them.\<close>

definition summary_section :: "world \<Rightarrow> string \<Rightarrow> string \<Rightarrow> run_state \<Rightarrow> string list" where
  "summary_section w target scope s =
     (if LLM_ENABLED w then
        (case fst (generateLLMReportSummary w target scope
                     (log ''Generating AI executive summary...'' (snd (read_date_iso w s)))) of
           Returned llmSummary \<Rightarrow>
             if llmSummary \<noteq> [] then [''## AI Executive Summary'', [], llmSummary, []] else []
         | Threw m \<Rightarrow> [])
      else [])"

definition body_lines :: "run_state \<Rightarrow> string list" where
  "body_lines s =
     severity_summary_lines s @ category_lines s @ runtime_lines s @ network_lines s @
     workflow_lines s @ [''## Bug Entries'', []] @ fst (bug_entries s)"

text \<open>The trace of \<open>s'\<close> is the trace of \<open>s\<close> followed by effects that all satisfy \<open>P\<close>.\<close>

definition trace_grows :: "(effect \<Rightarrow> bool) \<Rightarrow> run_state \<Rightarrow> run_state \<Rightarrow> bool" where
  "trace_grows P s s' = (\<exists>xs. trace s' = trace s @ xs \<and> list_all P xs)"

text \<open>A page with an empty title and no meta description; the other head tags that
  \<open>checkSEO\<close> looks at are there.\<close>

definition untitled_world :: world where
  "untitled_world =
     quiet_world\<lparr>browser_string := (\<lambda>t op. Returned []),
       browser_meta := (\<lambda>t. Returned
         \<lparr> meta_description = [], meta_viewport = ''width=device-width'',
           meta_ogTitle = ''A page'', meta_ogImage = [],
           meta_charset = True, meta_lang = ''en'', meta_canonical = [],
           meta_favicon = True \<rparr>)\<rparr>"

text \<open>A page with forty distinct absolute links, \<open>http://example.test/p1\<close> to
  \<open>http://example.test/p40\<close>, in this order.\<close>

definition forty_links :: "string list" where
  "forty_links = map (\<lambda>i. ''http://example.test/p'' @ string_of_nat i) [1..<41]"

text \<open>Three of them answer 404, all the others 200: in the first world the 2nd, the 17th
  and the 35th, in the second the last three.\<close>

definition spread_404 :: "string list" where
  "spread_404 = [''http://example.test/p2'', ''http://example.test/p17'', ''http://example.test/p35'']"

definition late_404 :: "string list" where
  "late_404 = [''http://example.test/p38'', ''http://example.test/p39'', ''http://example.test/p40'']"

definition head_status :: "string list \<Rightarrow> browser_op \<Rightarrow> nat" where
  "head_status bad op =
     (case op of RequestHead href timeout \<Rightarrow> if href \<in> set bad then 404 else 200 | _ \<Rightarrow> 200)"

definition links_world :: "string list \<Rightarrow> world" where
  "links_world bad =
     quiet_world\<lparr>browser_strings := (\<lambda>t op. Returned forty_links),
                 browser_status := (\<lambda>t op. Returned (head_status bad op))\<rparr>"

text \<open>An answer of the oracle that is JSON but lacks the field \<open>reasoning\<close>:
  \<open>{"action": "done"}\<close>.\<close>

definition terse_answer :: string where
  "terse_answer = ''{'' @ dq @ ''action'' @ dq @ '': '' @ dq @ ''done'' @ dq @ ''}''"

text \<open>A world with a key whose oracle always gives that answer; \<open>JSON.parse\<close> accepts it,
  as the runtime does, and nothing else matters here.\<close>

definition terse_oracle_world :: world where
  "terse_oracle_world =
     quiet_world\<lparr>GEMINI_API_KEY := ''key'',
       generateContent := (\<lambda>t model prompt img. Returned terse_answer),
       JSON_parse := (\<lambda>txt. if txt = terse_answer
                            then Returned (JObj [(''action'', JStr ''done'')])
                            else Threw ''SyntaxError'')\<rparr>"

section \<open>The bug ledger\<close>

subsection \<open>What leaves the ledger alone, and what a commit appends\<close>

lemma heap_deliver [simp]: "heap (deliver ev s) = heap s"
  by (cases ev) (simp_all add: Let_def)

lemma heap_deliver_all [simp]: "heap (foldl (\<lambda>st ev. deliver ev st) s evs) = heap s"
  by (induction evs arbitrary: s) simp_all

lemma heap_await_step [simp]: "heap (await_step w e s) = heap s"
  by (simp add: await_step_def)

lemma heap_log [simp]: "heap (log m s) = heap s"
  by (simp add: log_def)

lemma geminiModel_log [simp]: "geminiModel (log m s) = geminiModel s"
  by (simp add: log_def)

lemma models_deliver [simp]:
  "geminiModel (deliver ev s) = geminiModel s" "geminiVisionModel (deliver ev s) = geminiVisionModel s"
  by (cases ev; simp add: Let_def)+

lemma models_deliver_all [simp]:
  "geminiModel (foldl (\<lambda>st ev. deliver ev st) s evs) = geminiModel s"
  "geminiVisionModel (foldl (\<lambda>st ev. deliver ev st) s evs) = geminiVisionModel s"
  by (induction evs arbitrary: s) simp_all

lemma models_await_step [simp]:
  "geminiModel (await_step w e s) = geminiModel s"
  "geminiVisionModel (await_step w e s) = geminiVisionModel s"
  by (simp_all add: await_step_def)

lemma models_log [simp]: "geminiVisionModel (log m s) = geminiVisionModel s"
  by (simp add: log_def)

lemma models_throttleLLM [simp]:
  "geminiModel (throttleLLM w s) = geminiModel s"
  "geminiVisionModel (throttleLLM w s) = geminiVisionModel s"
  by (simp_all add: throttleLLM_def read_clock_def Let_def)

lemma heap_read_clock [simp]: "heap (snd (read_clock w s)) = heap s"
  by (simp add: read_clock_def)

lemma heap_takeScreenshot [simp]: "heap (snd (takeScreenshot w ctx l fp s)) = heap s"
  by (simp add: takeScreenshot_def read_clock_def browser_unit_call_def Let_def split: prod.splits)

lemma bugs_array_push [simp]: "bugs (array_push bugs_ref e s) = bugs s @ [e]"
  by (simp add: bugs_def array_push_def)

lemma bugs_await_step [simp]: "bugs (await_step w e s) = bugs s"
  by (simp add: bugs_def)

lemma bugs_log [simp]: "bugs (log m s) = bugs s"
  by (simp add: bugs_def)

lemma bugs_takeScreenshot [simp]: "bugs (snd (takeScreenshot w ctx l fp s)) = bugs s"
  by (simp add: bugs_def)

lemma bugs_takeScreenshot_eq: "takeScreenshot w ctx l fp s = (shot, s1) \<Longrightarrow> bugs s1 = bugs s"
  by (metis bugs_takeScreenshot snd_conv)

lemma bugs_addBug:
  "bugs (addBug w ctx opts s) = bugs s @
     [\<lparr> bug_id = bug_id_for (length (bugs s)), title = opt_title opts, severity = opt_severity opts,
        category = opt_category opts, description = opt_description opts,
        steps = opt_steps opts,
        evidence = [fst (takeScreenshot w ctx (bug_id_for (length (bugs s)) @ ''-'' @ opt_evidenceLabel opts)
                         (case opt_fullPage opts of None \<Rightarrow> True | Some b \<Rightarrow> b) s)],
        details = opt_details opts \<rparr>]"
proof -
  obtain shot s1 where ts: "takeScreenshot w ctx (bug_id_for (length (bugs s)) @ ''-'' @ opt_evidenceLabel opts)
                         (case opt_fullPage opts of None \<Rightarrow> True | Some b \<Rightarrow> b) s = (shot, s1)"
    by (cases "takeScreenshot w ctx (bug_id_for (length (bugs s)) @ ''-'' @ opt_evidenceLabel opts)
                         (case opt_fullPage opts of None \<Rightarrow> True | Some b \<Rightarrow> b) s") 
  have "bugs s1 = bugs s"
    using ts by (rule bugs_takeScreenshot_eq)
  then show ?thesis
    using ts by (simp add: addBug_def Let_def)
qed

lemma bugs_browser_unit_call [simp]: "bugs (snd (browser_unit_call w op s)) = bugs s"
  by (simp add: browser_unit_call_def)

lemma bugs_browser_strings_call [simp]: "bugs (snd (browser_strings_call w op s)) = bugs s"
  by (simp add: browser_strings_call_def)

lemma bugs_browser_unit_call_eq: "browser_unit_call w op s = (r, s1) \<Longrightarrow> bugs s1 = bugs s"
  by (metis bugs_browser_unit_call snd_conv)

lemma bugs_browser_strings_call_eq: "browser_strings_call w op s = (r, s1) \<Longrightarrow> bugs s1 = bugs s"
  by (metis bugs_browser_strings_call snd_conv)

lemma bugs_checkResponsive_try:
  "bugs (checkResponsive_try w ctx target s) = bugs s \<or>
   (\<exists>e. bugs (checkResponsive_try w ctx target s) = bugs s @ [e] \<and>
        bug_id e = bug_id_for (length (bugs s)) \<and> length (evidence e) = 1)"
proof -
  obtain r1 s1 where c1: "browser_unit_call w (Goto target (NAV_TIMEOUT w)) s = (r1, s1)"
    by (cases "browser_unit_call w (Goto target (NAV_TIMEOUT w)) s")
  obtain r2 s2 where c2: "browser_unit_call w (WaitForTimeout 3000) s1 = (r2, s2)"
    by (cases "browser_unit_call w (WaitForTimeout 3000) s1")
  obtain r3 s3 where c3: "browser_strings_call w (Evaluate ''responsive'') s2 = (r3, s3)"
    by (cases "browser_strings_call w (Evaluate ''responsive'') s2")
  obtain shot s4 where c4: "takeScreenshot w ctx ''responsive-mobile'' True s3 = (shot, s4)"
    by (cases "takeScreenshot w ctx ''responsive-mobile'' True s3")
  have b1: "bugs s1 = bugs s" using c1 by (rule bugs_browser_unit_call_eq)
  have b2: "bugs s2 = bugs s" using bugs_browser_unit_call_eq [OF c2] b1 by simp
  have b3: "bugs s3 = bugs s" using bugs_browser_strings_call_eq [OF c3] b2 by simp
  have b4: "bugs s4 = bugs s" using bugs_takeScreenshot_eq [OF c4] b3 by simp
  show ?thesis
    using c1 c2 c3 c4 b1 b2 b3 b4
    by (cases r1; cases r2; cases r3) (simp_all add: checkResponsive_try_def Let_def)
qed

lemma bugs_checkResponsive:
  "checkResponsive w ctx target s = (r, s') \<Longrightarrow>
   bugs s' = bugs s \<or>
   (\<exists>e. bugs s' = bugs s @ [e] \<and> bug_id e = bug_id_for (length (bugs s)) \<and> length (evidence e) = 1)"
proof -
  assume a: "checkResponsive w ctx target s = (r, s')"
  obtain r1 s1 where c1: "browser_unit_call w NewPage s = (r1, s1)"
    by (cases "browser_unit_call w NewPage s")
  obtain r2 s2 where c2: "browser_unit_call w (SetViewportSize 375 812) s1 = (r2, s2)"
    by (cases "browser_unit_call w (SetViewportSize 375 812) s1")
  obtain r3 s3 where c3: "browser_unit_call w ClosePage (checkResponsive_try w ctx target s2) = (r3, s3)"
    by (cases "browser_unit_call w ClosePage (checkResponsive_try w ctx target s2)")
  have b1: "bugs s1 = bugs s" using c1 by (rule bugs_browser_unit_call_eq)
  have b2: "bugs s2 = bugs s" using bugs_browser_unit_call_eq [OF c2] b1 by simp
  have b3: "bugs s3 = bugs (checkResponsive_try w ctx target s2)"
    using c3 by (rule bugs_browser_unit_call_eq)
  have t: "bugs s3 = bugs s \<or>
   (\<exists>e. bugs s3 = bugs s @ [e] \<and> bug_id e = bug_id_for (length (bugs s)) \<and> length (evidence e) = 1)"
    using bugs_checkResponsive_try [of w ctx target s2] b2 b3 by simp
  show ?thesis
    using a c1 c2 c3 b1 b2 t
    by (cases r1; cases r2; cases r3) (auto simp: checkResponsive_def)
qed

subsection \<open>The ids of the ledger\<close>

lemma of_char_digit_char: "d < 10 \<Longrightarrow> (of_char (digit_char d) :: nat) = 48 + d"
  by (simp add: digit_char_def)

lemma nat_of_digits_snoc: "nat_of_digits (s @ [c]) = 10 * nat_of_digits s + (of_char c - 48)"
  by (simp add: nat_of_digits_def)

lemma nat_of_digits_string_of_nat: "nat_of_digits (string_of_nat n) = n"
proof (induction n rule: string_of_nat.induct)
  case (1 n)
  show ?case
  proof (cases "n < 10")
    case True
    then show ?thesis
      by (subst string_of_nat.simps) (simp add: nat_of_digits_def of_char_digit_char)
  next
    case False
    then have "nat_of_digits (string_of_nat (n div 10)) = n div 10"
      using 1 by simp
    then show ?thesis
      using False
      by (subst string_of_nat.simps) (simp add: nat_of_digits_snoc of_char_digit_char)
  qed
qed

lemma foldl_zeros:
  "foldl (\<lambda>a c. 10 * a + (of_char c - 48)) (0::nat) (replicate k (CHR ''0'')) = 0"
  by (induction k) simp_all

lemma nat_of_digits_padStart: "nat_of_digits (padStart k (CHR ''0'') s) = nat_of_digits s"
  by (simp add: nat_of_digits_def padStart_def foldl_zeros)

lemma bug_id_for_num: "nat_of_digits (drop 4 (bug_id_for n)) = n + 1"
  by (simp add: bug_id_for_def nat_of_digits_padStart nat_of_digits_string_of_nat)

lemma bug_id_for_inj: "bug_id_for m = bug_id_for n \<Longrightarrow> m = n"
  by (metis bug_id_for_num add_right_cancel)

lemma inj_bug_id_for: "inj bug_id_for"
  by (rule injI) (rule bug_id_for_inj)

lemma bugs_checkResponsive_snd:
  "bugs (snd (checkResponsive w ctx target s)) = bugs s \<or>
   (\<exists>e. bugs (snd (checkResponsive w ctx target s)) = bugs s @ [e] \<and>
        bug_id e = bug_id_for (length (bugs s)) \<and> length (evidence e) = 1)"
  using bugs_checkResponsive [of w ctx target s "fst (checkResponsive w ctx target s)" "snd (checkResponsive w ctx target s)"]
  by simp

lemma run_ids: "run w s \<Longrightarrow> map bug_id (bugs s) = map bug_id_for [0..<length (bugs s)]"
proof (induction rule: run.induct)
  case (run_start s)
  then show ?case by simp
next
  case (run_other s s')
  then show ?case by simp
next
  case (run_addBug s ctx opts)
  then show ?case by (simp add: bugs_addBug)
next
  case (run_checkResponsive s ctx target)
  from bugs_checkResponsive_snd [of w ctx target s] run_checkResponsive.IH
  show ?case by auto
qed

lemma run_evidence: "run w s \<Longrightarrow> list_all (\<lambda>b. length (evidence b) = 1) (bugs s)"
proof (induction rule: run.induct)
  case (run_start s)
  then show ?case by simp
next
  case (run_other s s')
  then show ?case by simp
next
  case (run_addBug s ctx opts)
  then show ?case by (simp add: bugs_addBug)
next
  case (run_checkResponsive s ctx target)
  from bugs_checkResponsive_snd [of w ctx target s] run_checkResponsive.IH
  show ?case by auto
qed

lemma bugs_init_state [simp]: "bugs init_state = []"
  by (simp add: init_state_def bugs_def)

lemma takeScreenshot_path:
  "fst (takeScreenshot w ctx label fullPage s) =
     backslashes_to_slashes (path_relative (outputRoot ctx)
       (path_join (screenshotDir ctx) (slug label @ ''-'' @ string_of_nat (date_now w (tick s)) @ ''.png'')))"
  by (simp add: takeScreenshot_def read_clock_def browser_unit_call_def Let_def split: prod.splits)

lemma digit_char_simps:
  "digit_char 0 = CHR ''0''" "digit_char 1 = CHR ''1''" "digit_char 2 = CHR ''2''"
  "digit_char 3 = CHR ''3''" "digit_char 4 = CHR ''4''" "digit_char 5 = CHR ''5''"
  "digit_char 6 = CHR ''6''" "digit_char 7 = CHR ''7''" "digit_char 8 = CHR ''8''"
  "digit_char 9 = CHR ''9''"
  by code_simp+

lemma first_bug_ids:
  "bug_id_for 0 = ''BUG-001''" "bug_id_for (Suc 0) = ''BUG-002''" "bug_id_for 2 = ''BUG-003''"
  by code_simp+

subsection \<open>Ids and evidence\<close>

text \<open>C1. In any run the ids of the ledger are BUG-001, BUG-002, ... in order: the entry at
  position \<open>i\<close> (from 0) has the id made from \<open>i + 1\<close>, padded with zeros to three digits, so
  the ids have no gap and no repeat; and each commit path, \<open>addBug\<close> and the direct push of
  \<open>checkResponsive\<close>, appends an entry whose id is made from the ledger's length plus one.\<close>

theorem ledger_ids_contiguous:
  assumes "run w s"
  shows "map bug_id (bugs s) = map bug_id_for [0..<length (bugs s)] \<and>
         distinct (map bug_id (bugs s)) \<and>
         (\<exists>e. bugs (addBug w ctx opts s) = bugs s @ [e] \<and> bug_id e = bug_id_for (length (bugs s))) \<and>
         (bugs (snd (checkResponsive w ctx target s)) = bugs s \<or>
          (\<exists>e. bugs (snd (checkResponsive w ctx target s)) = bugs s @ [e] \<and>
               bug_id e = bug_id_for (length (bugs s))))"
proof -
  have ids: "map bug_id (bugs s) = map bug_id_for [0..<length (bugs s)]"
    using assms by (rule run_ids)
  have "distinct (map bug_id_for [0..<length (bugs s)])"
    by (simp add: distinct_map inj_on_def bug_id_for_inj)
  then have d: "distinct (map bug_id (bugs s))"
    using ids by simp
  have a: "\<exists>e. bugs (addBug w ctx opts s) = bugs s @ [e] \<and> bug_id e = bug_id_for (length (bugs s))"
    by (simp add: bugs_addBug)
  have r: "bugs (snd (checkResponsive w ctx target s)) = bugs s \<or>
          (\<exists>e. bugs (snd (checkResponsive w ctx target s)) = bugs s @ [e] \<and>
               bug_id e = bug_id_for (length (bugs s)))"
    using bugs_checkResponsive_snd [of w ctx target s] by blast
  from ids d a r show ?thesis by blast
qed

lemma two_bugs_ids:
  "map bug_id (bugs (addBug failing_world example_ctx title_opts
                       (addBug failing_world example_ctx title_opts init_state))) =
   [''BUG-001'', ''BUG-002'']"
  by (simp add: bugs_addBug first_bug_ids)

theorem ledger_ids_contiguous_witness:
  "run failing_world (addBug failing_world example_ctx title_opts
                        (addBug failing_world example_ctx title_opts init_state)) \<and>
   map bug_id (bugs (addBug failing_world example_ctx title_opts
                       (addBug failing_world example_ctx title_opts init_state))) =
     [''BUG-001'', ''BUG-002''] \<and>
   distinct (map bug_id (bugs (addBug failing_world example_ctx title_opts
                       (addBug failing_world example_ctx title_opts init_state))))"
proof -
  have r: "run failing_world (addBug failing_world example_ctx title_opts
                        (addBug failing_world example_ctx title_opts init_state))"
    by (intro run_addBug run_start) simp
  have d: "distinct (map bug_id (bugs (addBug failing_world example_ctx title_opts
                       (addBug failing_world example_ctx title_opts init_state))))"
    by (rule conjunct1 [OF conjunct2 [OF ledger_ids_contiguous [OF r, of example_ctx title_opts "[]"]]])
  from r two_bugs_ids d show ?thesis by (intro conjI)
qed

text \<open>C2. In any run every entry of the ledger has exactly one evidence path. \<open>addBug\<close>
  appends one entry whose evidence is the one path \<open>takeScreenshot\<close> returned, and that path
  does not depend on how the screenshot call ended: replacing the browser's answers, by
  failures for instance, leaves it the same.\<close>

theorem evidence_never_empty:
  assumes "run w s"
  shows "list_all (\<lambda>b. length (evidence b) = 1) (bugs s) \<and>
         (\<exists>e. bugs (addBug w ctx opts s) = bugs s @ [e] \<and>
              evidence e =
                [fst (takeScreenshot w ctx (bug_id_for (length (bugs s)) @ ''-'' @ opt_evidenceLabel opts)
                        (case opt_fullPage opts of None \<Rightarrow> True | Some b \<Rightarrow> b) s)]) \<and>
         fst (takeScreenshot (w\<lparr>browser_unit := outcome\<rparr>) ctx label fullPage s) =
           fst (takeScreenshot w ctx label fullPage s)"
proof -
  have a: "list_all (\<lambda>b. length (evidence b) = 1) (bugs s)"
    using assms by (rule run_evidence)
  have b: "\<exists>e. bugs (addBug w ctx opts s) = bugs s @ [e] \<and>
              evidence e =
                [fst (takeScreenshot w ctx (bug_id_for (length (bugs s)) @ ''-'' @ opt_evidenceLabel opts)
                        (case opt_fullPage opts of None \<Rightarrow> True | Some b \<Rightarrow> b) s)]"
    by (simp add: bugs_addBug)
  have c: "fst (takeScreenshot (w\<lparr>browser_unit := outcome\<rparr>) ctx label fullPage s) =
           fst (takeScreenshot w ctx label fullPage s)"
    by (simp add: takeScreenshot_path)
  from a b c show ?thesis by (intro conjI)
qed

lemma first_evidence_path:
  "backslashes_to_slashes (path_relative (outputRoot example_ctx)
     (path_join (screenshotDir example_ctx)
        (slug ''BUG-001-missing-title'' @ ''-'' @ string_of_nat 0 @ ''.png''))) =
   ''screenshots/bug-001-missing-title-0.png''"
  by code_simp

lemma failed_capture_path:
  "fst (takeScreenshot failing_world example_ctx (''BUG-001'' @ ''-'' @ opt_evidenceLabel title_opts)
          (case opt_fullPage title_opts of None \<Rightarrow> True | Some b \<Rightarrow> b) init_state) =
   ''screenshots/bug-001-missing-title-0.png''"
  using first_evidence_path
  by (simp add: takeScreenshot_path title_opts_def failing_world_def init_state_def)

lemma failed_capture_evidence:
  "map evidence (bugs (addBug failing_world example_ctx title_opts init_state)) =
     [[''screenshots/bug-001-missing-title-0.png'']]"
  using failed_capture_path by (simp add: bugs_addBug first_bug_ids)

theorem evidence_never_empty_witness:
  "run failing_world (addBug failing_world example_ctx title_opts init_state) \<and>
   browser_unit failing_world 1 (Screenshot ''/app/output/run-1/screenshots/bug-001-missing-title-0.png'' True)
     = Threw ''Target closed'' \<and>
   map evidence (bugs (addBug failing_world example_ctx title_opts init_state)) =
     [[''screenshots/bug-001-missing-title-0.png'']] \<and>
   list_all (\<lambda>b. length (evidence b) = 1) (bugs (addBug failing_world example_ctx title_opts init_state))"
proof -
  have r: "run failing_world (addBug failing_world example_ctx title_opts init_state)"
    by (intro run_addBug run_start) simp
  have f: "browser_unit failing_world 1 (Screenshot ''/app/output/run-1/screenshots/bug-001-missing-title-0.png'' True)
     = Threw ''Target closed''"
    by (simp add: failing_world_def)
  have l: "list_all (\<lambda>b. length (evidence b) = 1) (bugs (addBug failing_world example_ctx title_opts init_state))"
    by (rule conjunct1 [OF evidence_never_empty [OF r, of example_ctx title_opts "\<lambda>t op. Returned ()" "[]" True]])
  from r f failed_capture_evidence l show ?thesis by (intro conjI)
qed

section \<open>The action executor\<close>

lemma executeLLMAction_total:
  "\<exists>r s'. executeLLMAction w ctx action baseUrl s = (Returned r, s')"
  by (cases "executeLLMAction_try w action (length (pageErrors s)) s";
      cases "fst (executeLLMAction_try w action (length (pageErrors s)) s)")
     (simp_all add: executeLLMAction_def)

lemma executeLLMAction_caught:
  "executeLLMAction_try w action (length (pageErrors s)) s = (Threw msg, s1) \<Longrightarrow>
   executeLLMAction w ctx action baseUrl s =
     (Returned \<lparr>ex_description = ''Action failed: '' @ take 100 msg, ex_error = True,
                ex_jsErrors = js_errors_since (length (pageErrors s)) s1\<rparr>, s1)"
  by (simp add: executeLLMAction_def)

lemma click_not_visible:
  assumes "la_action action = ''click''" "\<not> truthy (la_text action)"
    "la_selector action = Some sel" "sel \<noteq> []"
    "browser_bool w (tick s) (IsVisible (BySelector sel)) \<noteq> Returned True"
  shows "fst (executeLLMAction w ctx action baseUrl s) =
     Returned \<lparr>ex_description = ''Element '' @ dq @ sel @ dq @ '' not visible'',
               ex_error = True, ex_jsErrors = 0\<rparr>"
proof -
  have v: "\<not> (case browser_bool w (tick s) (IsVisible (BySelector sel)) of Returned b \<Rightarrow> b | Threw m \<Rightarrow> False)"
    using assms(5) by (cases "browser_bool w (tick s) (IsVisible (BySelector sel))") auto
  have q: "quoted_target action = dq @ sel @ dq"
    using assms by (simp add: quoted_target_def or_else_def tmpl_def)
  have "fst (executeLLMAction_try w action (length (pageErrors s)) s) =
     Returned \<lparr>ex_description = ''Element '' @ dq @ sel @ dq @ '' not visible'',
               ex_error = True, ex_jsErrors = 0\<rparr>"
    using assms(1-4) v q
    by (simp add: executeLLMAction_try_def truthy_def browser_bool_call_def)
  then show ?thesis
    by (cases "executeLLMAction_try w action (length (pageErrors s)) s") (simp add: executeLLMAction_def)
qed

lemma safeAction_total: "\<exists>v s'. safeAction fn fallback s = (Returned v, s')"
  by (cases "fn s"; cases "fst (fn s)") (simp_all add: safeAction_def)

text \<open>C3. For every action and every target, \<open>executeLLMAction\<close> returns a result record:
  whatever its \<open>try\<close> block throws is turned into the outcome \<open>Action failed: ...\<close> with the
  error flag set, and a click on a selector that is not visible (no element matches it, or
  the visibility check itself fails) gives the outcome \<open>... not visible\<close>. \<open>safeAction\<close>
  returns the action's value or the fallback.\<close>

theorem action_executor_never_throws:
  "(\<exists>r s'. executeLLMAction w ctx action baseUrl s = (Returned r, s')) \<and>
   (\<forall>msg s1. executeLLMAction_try w action (length (pageErrors s)) s = (Threw msg, s1) \<longrightarrow>
      executeLLMAction w ctx action baseUrl s =
        (Returned \<lparr>ex_description = ''Action failed: '' @ take 100 msg, ex_error = True,
                   ex_jsErrors = js_errors_since (length (pageErrors s)) s1\<rparr>, s1)) \<and>
   (la_action action = ''click'' \<and> \<not> truthy (la_text action) \<and> la_selector action = Some sel \<and>
    sel \<noteq> [] \<and> browser_bool w (tick s) (IsVisible (BySelector sel)) \<noteq> Returned True \<longrightarrow>
      fst (executeLLMAction w ctx action baseUrl s) =
        Returned \<lparr>ex_description = ''Element '' @ dq @ sel @ dq @ '' not visible'',
                  ex_error = True, ex_jsErrors = 0\<rparr>) \<and>
   (\<exists>v s'. safeAction fn fallback s = (Returned v, s'))"
  using executeLLMAction_total [of w ctx action baseUrl s] executeLLMAction_caught [of w action s]
    click_not_visible [of action sel w s ctx baseUrl] safeAction_total [of fn fallback s]
  by blast

lemma hover_missing_throws:
  "executeLLMAction_try failing_world hover_missing (length (pageErrors init_state)) init_state =
     (Threw ''Target closed'',
      await_step failing_world (Browser (Hover (BySelector ''#no-such-element'') 3000)) init_state)"
  by (simp add: executeLLMAction_try_def hover_missing_def truthy_def browser_unit_call_def
        failing_world_def init_state_def)

theorem action_executor_never_throws_witness:
  "executeLLMAction_try failing_world hover_missing (length (pageErrors init_state)) init_state =
     (Threw ''Target closed'',
      await_step failing_world (Browser (Hover (BySelector ''#no-such-element'') 3000)) init_state) \<and>
   fst (executeLLMAction failing_world example_ctx hover_missing [] init_state) =
     Returned \<lparr>ex_description = ''Action failed: Target closed'', ex_error = True, ex_jsErrors = 0\<rparr> \<and>
   browser_bool failing_world (tick init_state) (IsVisible (BySelector ''#no-such-element'')) \<noteq> Returned True \<and>
   fst (executeLLMAction failing_world example_ctx click_missing [] init_state) =
     Returned \<lparr>ex_description = ''Element '' @ dq @ ''#no-such-element'' @ dq @ '' not visible'',
               ex_error = True, ex_jsErrors = 0\<rparr>"
proof -
  note t = action_executor_never_throws [of failing_world example_ctx hover_missing "[]" init_state
      "''x''" "\<lambda>s. (Threw ''x'', s)" "()"]
  note u = action_executor_never_throws [of failing_world example_ctx click_missing "[]" init_state
      "''#no-such-element''" "\<lambda>s. (Threw ''x'', s)" "()"]
  have j: "js_errors_since (length (pageErrors init_state))
             (await_step failing_world (Browser (Hover (BySelector ''#no-such-element'') 3000)) init_state) = 0"
    by (simp add: js_errors_since_def await_step_def failing_world_def init_state_def)
  have a: "fst (executeLLMAction failing_world example_ctx hover_missing [] init_state) =
     Returned \<lparr>ex_description = ''Action failed: Target closed'', ex_error = True, ex_jsErrors = 0\<rparr>"
    using conjunct1 [OF conjunct2 [OF t]] hover_missing_throws j by simp
  have v: "browser_bool failing_world (tick init_state) (IsVisible (BySelector ''#no-such-element'')) \<noteq> Returned True"
    by (simp add: failing_world_def)
  have c: "la_action click_missing = ''click'' \<and> \<not> truthy (la_text click_missing) \<and>
           la_selector click_missing = Some ''#no-such-element'' \<and> ''#no-such-element'' \<noteq> []"
    by (simp add: click_missing_def truthy_def)
  have b: "fst (executeLLMAction failing_world example_ctx click_missing [] init_state) =
     Returned \<lparr>ex_description = ''Element '' @ dq @ ''#no-such-element'' @ dq @ '' not visible'',
               ex_error = True, ex_jsErrors = 0\<rparr>"
    using conjunct1 [OF conjunct2 [OF conjunct2 [OF u]]] c v by blast
  from hover_missing_throws a v b show ?thesis by (intro conjI)
qed

section \<open>The report compiler\<close>

subsection \<open>The store across the oracle calls\<close>

lemma next_addr_deliver [simp]: "next_addr (deliver ev s) = next_addr s"
  by (cases ev) (simp_all add: Let_def)

lemma next_addr_deliver_all [simp]: "next_addr (foldl (\<lambda>st ev. deliver ev st) s evs) = next_addr s"
  by (induction evs arbitrary: s) simp_all

lemma next_addr_await_step [simp]: "next_addr (await_step w e s) = next_addr s"
  by (simp add: await_step_def)

lemma next_addr_log [simp]: "next_addr (log m s) = next_addr s"
  by (simp add: log_def)

lemma store_throttleLLM [simp]:
  "heap (throttleLLM w s) = heap s" "next_addr (throttleLLM w s) = next_addr s"
  by (simp_all add: throttleLLM_def read_clock_def Let_def)

lemma store_generate [simp]:
  "heap (snd (generate w model prompt img s)) = heap s"
  "next_addr (snd (generate w model prompt img s)) = next_addr s"
  by (simp_all add: generate_def)

lemma store_askGemini [simp]:
  "heap (snd (askGemini w prompt s)) = heap s"
  "next_addr (snd (askGemini w prompt s)) = next_addr s"
  by (simp_all add: askGemini_def askGemini_try_def generate_def
        split: option.splits prod.splits res.splits)

lemma store_generateLLMReportSummary [simp]:
  "heap (snd (generateLLMReportSummary w target scope s)) = heap s"
  "next_addr (snd (generateLLMReportSummary w target scope s)) = next_addr s"
  by (simp_all add: generateLLMReportSummary_def)

lemma askGemini_total: "\<exists>t. fst (askGemini w prompt s) = Returned t"
  by (simp add: askGemini_def split: option.splits prod.splits res.splits)

lemma generateLLMReportSummary_total: "\<exists>t. fst (generateLLMReportSummary w target scope s) = Returned t"
  using askGemini_total by (simp add: generateLLMReportSummary_def)

subsection \<open>The sort\<close>

lemma insert_by_severity:
  "insert_by by_severity x ys = insort_key (\<lambda>b. severity_order (severity b)) x ys"
  by (induction ys) (simp_all add: by_severity_def)

lemma sort_by_severity: "sort_by by_severity xs = sort_key (\<lambda>b. severity_order (severity b)) xs"
  by (induction xs) (simp_all add: sort_by_def insert_by_severity)

lemma mset_grouped: "mset (grouped_by_severity bs) = mset bs"
proof (induction bs)
  case Nil
  show ?case by (simp add: grouped_by_severity_def)
next
  case (Cons b bs)
  then show ?case
    by (cases "severity b") (simp_all add: grouped_by_severity_def)
qed

lemma sorted_one_severity:
  "sorted (map (\<lambda>b. severity_order (severity b)) (filter (\<lambda>b. severity b = sv) bs))"
  by (induction bs) auto

lemma sorted_grouped: "sorted (map (\<lambda>b. severity_order (severity b)) (grouped_by_severity bs))"
  by (auto simp: grouped_by_severity_def sorted_append sorted_one_severity)

lemma filter_grouped:
  "filter (\<lambda>b. severity b = sv) (grouped_by_severity bs) = filter (\<lambda>b. severity b = sv) bs"
  by (cases sv) (simp_all add: grouped_by_severity_def)

lemma severity_order_inj: "severity_order a = severity_order b \<longleftrightarrow> a = b"
  by (cases a; cases b) simp_all

lemma sort_is_grouped: "sort_key (\<lambda>b. severity_order (severity b)) bs = grouped_by_severity bs"
proof (rule properties_for_sort_key)
  show "mset (grouped_by_severity bs) = mset bs" by (rule mset_grouped)
next
  fix k :: BugEntry
  have "(\<lambda>x :: BugEntry. severity_order (severity k) = severity_order (severity x)) = (\<lambda>x. severity x = severity k)"
    by (auto simp: severity_order_inj)
  then show "filter (\<lambda>x. severity_order (severity k) = severity_order (severity x)) (grouped_by_severity bs) =
        filter (\<lambda>x. severity_order (severity k) = severity_order (severity x)) bs"
    by (simp add: filter_grouped)
next
  show "sorted (map (\<lambda>b. severity_order (severity b)) (grouped_by_severity bs))"
    by (rule sorted_grouped)
qed

subsection \<open>The bug section of the report\<close>

lemma sorted_copy_addr: "fst (sorted_copy s) = next_addr s"
  by (simp add: sorted_copy_def array_spread_def array_sort_def)

lemma sorted_copy_list:
  "heap (snd (sorted_copy s)) (fst (sorted_copy s)) = grouped_by_severity (bugs s)"
  by (simp add: sorted_copy_def array_spread_def array_sort_def bugs_def
        sort_by_severity sort_is_grouped)

lemma sorted_copy_frame:
  "a \<noteq> next_addr s \<Longrightarrow> heap (snd (sorted_copy s)) a = heap s a"
  by (simp add: sorted_copy_def array_spread_def array_sort_def)

lemma fst_bug_entries:
  "fst (bug_entries s) =
     (if bugs s = [] then [''No issues detected in this pass.'']
      else concat (map render_bug (grouped_by_severity (bugs s))))"
  using sorted_copy_list [of s]
  by (cases "sorted_copy s") (simp add: bug_entries_def)

lemma bugs_bug_entries:
  "bugs_ref < next_addr s \<Longrightarrow> bugs (snd (bug_entries s)) = bugs s"
  using sorted_copy_frame [of bugs_ref s]
  by (cases "sorted_copy s") (simp add: bug_entries_def bugs_def)

lemma store_read_date_iso [simp]:
  "heap (snd (read_date_iso w s)) = heap s" "next_addr (snd (read_date_iso w s)) = next_addr s"
  by (simp_all add: read_date_iso_def)

lemma store_summary_state [simp]:
  "heap (summary_state w target scope s) = heap s"
  "next_addr (summary_state w target scope s) = next_addr s"
  by (simp_all add: summary_state_def)

lemma bugs_summary_state [simp]: "bugs (summary_state w target scope s) = bugs s"
  by (simp add: bugs_def)

lemma report_lines_shape:
  "\<exists>L2. report_lines w ctx target scope s =
     (Returned (header_lines w ctx target scope (date_iso w (tick s)) s @ L2 @
                severity_summary_lines (summary_state w target scope s) @
                category_lines (summary_state w target scope s) @
                runtime_lines (summary_state w target scope s) @
                network_lines (summary_state w target scope s) @
                workflow_lines (summary_state w target scope s) @
                [''## Bug Entries'', []] @
                fst (bug_entries (summary_state w target scope s))),
      snd (bug_entries (summary_state w target scope s)))"
proof (cases "LLM_ENABLED w")
  case False
  have h: "header_lines w ctx target scope (date_iso w (tick s)) (s\<lparr>tick := Suc (tick s)\<rparr>) =
           header_lines w ctx target scope (date_iso w (tick s)) s"
    by (simp add: header_lines_def bugs_def)
  show ?thesis
    using False h
    by (simp add: report_lines_def summary_state_def read_date_iso_def Let_def split: prod.splits)
next
  case True
  obtain t where t: "fst (generateLLMReportSummary w target scope
                  (log ''Generating AI executive summary...'' (snd (read_date_iso w s)))) = Returned t"
    using generateLLMReportSummary_total by blast
  have h: "header_lines w ctx target scope (date_iso w (tick s)) (s\<lparr>tick := Suc (tick s)\<rparr>) =
           header_lines w ctx target scope (date_iso w (tick s)) s"
    by (simp add: header_lines_def bugs_def)
  show ?thesis
    using True t h
    by (cases "generateLLMReportSummary w target scope
                  (log ''Generating AI executive summary...'' (snd (read_date_iso w s)))")
       (simp add: report_lines_def summary_state_def read_date_iso_def Let_def split: prod.splits)
qed

subsection \<open>What the lines of the bug section show\<close>

lemma string_of_nat_starts_with_digit:
  "\<exists>d cs. d < 10 \<and> string_of_nat n = digit_char d # cs"
proof (induction n rule: string_of_nat.induct)
  case (1 n)
  show ?case
  proof (cases "n < 10")
    case True
    then show ?thesis
      by (subst string_of_nat.simps) auto
  next
    case False
    then obtain d cs where "d < 10" "string_of_nat (n div 10) = digit_char d # cs"
      using 1 by blast
    then show ?thesis
      using False by (subst string_of_nat.simps) auto
  qed
qed

lemma digit_char_not_mark:
  assumes "d < 10"
  shows "digit_char d \<noteq> CHR ''#''" "digit_char d \<noteq> CHR ''|''"
proof -
  have "(of_char (digit_char d) :: nat) = 48 + d"
    using assms by (rule of_char_digit_char)
  moreover have "(of_char (CHR ''#'') :: nat) = 35" "(of_char (CHR ''|'') :: nat) = 124"
    by simp_all
  ultimately show "digit_char d \<noteq> CHR ''#''" "digit_char d \<noteq> CHR ''|''"
    using assms by auto
qed

lemma numbered_lines_not_marked:
  assumes "c = CHR ''#'' \<or> c = CHR ''|''"
  shows "filter (prefix (c # p)) (numbered ss) = []"
proof -
  have "\<And>i h. \<not> prefix (c # p) (string_of_nat (i + 1) @ ''. '' @ h)"
  proof -
    fix i :: nat and h :: string
    obtain d cs where d: "d < 10" "string_of_nat (i + 1) = digit_char d # cs"
      using string_of_nat_starts_with_digit by blast
    have "digit_char d \<noteq> c"
      using assms digit_char_not_mark [OF d(1)] by auto
    then show "\<not> prefix (c # p) (string_of_nat (i + 1) @ ''. '' @ h)"
      using d(2) by simp
  qed
  then show ?thesis
    by (auto simp: numbered_def filter_empty_conv)
qed

lemma render_bug_heading:
  "filter (prefix ''### '') (render_bug b) = [''### '' @ bug_id b @ '': '' @ title b]"
  by (auto simp: render_bug_def numbered_lines_not_marked filter_empty_conv split: option.splits)

lemma render_bug_severity_line:
  "filter (prefix ''| Severity | **'') (render_bug b) =
     [''| Severity | **'' @ severity_str (severity b) @ ''** |'']"
  by (auto simp: render_bug_def numbered_lines_not_marked filter_empty_conv split: option.splits)

lemma section_headings:
  "filter (prefix ''### '') (concat (map render_bug bs)) =
     map (\<lambda>b. ''### '' @ bug_id b @ '': '' @ title b) bs"
  by (induction bs) (simp_all add: render_bug_heading)

lemma section_severity_lines:
  "filter (prefix ''| Severity | **'') (concat (map render_bug bs)) =
     map (\<lambda>b. ''| Severity | **'' @ severity_str (severity b) @ ''** |'') bs"
  by (induction bs) (simp_all add: render_bug_severity_line)

lemma grouped_by_severity_Nil [simp]: "grouped_by_severity [] = []"
  by (simp add: grouped_by_severity_def)

text \<open>C4. Whatever the ledger holds and in whatever order, the compiled report ends with
  the heading of the bug section followed by the entries grouped by severity: the Critical
  ones, then the High, the Medium and the Low ones (or the line saying that there is no
  issue when the ledger is empty). Each entry shows: the headings of the section are the
  ids and titles of the entries in that order, and its severity lines are their severities
  in that order.\<close>

theorem bug_section_in_severity_order:
  "\<exists>L pre sec. fst (report_lines w ctx target scope s) = Returned L \<and>
     L = pre @ [''## Bug Entries'', []] @ sec \<and>
     sec = (if bugs s = [] then [''No issues detected in this pass.'']
            else concat (map render_bug (grouped_by_severity (bugs s)))) \<and>
     filter (prefix ''### '') sec =
       map (\<lambda>b. ''### '' @ bug_id b @ '': '' @ title b) (grouped_by_severity (bugs s)) \<and>
     filter (prefix ''| Severity | **'') sec =
       map (\<lambda>b. ''| Severity | **'' @ severity_str (severity b) @ ''** |'')
         (grouped_by_severity (bugs s))"
proof -
  let ?sec = "if bugs s = [] then [''No issues detected in this pass.'']
              else concat (map render_bug (grouped_by_severity (bugs s)))"
  obtain L2 where "report_lines w ctx target scope s =
     (Returned (header_lines w ctx target scope (date_iso w (tick s)) s @ L2 @
                severity_summary_lines (summary_state w target scope s) @
                category_lines (summary_state w target scope s) @
                runtime_lines (summary_state w target scope s) @
                network_lines (summary_state w target scope s) @
                workflow_lines (summary_state w target scope s) @
                [''## Bug Entries'', []] @
                fst (bug_entries (summary_state w target scope s))),
      snd (bug_entries (summary_state w target scope s)))"
    using report_lines_shape by blast
  then have a: "fst (report_lines w ctx target scope s) =
     Returned ((header_lines w ctx target scope (date_iso w (tick s)) s @ L2 @
                severity_summary_lines (summary_state w target scope s) @
                category_lines (summary_state w target scope s) @
                runtime_lines (summary_state w target scope s) @
                network_lines (summary_state w target scope s) @
                workflow_lines (summary_state w target scope s)) @
                [''## Bug Entries'', []] @ ?sec)"
    by (simp add: fst_bug_entries)
  have h: "filter (prefix ''### '') ?sec =
       map (\<lambda>b. ''### '' @ bug_id b @ '': '' @ title b) (grouped_by_severity (bugs s))"
    by (simp add: section_headings)
  have v: "filter (prefix ''| Severity | **'') ?sec =
       map (\<lambda>b. ''| Severity | **'' @ severity_str (severity b) @ ''** |'')
         (grouped_by_severity (bugs s))"
    by (simp add: section_severity_lines)
  from a h v show ?thesis by blast
qed

lemma two_bug_state_grouped:
  "map (\<lambda>b. (bug_id b, title b, severity b)) (grouped_by_severity (bugs two_bug_state)) =
     [(''BUG-002'', ''Navigation timeout'', Critical), (''BUG-001'', ''Missing page <title>'', Medium)]"
  by (simp add: grouped_by_severity_def two_bug_state_def bugs_addBug title_opts_def crash_opts_def
        first_bug_ids)

theorem bug_section_in_severity_order_witness:
  "map (\<lambda>b. (bug_id b, severity b)) (bugs two_bug_state) =
     [(''BUG-001'', Medium), (''BUG-002'', Critical)] \<and>
   (\<exists>L pre sec.
      fst (report_lines failing_world example_ctx ''http://example.test/'' ''Full QA scan'' two_bug_state)
        = Returned L \<and>
      L = pre @ [''## Bug Entries'', []] @ sec \<and>
      filter (prefix ''### '') sec =
        [''### BUG-002: Navigation timeout'', ''### BUG-001: Missing page <title>''] \<and>
      filter (prefix ''| Severity | **'') sec =
        [''| Severity | **Critical** |'', ''| Severity | **Medium** |''])"
proof -
  have l: "map (\<lambda>b. (bug_id b, severity b)) (bugs two_bug_state) =
     [(''BUG-001'', Medium), (''BUG-002'', Critical)]"
    by (simp add: two_bug_state_def bugs_addBug title_opts_def crash_opts_def first_bug_ids)
  obtain g1 g2 where g: "grouped_by_severity (bugs two_bug_state) = [g1, g2]"
      "bug_id g1 = ''BUG-002''" "title g1 = ''Navigation timeout''" "severity g1 = Critical"
      "bug_id g2 = ''BUG-001''" "title g2 = ''Missing page <title>''" "severity g2 = Medium"
    using two_bug_state_grouped by auto
  obtain L pre sec where r:
      "fst (report_lines failing_world example_ctx ''http://example.test/'' ''Full QA scan'' two_bug_state)
        = Returned L"
      "L = pre @ [''## Bug Entries'', []] @ sec"
      "filter (prefix ''### '') sec =
         map (\<lambda>b. ''### '' @ bug_id b @ '': '' @ title b) (grouped_by_severity (bugs two_bug_state))"
      "filter (prefix ''| Severity | **'') sec =
         map (\<lambda>b. ''| Severity | **'' @ severity_str (severity b) @ ''** |'')
           (grouped_by_severity (bugs two_bug_state))"
    using bug_section_in_severity_order [of failing_world example_ctx "''http://example.test/''"
        "''Full QA scan''" two_bug_state]
    by blast
  have h: "filter (prefix ''### '') sec =
        [''### BUG-002: Navigation timeout'', ''### BUG-001: Missing page <title>'']"
    using r(3) by (simp add: g)
  have v: "filter (prefix ''| Severity | **'') sec =
        [''| Severity | **Critical** |'', ''| Severity | **Medium** |'']"
    using r(4) by (simp add: g)
  from l r(1,2) h v show ?thesis by blast
qed

lemma store_fs_step [simp]:
  "heap (snd (fs_step w e s)) = heap s" "next_addr (snd (fs_step w e s)) = next_addr s"
  by (simp_all add: fs_step_def)

lemma bugs_writeReport:
  assumes "bugs_ref < next_addr s"
  shows "bugs (snd (writeReport w ctx target scope s)) = bugs s"
proof -
  obtain L where L: "report_lines w ctx target scope s =
      (Returned L, snd (bug_entries (summary_state w target scope s)))"
    using report_lines_shape [of w ctx target scope s] by blast
  have b: "bugs (snd (bug_entries (summary_state w target scope s))) = bugs s"
    using assms bugs_bug_entries [of "summary_state w target scope s"] by simp
  show ?thesis
    using L b
    by (simp add: writeReport_def bugs_def split: prod.splits res.splits)
       (metis store_fs_step(1) snd_conv)
qed

text \<open>C10. Compiling the report leaves the ledger as it was, the same entries in the same
  order: the sort works on a new array, at another address than the ledger's. The sort is
  stable: the entries of one severity stand in the sorted array in their ledger order.\<close>

theorem report_leaves_ledger_unchanged:
  assumes "bugs_ref < next_addr s"
  shows "bugs (snd (writeReport w ctx target scope s)) = bugs s \<and>
         fst (sorted_copy s) \<noteq> bugs_ref \<and>
         heap (snd (sorted_copy s)) bugs_ref = bugs s \<and>
         filter (\<lambda>b. severity b = sv) (heap (snd (sorted_copy s)) (fst (sorted_copy s))) =
           filter (\<lambda>b. severity b = sv) (bugs s)"
proof -
  have a: "bugs (snd (writeReport w ctx target scope s)) = bugs s"
    using assms by (rule bugs_writeReport)
  have b: "fst (sorted_copy s) \<noteq> bugs_ref"
    using assms by (simp add: sorted_copy_addr)
  have c: "heap (snd (sorted_copy s)) bugs_ref = bugs s"
    using assms sorted_copy_frame [of bugs_ref s] by (simp add: bugs_def)
  have d: "filter (\<lambda>b. severity b = sv) (heap (snd (sorted_copy s)) (fst (sorted_copy s))) =
           filter (\<lambda>b. severity b = sv) (bugs s)"
    by (simp add: sorted_copy_list filter_grouped)
  from a b c d show ?thesis by (intro conjI)
qed

lemma next_addr_takeScreenshot [simp]: "next_addr (snd (takeScreenshot w ctx l fp s)) = next_addr s"
  by (simp add: takeScreenshot_def read_clock_def browser_unit_call_def Let_def split: prod.splits)

lemma next_addr_addBug [simp]: "next_addr (addBug w ctx opts s) = next_addr s"
proof -
  obtain shot s1 where ts: "takeScreenshot w ctx (bug_id_for (length (bugs s)) @ ''-'' @ opt_evidenceLabel opts)
                         (case opt_fullPage opts of None \<Rightarrow> True | Some b \<Rightarrow> b) s = (shot, s1)"
    by (cases "takeScreenshot w ctx (bug_id_for (length (bugs s)) @ ''-'' @ opt_evidenceLabel opts)
                         (case opt_fullPage opts of None \<Rightarrow> True | Some b \<Rightarrow> b) s")
  have "next_addr s1 = next_addr s"
    by (metis next_addr_takeScreenshot snd_conv ts)
  then show ?thesis
    using ts by (simp add: addBug_def Let_def array_push_def)
qed

lemma two_bug_state_allocated: "bugs_ref < next_addr two_bug_state"
  by (simp add: two_bug_state_def init_state_def bugs_ref_def)

lemma two_bug_state_severities: "map severity (bugs two_bug_state) = [Medium, Critical]"
  by (simp add: two_bug_state_def bugs_addBug title_opts_def crash_opts_def)

theorem report_leaves_ledger_unchanged_witness:
  "bugs_ref < next_addr two_bug_state \<and>
   map severity (bugs two_bug_state) = [Medium, Critical] \<and>
   map severity (heap (snd (sorted_copy two_bug_state)) (fst (sorted_copy two_bug_state))) =
     [Critical, Medium] \<and>
   map severity (bugs (snd (writeReport failing_world example_ctx ''http://example.test/'' ''Full QA scan''
                              two_bug_state))) = [Medium, Critical]"
proof -
  note t = report_leaves_ledger_unchanged [OF two_bug_state_allocated,
      of failing_world example_ctx "''http://example.test/''" "''Full QA scan''" Medium]
  have a: "map severity (bugs (snd (writeReport failing_world example_ctx ''http://example.test/'' ''Full QA scan''
                              two_bug_state))) = [Medium, Critical]"
    using conjunct1 [OF t] two_bug_state_severities by simp
  have "heap (snd (sorted_copy two_bug_state)) (fst (sorted_copy two_bug_state)) =
        grouped_by_severity (bugs two_bug_state)"
    by (rule sorted_copy_list)
  then have b: "map severity (heap (snd (sorted_copy two_bug_state)) (fst (sorted_copy two_bug_state))) =
     [Critical, Medium]"
    by (simp add: grouped_by_severity_def two_bug_state_def bugs_addBug title_opts_def crash_opts_def)
  from two_bug_state_allocated two_bug_state_severities b a show ?thesis by (intro conjI)
qed

subsection \<open>The document as a function of the timestamp, the summary and the snapshot\<close>

lemma report_lines_eq:
  "report_lines w ctx target scope s =
     (Returned (header_lines w ctx target scope (date_iso w (tick s)) s @
                summary_section w target scope s @
                body_lines (summary_state w target scope s)),
      snd (bug_entries (summary_state w target scope s)))"
proof (cases "LLM_ENABLED w")
  case False
  have h: "header_lines w ctx target scope (date_iso w (tick s)) (s\<lparr>tick := Suc (tick s)\<rparr>) =
           header_lines w ctx target scope (date_iso w (tick s)) s"
    by (simp add: header_lines_def bugs_def)
  show ?thesis
    using False h
    by (simp add: report_lines_def summary_state_def summary_section_def body_lines_def
          read_date_iso_def Let_def split: prod.splits)
next
  case True
  obtain t where t: "fst (generateLLMReportSummary w target scope
                  (log ''Generating AI executive summary...'' (snd (read_date_iso w s)))) = Returned t"
    using generateLLMReportSummary_total by blast
  have h: "header_lines w ctx target scope (date_iso w (tick s)) (s\<lparr>tick := Suc (tick s)\<rparr>) =
           header_lines w ctx target scope (date_iso w (tick s)) s"
    by (simp add: header_lines_def bugs_def)
  show ?thesis
    using True t h
    by (cases "generateLLMReportSummary w target scope
                  (log ''Generating AI executive summary...'' (snd (read_date_iso w s)))")
       (simp add: report_lines_def summary_state_def summary_section_def body_lines_def
          read_date_iso_def Let_def split: prod.splits)
qed

lemma report_text_eq:
  "report_text w ctx target scope s =
     Some (join nl (header_lines w ctx target scope (date_iso w (tick s)) s @
                    summary_section w target scope s @
                    body_lines (summary_state w target scope s)))"
  by (simp add: report_text_def report_lines_eq)

lemma snapshot_fields:
  "snapshot s' = snapshot s \<longleftrightarrow>
     bugs s' = bugs s \<and> consoleErrors s' = consoleErrors s \<and> pageErrors s' = pageErrors s \<and>
     consoleWarnings s' = consoleWarnings s \<and> failedRequests s' = failedRequests s \<and>
     workflowResults s' = workflowResults s"
  by (auto simp: snapshot_def)

lemma severity_summary_lines_cong:
  "bugs s' = bugs s \<Longrightarrow> severity_summary_lines s' = severity_summary_lines s"
  by (simp add: severity_summary_lines_def bySev_def)

lemma category_lines_cong: "bugs s' = bugs s \<Longrightarrow> category_lines s' = category_lines s"
  by (simp add: category_lines_def Let_def)

lemma runtime_lines_cong:
  "consoleErrors s' = consoleErrors s \<Longrightarrow> pageErrors s' = pageErrors s \<Longrightarrow>
   consoleWarnings s' = consoleWarnings s \<Longrightarrow> runtime_lines s' = runtime_lines s"
  by (simp add: runtime_lines_def)

lemma network_lines_cong: "failedRequests s' = failedRequests s \<Longrightarrow> network_lines s' = network_lines s"
  by (simp add: network_lines_def)

lemma workflow_lines_cong:
  "workflowResults s' = workflowResults s \<Longrightarrow> workflow_lines s' = workflow_lines s"
  by (simp add: workflow_lines_def)

lemma bug_entries_cong: "bugs s' = bugs s \<Longrightarrow> fst (bug_entries s') = fst (bug_entries s)"
  by (simp add: fst_bug_entries)

lemma body_lines_cong:
  assumes "snapshot s' = snapshot s"
  shows "body_lines s' = body_lines s"
proof -
  from assms have f: "bugs s' = bugs s" "consoleErrors s' = consoleErrors s"
    "pageErrors s' = pageErrors s" "consoleWarnings s' = consoleWarnings s"
    "failedRequests s' = failedRequests s" "workflowResults s' = workflowResults s"
    by (simp_all add: snapshot_fields)
  show ?thesis
    unfolding body_lines_def
    by (simp only: severity_summary_lines_cong [OF f(1)] category_lines_cong [OF f(1)]
          runtime_lines_cong [OF f(2) f(3) f(4)] network_lines_cong [OF f(5)]
          workflow_lines_cong [OF f(6)] bug_entries_cong [OF f(1)])
qed

lemma header_lines_cong:
  "bugs s' = bugs s \<Longrightarrow>
   header_lines w ctx target scope d s' = header_lines w ctx target scope d s"
  by (simp add: header_lines_def)

lemma join_append:
  "xs \<noteq> [] \<Longrightarrow> ys \<noteq> [] \<Longrightarrow> join sep (xs @ ys) = join sep xs @ sep @ join sep ys"
proof (induction sep xs rule: join.induct)
  case (1 sep)
  then show ?case by simp
next
  case (2 sep x)
  then show ?case by (cases ys) simp_all
next
  case (3 sep x y zs)
  then show ?case by simp
qed

lemma join_line_inj:
  assumes "A \<noteq> []" "R \<noteq> []"
    and "join sep (A @ (p @ d1 @ q) # R) = join sep (A @ (p @ d2 @ q) # R)"
  shows "d1 = d2"
proof -
  have e: "\<And>l. join sep (A @ l # R) = join sep A @ sep @ l @ sep @ join sep R"
  proof -
    fix l
    have "join sep (A @ l # R) = join sep A @ sep @ join sep (l # R)"
      using assms(1) by (simp add: join_append)
    moreover have "join sep (l # R) = l @ sep @ join sep R"
      using assms(2) by (cases R) simp_all
    ultimately show "join sep (A @ l # R) = join sep A @ sep @ l @ sep @ join sep R"
      by simp
  qed
  from assms(3) show ?thesis
    by (simp add: e)
qed

lemma header_lines_split:
  "header_lines w ctx target scope d s =
     [''# QA Test Report'', [], ''| Field | Value |'', ''|-------|-------|'',
      ''| URL | '' @ target @ '' |'', ''| Run | '' @ runId ctx @ '' |''] @
     (''| Date | '' @ d @ '' |'') #
     [''| Browser | Chromium (Playwright, headless) |'',
      ''| AI Engine | '' @ (if LLM_ENABLED w then ''Gemini 2.5 Flash + 2.5 Flash Lite''
                          else ''Disabled (no API key)'') @ '' |'',
      ''| Scope | '' @ scope @ '' |'',
      ''| Bugs Found | **'' @ string_of_nat (length (bugs s)) @ ''** |'',
      []]"
  by (simp add: header_lines_def)

lemma summary_state_disabled:
  "\<not> LLM_ENABLED w \<Longrightarrow> summary_state w target scope s = s\<lparr>tick := Suc (tick s)\<rparr>"
  by (simp add: summary_state_def read_date_iso_def)

lemma snapshot_tick [simp]: "snapshot (s\<lparr>tick := n\<rparr>) = snapshot s"
  by (simp add: snapshot_def bugs_def)

text \<open>Without a key: the document over one snapshot, as a function of the timestamp.\<close>

lemma report_text_disabled_iff:
  assumes "\<not> LLM_ENABLED w" "snapshot s' = snapshot s"
  shows "report_text w ctx target scope s' = report_text w ctx target scope s \<longleftrightarrow>
         date_iso w (tick s') = date_iso w (tick s)"
proof -
  have b: "body_lines (summary_state w target scope s') = body_lines (summary_state w target scope s)"
    using assms by (intro body_lines_cong) (simp add: summary_state_disabled)
  have g: "bugs s' = bugs s"
    using assms(2) by (simp add: snapshot_fields)
  have z: "summary_section w target scope s' = []" "summary_section w target scope s = []"
    using assms(1) by (simp_all add: summary_section_def)
  let ?A = "[''# QA Test Report'', [], ''| Field | Value |'', ''|-------|-------|'',
      ''| URL | '' @ target @ '' |'', ''| Run | '' @ runId ctx @ '' |'']"
  let ?R = "[''| Browser | Chromium (Playwright, headless) |'',
      ''| AI Engine | '' @ (if LLM_ENABLED w then ''Gemini 2.5 Flash + 2.5 Flash Lite''
                          else ''Disabled (no API key)'') @ '' |'',
      ''| Scope | '' @ scope @ '' |'',
      ''| Bugs Found | **'' @ string_of_nat (length (bugs s)) @ ''** |'',
      []] @ body_lines (summary_state w target scope s)"
  have t: "\<And>x. snapshot x = snapshot s \<Longrightarrow> bugs x = bugs s \<Longrightarrow>
      body_lines (summary_state w target scope x) = body_lines (summary_state w target scope s) \<Longrightarrow>
      summary_section w target scope x = [] \<Longrightarrow>
      report_text w ctx target scope x =
        Some (join nl (?A @ (''| Date | '' @ date_iso w (tick x) @ '' |'') # ?R))"
    by (simp add: report_text_eq header_lines_split)
  have t1: "report_text w ctx target scope s' =
        Some (join nl (?A @ (''| Date | '' @ date_iso w (tick s') @ '' |'') # ?R))"
    using assms(2) g b z(1) by (rule t)
  have t2: "report_text w ctx target scope s =
        Some (join nl (?A @ (''| Date | '' @ date_iso w (tick s) @ '' |'') # ?R))"
    by (rule t) (simp_all add: z)
  show ?thesis
  proof
    assume "report_text w ctx target scope s' = report_text w ctx target scope s"
    then have "join nl (?A @ (''| Date | '' @ date_iso w (tick s') @ '' |'') # ?R) =
               join nl (?A @ (''| Date | '' @ date_iso w (tick s) @ '' |'') # ?R)"
      using t1 t2 by simp
    then show "date_iso w (tick s') = date_iso w (tick s)"
      by (rule join_line_inj [rotated 2]) simp_all
  next
    assume "date_iso w (tick s') = date_iso w (tick s)"
    then show "report_text w ctx target scope s' = report_text w ctx target scope s"
      using t1 t2 by simp
  qed
qed

lemma report_text_same_inputs:
  assumes "bugs s' = bugs s" "date_iso w (tick s') = date_iso w (tick s)"
    "summary_section w target scope s' = summary_section w target scope s"
    "snapshot (summary_state w target scope s') = snapshot (summary_state w target scope s)"
  shows "report_text w ctx target scope s' = report_text w ctx target scope s"
  using assms body_lines_cong [OF assms(4)] header_lines_cong [OF assms(1)]
  by (simp add: report_text_eq)

subsection \<open>Two compilations in a row\<close>

lemma await_step_silent:
  "events w (tick s) = [] \<Longrightarrow>
   await_step w e s = s\<lparr>tick := Suc (tick s), trace := trace s @ [e]\<rparr>"
  by (simp add: await_step_def)

lemma tick_deliver [simp]: "tick (deliver ev s) = tick s"
  by (cases ev) (simp_all add: Let_def)

lemma tick_deliver_all [simp]: "tick (foldl (\<lambda>st ev. deliver ev st) s evs) = tick s"
  by (induction evs arbitrary: s) simp_all

lemma tick_await_step [simp]: "tick (await_step w e s) = Suc (tick s)"
  by (simp add: await_step_def)

lemma tick_bug_entries [simp]: "tick (snd (bug_entries s)) = tick s"
  by (simp add: bug_entries_def sorted_copy_def array_spread_def array_sort_def)

lemma snapshot_bug_entries:
  "bugs_ref < next_addr s \<Longrightarrow> snapshot (snd (bug_entries s)) = snapshot s"
  using bugs_bug_entries [of s]
  by (simp add: snapshot_def bug_entries_def sorted_copy_def array_spread_def array_sort_def)

lemma writeReport_disabled:
  assumes "\<not> LLM_ENABLED w"
  shows "snd (writeReport w ctx target scope s) =
     (let s1 = snd (bug_entries (s\<lparr>tick := Suc (tick s)\<rparr>));
          s2 = await_step w (FsMkdir (path_dirname (reportPath ctx))) s1
      in case fs_call w (tick s1) (FsMkdir (path_dirname (reportPath ctx))) of
           Threw m \<Rightarrow> s2
         | Returned u \<Rightarrow>
             await_step w (FsWriteFile (reportPath ctx)
               (join nl (header_lines w ctx target scope (date_iso w (tick s)) s @
                         summary_section w target scope s @
                         body_lines (s\<lparr>tick := Suc (tick s)\<rparr>)))) s2)"
  using assms
  by (simp add: writeReport_def report_lines_eq summary_state_disabled fs_step_def Let_def
        split: res.splits)

lemma tick_writeReport_disabled:
  assumes "\<not> LLM_ENABLED w"
  shows "tick s < tick (snd (writeReport w ctx target scope s))"
  using assms by (simp add: writeReport_disabled Let_def split: res.splits)

lemma snapshot_await_step_silent:
  "events w (tick s) = [] \<Longrightarrow> snapshot (await_step w e s) = snapshot s"
  by (simp add: await_step_silent snapshot_def bugs_def)

lemma snapshot_writeReport_disabled:
  assumes "\<not> LLM_ENABLED w" "\<forall>t. events w t = []" "bugs_ref < next_addr s"
  shows "snapshot (snd (writeReport w ctx target scope s)) = snapshot s"
proof -
  have "snapshot (snd (bug_entries (s\<lparr>tick := Suc (tick s)\<rparr>))) = snapshot s"
    using assms(3) snapshot_bug_entries [of "s\<lparr>tick := Suc (tick s)\<rparr>"] by simp
  then show ?thesis
    using assms(1,2)
    by (simp add: writeReport_disabled Let_def snapshot_await_step_silent split: res.splits)
qed

lemma snapshot_log [simp]: "snapshot (log m s) = snapshot s"
  by (simp add: snapshot_def log_def bugs_def)

lemma snapshot_throttleLLM_silent:
  "\<forall>t. events w t = [] \<Longrightarrow> snapshot (throttleLLM w s) = snapshot s"
  by (simp add: throttleLLM_def read_clock_def Let_def await_step_silent snapshot_def bugs_def)

lemma snapshot_generate_silent:
  "\<forall>t. events w t = [] \<Longrightarrow> snapshot (snd (generate w model prompt img s)) = snapshot s"
  by (simp add: generate_def snapshot_await_step_silent)

lemma snapshot_askGemini_silent:
  assumes "\<forall>t. events w t = []"
  shows "snapshot (snd (askGemini w prompt s)) = snapshot s"
  using assms
  by (simp add: askGemini_def askGemini_try_def generate_def snapshot_throttleLLM_silent
        snapshot_await_step_silent split: option.splits res.splits)

lemma snapshot_summary_state_silent:
  assumes "\<forall>t. events w t = []"
  shows "snapshot (summary_state w target scope s) = snapshot s"
  using assms
  by (simp add: summary_state_def generateLLMReportSummary_def snapshot_askGemini_silent
        read_date_iso_def)

lemma snapshot_writeReport_silent:
  assumes "\<forall>t. events w t = []" "bugs_ref < next_addr s"
  shows "snapshot (snd (writeReport w ctx target scope s)) = snapshot s"
proof -
  have "snapshot (snd (bug_entries (summary_state w target scope s))) = snapshot s"
    using assms snapshot_bug_entries [of "summary_state w target scope s"]
    by (simp add: snapshot_summary_state_silent)
  then show ?thesis
    using assms(1)
    by (simp add: writeReport_def report_lines_eq fs_step_def snapshot_await_step_silent
          split: res.splits)
qed

lemma askGemini_reply:
  assumes "geminiModel s = Some model" "\<forall>k p img. generateContent w k model p img = Returned r"
  shows "fst (askGemini w prompt s) = Returned r"
  using assms by (simp add: askGemini_def askGemini_try_def generate_def)

lemma summary_section_reply:
  assumes "LLM_ENABLED w" "geminiModel s = Some model"
    "\<forall>k p img. generateContent w k model p img = Returned r" "r \<noteq> []"
  shows "summary_section w target scope s = [''## AI Executive Summary'', [], r, []]"
proof -
  let ?s1 = "log ''Generating AI executive summary...'' (snd (read_date_iso w s))"
  have g: "geminiModel ?s1 = Some model"
    using assms(2) by (simp add: read_date_iso_def)
  have "fst (askGemini w (summary_prompt target scope ?s1) ?s1) = Returned r"
    using g assms(3) by (rule askGemini_reply)
  then show ?thesis
    using assms(1,4) g by (simp add: summary_section_def generateLLMReportSummary_def)
qed

lemma models_bug_entries [simp]: "geminiModel (snd (bug_entries s)) = geminiModel s"
  by (simp add: bug_entries_def sorted_copy_def array_spread_def array_sort_def)

lemma geminiModel_askGemini [simp]: "geminiModel (snd (askGemini w prompt s)) = geminiModel s"
  by (simp add: askGemini_def askGemini_try_def generate_def
        split: option.splits prod.splits res.splits)

lemma geminiModel_summary_state [simp]:
  "geminiModel (summary_state w target scope s) = geminiModel s"
  by (simp add: summary_state_def generateLLMReportSummary_def read_date_iso_def)

lemma geminiModel_writeReport [simp]:
  "geminiModel (snd (writeReport w ctx target scope s)) = geminiModel s"
  by (simp add: writeReport_def report_lines_eq fs_step_def split: res.splits)

lemma bugs_busy_state: "bugs busy_state = bugs two_bug_state"
  by (simp add: busy_state_def bugs_def)

lemma busy_state_facts:
  "bugs_ref < next_addr busy_state"
  "bugs_ref < next_addr (initGemini oracle_world busy_state)"
  "map bug_id (bugs busy_state) = [''BUG-001'', ''BUG-002'']"
  "snapshot (initGemini oracle_world busy_state) = snapshot busy_state"
  "geminiModel (initGemini oracle_world busy_state) = Some ''gemini-2.5-flash-lite''"
proof -
  show "bugs_ref < next_addr busy_state"
    using two_bug_state_allocated by (simp add: busy_state_def)
  then show "bugs_ref < next_addr (initGemini oracle_world busy_state)"
    by (simp add: initGemini_def)
  show "map bug_id (bugs busy_state) = [''BUG-001'', ''BUG-002'']"
    by (simp add: bugs_busy_state two_bug_state_def bugs_addBug first_bug_ids)
  show "snapshot (initGemini oracle_world busy_state) = snapshot busy_state"
    by (simp add: initGemini_def snapshot_def bugs_def)
  show "geminiModel (initGemini oracle_world busy_state) = Some ''gemini-2.5-flash-lite''"
    by (simp add: initGemini_def oracle_world_def)
qed

text \<open>C5. Two compilations over an unchanged snapshot (ledger, accumulators, workflow
  results) give the same document when they read the same timestamp, get the same summary
  from the oracle, and render the later sections over the same snapshot. Without a key the
  two documents are equal exactly when the two timestamps are: the Date line of the report
  carries the time of the compilation.\<close>

theorem report_same_for_same_inputs:
  assumes "snapshot s' = snapshot s"
  shows "(date_iso w (tick s') = date_iso w (tick s) \<and>
          summary_section w target scope s' = summary_section w target scope s \<and>
          snapshot (summary_state w target scope s') = snapshot (summary_state w target scope s) \<longrightarrow>
          report_text w ctx target scope s' = report_text w ctx target scope s) \<and>
         (\<not> LLM_ENABLED w \<longrightarrow>
          (report_text w ctx target scope s' = report_text w ctx target scope s \<longleftrightarrow>
           date_iso w (tick s') = date_iso w (tick s)))"
proof -
  have g: "bugs s' = bugs s"
    using assms by (simp add: snapshot_fields)
  have a: "date_iso w (tick s') = date_iso w (tick s) \<and>
          summary_section w target scope s' = summary_section w target scope s \<and>
          snapshot (summary_state w target scope s') = snapshot (summary_state w target scope s) \<longrightarrow>
          report_text w ctx target scope s' = report_text w ctx target scope s"
    using report_text_same_inputs [OF g] by blast
  have b: "\<not> LLM_ENABLED w \<longrightarrow>
          (report_text w ctx target scope s' = report_text w ctx target scope s \<longleftrightarrow>
           date_iso w (tick s') = date_iso w (tick s))"
    using report_text_disabled_iff [OF _ assms] by blast
  from a b show ?thesis by (rule conjI)
qed

lemma quiet_world_facts:
  "\<not> LLM_ENABLED quiet_world" "\<forall>t. events quiet_world t = []"
  "\<not> LLM_ENABLED ticking_world" "\<forall>t. events ticking_world t = []"
  by (simp_all add: quiet_world_def ticking_world_def LLM_ENABLED_def)

lemma init_state_allocated: "bugs_ref < next_addr init_state"
  by (simp add: init_state_def bugs_ref_def)

lemma oracle_world_replies:
  "LLM_ENABLED oracle_world" "\<forall>t. events oracle_world t = []"
  "\<forall>k p img. generateContent oracle_world k ''gemini-2.5-flash-lite'' p img =
      Returned ''The site is in good shape.''"
  "\<forall>t. date_iso oracle_world t = ''2026-01-01T00:00:00.000Z''"
  by (simp_all add: oracle_world_def quiet_world_def LLM_ENABLED_def)

lemma busy_state_section:
  "filter (prefix ''### '') (fst (bug_entries busy_state)) =
     [''### BUG-002: Navigation timeout'', ''### BUG-001: Missing page <title>'']"
proof -
  obtain g1 g2 where g: "grouped_by_severity (bugs two_bug_state) = [g1, g2]"
      "bug_id g1 = ''BUG-002''" "title g1 = ''Navigation timeout''"
      "bug_id g2 = ''BUG-001''" "title g2 = ''Missing page <title>''"
    using two_bug_state_grouped by auto
  have n: "bugs two_bug_state \<noteq> []"
    using g(1) by auto
  show ?thesis
    using n by (simp add: fst_bug_entries bugs_busy_state g render_bug_heading)
qed

lemma busy_state_network_lines:
  "network_lines busy_state =
     [''## Failed Network Requests (1)'', [],
      ''- `GET http://example.test/api/items` -> 500 (fetch)'', []]"
  using digit_char_simps(1,2,6)
  by (simp add: network_lines_def busy_state_def status_or_failure_def bt_def string_of_nat.simps)

lemma report_text_section:
  "\<exists>pre. report_text w ctx target scope s =
     Some (join nl (pre @ [''## Bug Entries'', []] @ fst (bug_entries s)))"
proof -
  have "fst (bug_entries (summary_state w target scope s)) = fst (bug_entries s)"
    by (simp add: fst_bug_entries)
  then have "report_text w ctx target scope s =
     Some (join nl ((header_lines w ctx target scope (date_iso w (tick s)) s @
                    summary_section w target scope s @
                    severity_summary_lines (summary_state w target scope s) @
                    category_lines (summary_state w target scope s) @
                    runtime_lines (summary_state w target scope s) @
                    network_lines (summary_state w target scope s) @
                    workflow_lines (summary_state w target scope s)) @
                   [''## Bug Entries'', []] @ fst (bug_entries s)))"
    by (simp add: report_text_eq body_lines_def)
  then show ?thesis by blast
qed

theorem report_same_for_same_inputs_witness:
  "map bug_id (bugs busy_state) = [''BUG-001'', ''BUG-002''] \<and>
   filter (prefix ''### '') (fst (bug_entries busy_state)) =
     [''### BUG-002: Navigation timeout'', ''### BUG-001: Missing page <title>''] \<and>
   network_lines busy_state =
     [''## Failed Network Requests (1)'', [],
      ''- `GET http://example.test/api/items` -> 500 (fetch)'', []] \<and>
   \<not> LLM_ENABLED quiet_world \<and>
   snapshot (snd (writeReport quiet_world example_ctx ''http://example.test/'' ''Full QA scan'' busy_state))
     = snapshot busy_state \<and>
   date_iso quiet_world
     (tick (snd (writeReport quiet_world example_ctx ''http://example.test/'' ''Full QA scan'' busy_state)))
     = date_iso quiet_world (tick busy_state) \<and>
   (\<exists>pre. report_text quiet_world example_ctx ''http://example.test/'' ''Full QA scan''
       (snd (writeReport quiet_world example_ctx ''http://example.test/'' ''Full QA scan'' busy_state)) =
     Some (join nl (pre @ [''## Bug Entries'', []] @ fst (bug_entries busy_state)))) \<and>
   report_text quiet_world example_ctx ''http://example.test/'' ''Full QA scan''
     (snd (writeReport quiet_world example_ctx ''http://example.test/'' ''Full QA scan'' busy_state)) =
   report_text quiet_world example_ctx ''http://example.test/'' ''Full QA scan'' busy_state \<and>
   LLM_ENABLED oracle_world \<and>
   snapshot (snd (writeReport oracle_world example_ctx ''http://example.test/'' ''Full QA scan''
                    (initGemini oracle_world busy_state)))
     = snapshot (initGemini oracle_world busy_state) \<and>
   summary_section oracle_world ''http://example.test/'' ''Full QA scan''
       (initGemini oracle_world busy_state) =
     [''## AI Executive Summary'', [], ''The site is in good shape.'', []] \<and>
   summary_section oracle_world ''http://example.test/'' ''Full QA scan''
       (snd (writeReport oracle_world example_ctx ''http://example.test/'' ''Full QA scan''
               (initGemini oracle_world busy_state))) =
     [''## AI Executive Summary'', [], ''The site is in good shape.'', []] \<and>
   report_text oracle_world example_ctx ''http://example.test/'' ''Full QA scan''
     (snd (writeReport oracle_world example_ctx ''http://example.test/'' ''Full QA scan''
             (initGemini oracle_world busy_state))) =
   report_text oracle_world example_ctx ''http://example.test/'' ''Full QA scan''
     (initGemini oracle_world busy_state)"
proof -
  let ?U = "''http://example.test/''" and ?S = "''Full QA scan''"
  let ?s1 = "snd (writeReport quiet_world example_ctx ?U ?S busy_state)"
  let ?s0 = "initGemini oracle_world busy_state"
  let ?s2 = "snd (writeReport oracle_world example_ctx ?U ?S ?s0)"
  let ?sum = "[''## AI Executive Summary'', [], ''The site is in good shape.'', []]"
  have s: "snapshot ?s1 = snapshot busy_state"
    using quiet_world_facts(1,2) busy_state_facts(1) by (rule snapshot_writeReport_disabled)
  have d: "date_iso quiet_world (tick ?s1) = date_iso quiet_world (tick busy_state)"
    by (simp add: quiet_world_def)
  have r: "report_text quiet_world example_ctx ?U ?S ?s1 =
        report_text quiet_world example_ctx ?U ?S busy_state"
    using conjunct2 [OF report_same_for_same_inputs [OF s, of quiet_world ?U ?S example_ctx]]
      quiet_world_facts(1) d
    by blast
  obtain pre where "report_text quiet_world example_ctx ?U ?S busy_state =
      Some (join nl (pre @ [''## Bug Entries'', []] @ fst (bug_entries busy_state)))"
    using report_text_section by blast
  with r have p: "\<exists>pre. report_text quiet_world example_ctx ?U ?S ?s1 =
      Some (join nl (pre @ [''## Bug Entries'', []] @ fst (bug_entries busy_state)))"
    by auto
  have s': "snapshot ?s2 = snapshot ?s0"
    using oracle_world_replies(2) busy_state_facts(2) by (rule snapshot_writeReport_silent)
  have d': "date_iso oracle_world (tick ?s2) = date_iso oracle_world (tick ?s0)"
    by (simp add: oracle_world_replies(4))
  have m0: "summary_section oracle_world ?U ?S ?s0 = ?sum"
    using oracle_world_replies(1) busy_state_facts(5) oracle_world_replies(3)
    by (rule summary_section_reply) simp
  have g2: "geminiModel ?s2 = Some ''gemini-2.5-flash-lite''"
    by (simp add: busy_state_facts(5))
  have m2: "summary_section oracle_world ?U ?S ?s2 = ?sum"
    using oracle_world_replies(1) g2 oracle_world_replies(3)
    by (rule summary_section_reply) simp
  have y: "snapshot (summary_state oracle_world ?U ?S ?s2) =
           snapshot (summary_state oracle_world ?U ?S ?s0)"
    using s' by (simp add: snapshot_summary_state_silent oracle_world_replies(2))
  have r': "report_text oracle_world example_ctx ?U ?S ?s2 =
        report_text oracle_world example_ctx ?U ?S ?s0"
    using conjunct1 [OF report_same_for_same_inputs [OF s', of oracle_world ?U ?S example_ctx]]
      d' m0 m2 y
    by simp
  from busy_state_facts(3) busy_state_section busy_state_network_lines quiet_world_facts(1)
    s d p r oracle_world_replies(1) s' m0 m2 r'
  show ?thesis by (intro conjI)
qed

text \<open>C5, counterexample to the claim as stated: the second of two compilations in a row
  reads a later timestamp, and its document differs from the first, over the same snapshot.\<close>

theorem report_differs_between_runs:
  "snapshot (snd (writeReport ticking_world example_ctx ''http://example.test/'' ''Full QA scan'' init_state))
     = snapshot init_state \<and>
   report_text ticking_world example_ctx ''http://example.test/'' ''Full QA scan''
     (snd (writeReport ticking_world example_ctx ''http://example.test/'' ''Full QA scan'' init_state)) \<noteq>
   report_text ticking_world example_ctx ''http://example.test/'' ''Full QA scan'' init_state"
proof -
  let ?s1 = "snd (writeReport ticking_world example_ctx ''http://example.test/'' ''Full QA scan'' init_state)"
  have s: "snapshot ?s1 = snapshot init_state"
    using quiet_world_facts(3,4) init_state_allocated by (rule snapshot_writeReport_disabled)
  have "tick init_state < tick ?s1"
    using quiet_world_facts(3) by (rule tick_writeReport_disabled)
  then have "tick ?s1 \<noteq> 0" by simp
  then have d: "date_iso ticking_world (tick ?s1) \<noteq> date_iso ticking_world (tick init_state)"
    by (simp add: ticking_world_def init_state_def)
  have "report_text ticking_world example_ctx ''http://example.test/'' ''Full QA scan'' ?s1 \<noteq>
        report_text ticking_world example_ctx ''http://example.test/'' ''Full QA scan'' init_state"
    using report_text_disabled_iff [OF quiet_world_facts(3) s] d by blast
  with s show ?thesis by (rule conjI)
qed

subsection \<open>The effects of a compilation\<close>

lemma trace_deliver [simp]: "trace (deliver ev s) = trace s"
  by (cases ev) (simp_all add: Let_def)

lemma trace_deliver_all [simp]: "trace (foldl (\<lambda>st ev. deliver ev st) s evs) = trace s"
  by (induction evs arbitrary: s) simp_all

lemma trace_await_step [simp]: "trace (await_step w e s) = trace s @ [e]"
  by (simp add: await_step_def)

lemma trace_log [simp]: "trace (log m s) = trace s @ [ConsoleLog (''  -> '' @ m)]"
  by (simp add: log_def)

lemma trace_bug_entries [simp]: "trace (snd (bug_entries s)) = trace s"
  by (simp add: bug_entries_def sorted_copy_def array_spread_def array_sort_def)

lemma trace_grows_trans:
  "trace_grows P s s1 \<Longrightarrow> trace_grows P s1 s2 \<Longrightarrow> trace_grows P s s2"
  by (auto simp: trace_grows_def)

lemma trace_grows_weaken:
  "trace_grows P s s' \<Longrightarrow> (\<And>e. P e \<Longrightarrow> Q e) \<Longrightarrow> trace_grows Q s s'"
  by (auto simp: trace_grows_def list_all_iff)

lemma trace_grows_drop:
  "trace_grows P s s' \<Longrightarrow> list_all P (drop (length (trace s)) (trace s'))"
  by (auto simp: trace_grows_def)

lemma trace_throttleLLM:
  "trace_grows (\<lambda>e. \<not> is_browser_call e \<and> \<not> is_network_call e) s (throttleLLM w s)"
  by (simp add: trace_grows_def throttleLLM_def read_clock_def Let_def)

lemma trace_generate [simp]:
  "trace (snd (generate w model prompt img s)) = trace s @ [OracleRequest model prompt]"
  by (simp add: generate_def)

lemma trace_askGemini:
  "trace_grows (\<lambda>e. \<not> is_browser_call e) s (snd (askGemini w prompt s))"
proof (cases "geminiModel s")
  case None
  then show ?thesis by (simp add: askGemini_def trace_grows_def)
next
  case (Some model)
  obtain xs where xs: "trace (throttleLLM w s) = trace s @ xs" "list_all (\<lambda>e. \<not> is_browser_call e) xs"
    using trace_throttleLLM [of s w] by (auto simp: trace_grows_def list_all_iff)
  show ?thesis
    using Some xs
    by (cases "generateContent w (tick (throttleLLM w s)) model prompt None")
       (auto simp: askGemini_def askGemini_try_def generate_def trace_grows_def
             split: res.splits)
qed

lemma oracle_request_askGemini:
  assumes "geminiModel s = Some model"
  shows "\<exists>xs. trace (snd (askGemini w prompt s)) = trace s @ xs \<and> OracleRequest model prompt \<in> set xs"
proof -
  obtain xs where xs: "trace (throttleLLM w s) = trace s @ xs"
    using trace_throttleLLM [of s w] by (auto simp: trace_grows_def)
  show ?thesis
    using assms xs
    by (cases "generateContent w (tick (throttleLLM w s)) model prompt None")
       (auto simp: askGemini_def askGemini_try_def generate_def split: res.splits)
qed

lemma trace_summary_state:
  "trace_grows (\<lambda>e. \<not> is_browser_call e) s (summary_state w target scope s)"
proof (cases "LLM_ENABLED w")
  case False
  then show ?thesis by (simp add: summary_state_disabled trace_grows_def)
next
  case True
  let ?s1 = "log ''Generating AI executive summary...'' (snd (read_date_iso w s))"
  have a: "trace_grows (\<lambda>e. \<not> is_browser_call e) s ?s1"
    by (simp add: trace_grows_def read_date_iso_def)
  have b: "trace_grows (\<lambda>e. \<not> is_browser_call e) ?s1 (snd (generateLLMReportSummary w target scope ?s1))"
    using trace_askGemini [of ?s1 w] by (simp add: generateLLMReportSummary_def trace_grows_def)
  show ?thesis
    using True trace_grows_trans [OF a b] by (simp add: summary_state_def)
qed

lemma oracle_request_summary_state:
  assumes "LLM_ENABLED w" "geminiModel s = Some model"
  shows "\<exists>xs p. trace (summary_state w target scope s) = trace s @ xs \<and> OracleRequest model p \<in> set xs"
proof -
  let ?s1 = "log ''Generating AI executive summary...'' (snd (read_date_iso w s))"
  have g: "geminiModel ?s1 = Some model"
    using assms(2) by (simp add: read_date_iso_def)
  obtain xs where xs: "trace (snd (askGemini w (summary_prompt target scope ?s1) ?s1)) = trace ?s1 @ xs"
      "OracleRequest model (summary_prompt target scope ?s1) \<in> set xs"
    using oracle_request_askGemini [OF g] by blast
  have "trace (summary_state w target scope s) =
        trace s @ (ConsoleLog (''  -> '' @ ''Generating AI executive summary...'') # xs)"
    using assms(1) g xs(1)
    by (simp add: summary_state_def generateLLMReportSummary_def read_date_iso_def)
  moreover have "OracleRequest model (summary_prompt target scope ?s1) \<in>
      set (ConsoleLog (''  -> '' @ ''Generating AI executive summary...'') # xs)"
    using xs(2) by simp
  ultimately show ?thesis by blast
qed

lemma trace_writeReport:
  "\<exists>ys. trace (snd (writeReport w ctx target scope s)) = trace (summary_state w target scope s) @ ys \<and>
        list_all (\<lambda>e. \<not> is_browser_call e \<and> \<not> is_network_call e) ys"
  by (simp add: writeReport_def report_lines_eq fs_step_def split: res.splits)

lemma report_effects_no_browser:
  "list_all (\<lambda>e. \<not> is_browser_call e) (report_effects w ctx target scope s)"
proof -
  have "trace_grows (\<lambda>e. \<not> is_browser_call e) (summary_state w target scope s)
          (snd (writeReport w ctx target scope s))"
    using trace_writeReport [of w ctx target scope s]
    by (auto simp: trace_grows_def list_all_iff)
  then have "trace_grows (\<lambda>e. \<not> is_browser_call e) s (snd (writeReport w ctx target scope s))"
    using trace_summary_state trace_grows_trans by blast
  then show ?thesis
    unfolding report_effects_def by (rule trace_grows_drop)
qed

lemma report_effects_disabled:
  assumes "\<not> LLM_ENABLED w"
  shows "list_all (\<lambda>e. \<not> is_network_call e) (report_effects w ctx target scope s)"
proof -
  have "trace (summary_state w target scope s) = trace s"
    using assms by (simp add: summary_state_disabled)
  then have "trace_grows (\<lambda>e. \<not> is_network_call e) s (snd (writeReport w ctx target scope s))"
    using trace_writeReport [of w ctx target scope s]
    by (auto simp: trace_grows_def list_all_iff)
  then show ?thesis
    unfolding report_effects_def by (rule trace_grows_drop)
qed

lemma report_effects_oracle:
  assumes "LLM_ENABLED w" "geminiModel s = Some model"
  shows "\<exists>p. OracleRequest model p \<in> set (report_effects w ctx target scope s)"
proof -
  obtain xs p where xs: "trace (summary_state w target scope s) = trace s @ xs"
      "OracleRequest model p \<in> set xs"
    using oracle_request_summary_state [OF assms] by blast
  obtain ys where ys: "trace (snd (writeReport w ctx target scope s)) =
      trace (summary_state w target scope s) @ ys"
    using trace_writeReport [of w ctx target scope s] by blast
  have "report_effects w ctx target scope s = xs @ ys"
    using xs(1) ys by (simp add: report_effects_def)
  then show ?thesis using xs(2) by auto
qed

lemma net_throttleLLM [simp]:
  "filter is_network_call (trace (throttleLLM w s)) = filter is_network_call (trace s)"
  by (simp add: throttleLLM_def read_clock_def Let_def)

lemma net_askGemini:
  assumes "geminiModel s = Some model"
  shows "filter is_network_call (trace (snd (askGemini w prompt s))) =
     filter is_network_call (trace s) @
     replicate (case fst (askGemini_try w model prompt s) of
                  Threw msg \<Rightarrow> if is_rate_limit msg then 2 else 1
                | Returned t \<Rightarrow> 1)
       (OracleRequest model prompt)"
  using assms
  by (cases "generateContent w (tick (throttleLLM w s)) model prompt None")
     (simp_all add: askGemini_def askGemini_try_def generate_def numeral_2_eq_2 rate_limited_msg_def
        split: res.splits)

lemma net_askGemini_none:
  "geminiModel s = None \<Longrightarrow> snd (askGemini w prompt s) = s"
  by (simp add: askGemini_def)

lemma summary_prompt_cong:
  "bugs s' = bugs s \<Longrightarrow> workflowResults s' = workflowResults s \<Longrightarrow>
   summary_prompt target scope s' = summary_prompt target scope s"
  by (simp add: summary_prompt_def bySev_def)

lemma summary_prompt_logged [simp]:
  "summary_prompt target scope (log m (snd (read_date_iso w s))) = summary_prompt target scope s"
  by (rule summary_prompt_cong) (simp_all add: read_date_iso_def bugs_def log_def)

lemma net_summary_state:
  assumes "LLM_ENABLED w" "geminiModel s = Some model"
  shows "filter is_network_call (trace (summary_state w target scope s)) =
     filter is_network_call (trace s) @
     replicate (case summary_attempt w model target scope s of
                  Threw msg \<Rightarrow> if is_rate_limit msg then 2 else 1
                | Returned t \<Rightarrow> 1)
       (OracleRequest model (summary_prompt target scope s))"
proof -
  let ?s1 = "log ''Generating AI executive summary...'' (snd (read_date_iso w s))"
  have g: "geminiModel ?s1 = Some model"
    using assms(2) by (simp add: read_date_iso_def)
  have t: "filter is_network_call (trace ?s1) = filter is_network_call (trace s)"
    by (simp add: read_date_iso_def)
  show ?thesis
    using assms(1) g t net_askGemini [OF g, of w "summary_prompt target scope ?s1"]
    by (simp add: summary_state_def generateLLMReportSummary_def summary_attempt_def)
qed

lemma net_summary_state_none:
  assumes "geminiModel s = None"
  shows "filter is_network_call (trace (summary_state w target scope s)) =
         filter is_network_call (trace s)"
  using assms
  by (simp add: summary_state_def generateLLMReportSummary_def read_date_iso_def)

lemma report_effects_split:
  "\<exists>xs ys. trace (summary_state w target scope s) = trace s @ xs \<and>
           report_effects w ctx target scope s = xs @ ys \<and>
           filter is_network_call ys = []"
proof -
  obtain xs where xs: "trace (summary_state w target scope s) = trace s @ xs"
    using trace_summary_state [of s w target scope] by (auto simp: trace_grows_def)
  obtain ys where ys: "trace (snd (writeReport w ctx target scope s)) =
      trace (summary_state w target scope s) @ ys"
      "list_all (\<lambda>e. \<not> is_browser_call e \<and> \<not> is_network_call e) ys"
    using trace_writeReport [of w ctx target scope s] by blast
  have "report_effects w ctx target scope s = xs @ ys"
    using xs ys(1) by (simp add: report_effects_def)
  moreover have "filter is_network_call ys = []"
    using ys(2) by (simp add: filter_empty_conv list_all_iff)
  ultimately show ?thesis using xs by blast
qed

lemma report_effects_requests:
  assumes "LLM_ENABLED w" "geminiModel s = Some model"
  shows "filter is_network_call (report_effects w ctx target scope s) =
     replicate (case summary_attempt w model target scope s of
                  Threw msg \<Rightarrow> if is_rate_limit msg then 2 else 1
                | Returned t \<Rightarrow> 1)
       (OracleRequest model (summary_prompt target scope s))"
proof -
  obtain xs ys where x: "trace (summary_state w target scope s) = trace s @ xs"
      "report_effects w ctx target scope s = xs @ ys" "filter is_network_call ys = []"
    using report_effects_split by blast
  have "filter is_network_call (trace s) @ filter is_network_call xs =
     filter is_network_call (trace s) @
     replicate (case summary_attempt w model target scope s of
                  Threw msg \<Rightarrow> if is_rate_limit msg then 2 else 1
                | Returned t \<Rightarrow> 1)
       (OracleRequest model (summary_prompt target scope s))"
    using net_summary_state [OF assms, of target scope] x(1) by simp
  then show ?thesis
    using x(2,3) by simp
qed

lemma report_effects_no_model:
  assumes "geminiModel s = None"
  shows "list_all (\<lambda>e. \<not> is_network_call e) (report_effects w ctx target scope s)"
proof -
  obtain xs ys where x: "trace (summary_state w target scope s) = trace s @ xs"
      "report_effects w ctx target scope s = xs @ ys" "filter is_network_call ys = []"
    using report_effects_split by blast
  have "filter is_network_call (trace s) @ filter is_network_call xs =
        filter is_network_call (trace s)"
    using net_summary_state_none [OF assms, of w target scope] x(1) by simp
  then have "filter is_network_call (report_effects w ctx target scope s) = []"
    using x(2,3) by simp
  then show ?thesis
    by (simp add: filter_empty_conv list_all_iff)
qed

text \<open>C6. A compilation makes no call on the browser. Without a key it makes no network
  call either: it reads the ledger, the accumulators and the workflow results, and writes
  the file. With a key and the text model initialised it asks the oracle for the executive
  summary, and these are all its network calls: one request with the summary prompt, or
  two when the first is refused with a rate-limit message and repeated. With no model
  initialised it makes no network call.\<close>

theorem report_compiler_calls:
  "list_all (\<lambda>e. \<not> is_browser_call e) (report_effects w ctx target scope s) \<and>
   (\<not> LLM_ENABLED w \<longrightarrow>
      list_all (\<lambda>e. \<not> is_network_call e) (report_effects w ctx target scope s)) \<and>
   (LLM_ENABLED w \<and> geminiModel s = Some model \<longrightarrow>
      (\<exists>p. OracleRequest model p \<in> set (report_effects w ctx target scope s))) \<and>
   (LLM_ENABLED w \<and> geminiModel s = Some model \<longrightarrow>
      filter is_network_call (report_effects w ctx target scope s) =
        replicate (case summary_attempt w model target scope s of
                     Threw msg \<Rightarrow> if is_rate_limit msg then 2 else 1
                   | Returned t \<Rightarrow> 1)
          (OracleRequest model (summary_prompt target scope s))) \<and>
   (geminiModel s = None \<longrightarrow>
      list_all (\<lambda>e. \<not> is_network_call e) (report_effects w ctx target scope s))"
  using report_effects_no_browser [of w ctx target scope s]
    report_effects_disabled [of w ctx target scope s]
    report_effects_oracle [of w s model ctx target scope]
    report_effects_requests [of w s model ctx target scope]
    report_effects_no_model [of s w ctx target scope]
  by blast

lemma oracle_world_facts:
  "LLM_ENABLED oracle_world"
  "geminiModel (initGemini oracle_world init_state) = Some ''gemini-2.5-flash-lite''"
  by (simp_all add: oracle_world_def quiet_world_def LLM_ENABLED_def initGemini_def)

lemma rate_limited_world_facts:
  "LLM_ENABLED rate_limited_world"
  "geminiModel (initGemini rate_limited_world busy_state) = Some ''gemini-2.5-flash-lite''"
  "\<And>t m p i. generateContent rate_limited_world t m p i = Threw ''429 Too Many Requests''"
  "\<And>t m p i. generateContent oracle_world t m p i = Returned ''The site is in good shape.''"
  by (simp_all add: rate_limited_world_def oracle_world_def quiet_world_def LLM_ENABLED_def
        initGemini_def)

lemma too_many_requests_is_rate_limit: "is_rate_limit ''429 Too Many Requests''"
  by (simp add: is_rate_limit_def)

lemma summary_attempt_eq:
  "summary_attempt w model target scope s =
     generateContent w
       (tick (throttleLLM w (log ''Generating AI executive summary...'' (snd (read_date_iso w s)))))
       model (summary_prompt target scope s) None"
  by (simp add: summary_attempt_def askGemini_try_def generate_def)

lemma summary_prompt_initGemini [simp]:
  "summary_prompt target scope (initGemini w s) = summary_prompt target scope s"
  by (rule summary_prompt_cong) (simp_all add: initGemini_def bugs_def)

theorem report_compiler_calls_witness:
  "\<not> LLM_ENABLED quiet_world \<and>
   list_all (\<lambda>e. \<not> is_network_call e)
     (report_effects quiet_world example_ctx ''http://example.test/'' ''Full QA scan'' busy_state) \<and>
   LLM_ENABLED oracle_world \<and>
   geminiModel (initGemini oracle_world busy_state) = Some ''gemini-2.5-flash-lite'' \<and>
   list_all (\<lambda>e. \<not> is_browser_call e)
     (report_effects oracle_world example_ctx ''http://example.test/'' ''Full QA scan''
        (initGemini oracle_world busy_state)) \<and>
   (\<exists>p. OracleRequest ''gemini-2.5-flash-lite'' p \<in>
      set (report_effects oracle_world example_ctx ''http://example.test/'' ''Full QA scan''
             (initGemini oracle_world busy_state))) \<and>
   filter is_network_call
     (report_effects oracle_world example_ctx ''http://example.test/'' ''Full QA scan''
        (initGemini oracle_world busy_state)) =
     [OracleRequest ''gemini-2.5-flash-lite''
        (summary_prompt ''http://example.test/'' ''Full QA scan'' busy_state)] \<and>
   LLM_ENABLED rate_limited_world \<and>
   geminiModel (initGemini rate_limited_world busy_state) = Some ''gemini-2.5-flash-lite'' \<and>
   summary_attempt rate_limited_world ''gemini-2.5-flash-lite'' ''http://example.test/''
       ''Full QA scan'' (initGemini rate_limited_world busy_state) =
     Threw ''429 Too Many Requests'' \<and>
   is_rate_limit ''429 Too Many Requests'' \<and>
   filter is_network_call
     (report_effects rate_limited_world example_ctx ''http://example.test/'' ''Full QA scan''
        (initGemini rate_limited_world busy_state)) =
     [OracleRequest ''gemini-2.5-flash-lite''
        (summary_prompt ''http://example.test/'' ''Full QA scan'' busy_state),
      OracleRequest ''gemini-2.5-flash-lite''
        (summary_prompt ''http://example.test/'' ''Full QA scan'' busy_state)] \<and>
   geminiModel init_state = None \<and>
   list_all (\<lambda>e. \<not> is_network_call e)
     (report_effects oracle_world example_ctx ''http://example.test/'' ''Full QA scan'' init_state)"
proof -
  let ?U = "''http://example.test/''" and ?S = "''Full QA scan''"
  let ?m = "''gemini-2.5-flash-lite''"
  let ?so = "initGemini oracle_world busy_state"
  let ?sr = "initGemini rate_limited_world busy_state"
  note q = report_compiler_calls [of quiet_world example_ctx ?U ?S busy_state ?m]
  note o = report_compiler_calls [of oracle_world example_ctx ?U ?S ?so ?m]
  note r = report_compiler_calls [of rate_limited_world example_ctx ?U ?S ?sr ?m]
  note n = report_compiler_calls [of oracle_world example_ctx ?U ?S init_state ?m]
  have a: "list_all (\<lambda>e. \<not> is_network_call e)
     (report_effects quiet_world example_ctx ?U ?S busy_state)"
    using conjunct1 [OF conjunct2 [OF q]] quiet_world_facts(1) by blast
  have b: "list_all (\<lambda>e. \<not> is_browser_call e) (report_effects oracle_world example_ctx ?U ?S ?so)"
    using conjunct1 [OF o] .
  have c: "\<exists>p. OracleRequest ?m p \<in> set (report_effects oracle_world example_ctx ?U ?S ?so)"
    using conjunct1 [OF conjunct2 [OF conjunct2 [OF o]]] oracle_world_facts(1) busy_state_facts(5)
    by blast
  have ao: "summary_attempt oracle_world ?m ?U ?S ?so = Returned ''The site is in good shape.''"
    by (simp only: summary_attempt_eq rate_limited_world_facts(4))
  have d: "filter is_network_call (report_effects oracle_world example_ctx ?U ?S ?so) =
     [OracleRequest ?m (summary_prompt ?U ?S busy_state)]"
    using conjunct1 [OF conjunct2 [OF conjunct2 [OF conjunct2 [OF o]]]]
      oracle_world_facts(1) busy_state_facts(5)
    by (simp add: ao)
  have ar: "summary_attempt rate_limited_world ?m ?U ?S ?sr = Threw ''429 Too Many Requests''"
    by (simp only: summary_attempt_eq rate_limited_world_facts(3))
  have e: "filter is_network_call (report_effects rate_limited_world example_ctx ?U ?S ?sr) =
     [OracleRequest ?m (summary_prompt ?U ?S busy_state),
      OracleRequest ?m (summary_prompt ?U ?S busy_state)]"
    using conjunct1 [OF conjunct2 [OF conjunct2 [OF conjunct2 [OF r]]]]
      rate_limited_world_facts(1,2) too_many_requests_is_rate_limit
    by (simp add: ar numeral_2_eq_2)
  have g: "geminiModel init_state = None"
    by (simp add: init_state_def)
  have f: "list_all (\<lambda>e. \<not> is_network_call e)
     (report_effects oracle_world example_ctx ?U ?S init_state)"
    using conjunct2 [OF conjunct2 [OF conjunct2 [OF conjunct2 [OF n]]]] g by blast
  from quiet_world_facts(1) a oracle_world_facts(1) busy_state_facts(5) b c d
    rate_limited_world_facts(1,2) ar too_many_requests_is_rate_limit e g f
  show ?thesis by (intro conjI)
qed

text \<open>C6, counterexample to the claim as stated: with a key configured, a compilation
  makes a network call.\<close>

theorem report_compiler_network_call:
  "\<not> list_all (\<lambda>e. \<not> is_network_call e \<and> \<not> is_browser_call e)
       (report_effects oracle_world example_ctx ''http://example.test/'' ''Full QA scan''
          (initGemini oracle_world init_state))"
proof -
  obtain p where "OracleRequest ''gemini-2.5-flash-lite'' p \<in>
      set (report_effects oracle_world example_ctx ''http://example.test/'' ''Full QA scan''
             (initGemini oracle_world init_state))"
    using report_effects_oracle [OF oracle_world_facts] by blast
  then show ?thesis
    unfolding list_all_iff by (metis is_network_call.simps(1))
qed

section \<open>The detectors\<close>

subsection \<open>The SEO detector\<close>

lemma bugs_browser_string_call [simp]: "bugs (snd (browser_string_call w op s)) = bugs s"
  by (simp add: browser_string_call_def)

lemma bugs_browser_meta_call [simp]: "bugs (snd (browser_meta_call w s)) = bugs s"
  by (simp add: browser_meta_call_def)

lemma checkSEO_title_and_description:
  assumes "\<forall>k. browser_string w k PageTitle = Returned t" "trim t = []"
    "\<forall>k. browser_meta w k = Returned m"
    "meta_description m = []" "meta_viewport m \<noteq> []" "meta_lang m \<noteq> []" "meta_favicon m"
    "\<not> (meta_ogTitle m = [] \<and> meta_ogImage m = [])"
  shows "fst (checkSEO w ctx s) = Returned () \<and>
         (\<exists>e1 e2. bugs (snd (checkSEO w ctx s)) = bugs s @ [e1, e2] \<and>
            severity e1 = Medium \<and> category e1 = SEO \<and> title e1 = ''Missing page <title>'' \<and>
            severity e2 = Low \<and> category e2 = SEO \<and> title e2 = ''Missing meta description'')"
  using assms
  by (simp add: checkSEO_def browser_string_call_def browser_meta_call_def Let_def bugs_addBug)

lemma untitled_world_page:
  "\<forall>k. browser_string untitled_world k PageTitle = Returned []"
  "\<forall>k. browser_meta untitled_world k = Returned
         \<lparr> meta_description = [], meta_viewport = ''width=device-width'',
           meta_ogTitle = ''A page'', meta_ogImage = [],
           meta_charset = True, meta_lang = ''en'', meta_canonical = [],
           meta_favicon = True \<rparr>"
  by (simp_all add: untitled_world_def)

lemma untitled_world_bugs:
  "map (\<lambda>b. (severity b, category b, title b)) (bugs (snd (checkSEO untitled_world example_ctx init_state))) =
     [(Medium, SEO, ''Missing page <title>''), (Low, SEO, ''Missing meta description'')]"
proof -
  have "fst (checkSEO untitled_world example_ctx init_state) = Returned () \<and>
         (\<exists>e1 e2. bugs (snd (checkSEO untitled_world example_ctx init_state)) = bugs init_state @ [e1, e2] \<and>
            severity e1 = Medium \<and> category e1 = SEO \<and> title e1 = ''Missing page <title>'' \<and>
            severity e2 = Low \<and> category e2 = SEO \<and> title e2 = ''Missing meta description'')"
    by (rule checkSEO_title_and_description [OF untitled_world_page(1) _ untitled_world_page(2)])
       (simp_all add: trim_def)
  then obtain e1 e2 where e: "bugs (snd (checkSEO untitled_world example_ctx init_state)) = [e1, e2]"
      "severity e1 = Medium" "category e1 = SEO" "title e1 = ''Missing page <title>''"
      "severity e2 = Low" "category e2 = SEO" "title e2 = ''Missing meta description''"
    by (elim conjE exE) simp
  show ?thesis by (simp add: e)
qed

text \<open>C7. On a page whose title is empty (after trimming) and which has no meta description,
  while the viewport tag, the lang attribute, the favicon and an Open Graph tag are there,
  \<open>checkSEO\<close> returns and commits exactly two bugs, both of category SEO: a Medium one
  titled \<open>Missing page <title>\<close>, then a Low one titled \<open>Missing meta description\<close>.\<close>

theorem seo_empty_title_no_description:
  assumes "\<forall>k. browser_string w k PageTitle = Returned t" "trim t = []"
    "\<forall>k. browser_meta w k = Returned m"
    "meta_description m = []" "meta_viewport m \<noteq> []" "meta_lang m \<noteq> []" "meta_favicon m"
    "\<not> (meta_ogTitle m = [] \<and> meta_ogImage m = [])"
  shows "fst (checkSEO w ctx s) = Returned () \<and>
         (\<exists>e1 e2. bugs (snd (checkSEO w ctx s)) = bugs s @ [e1, e2] \<and>
            severity e1 = Medium \<and> category e1 = SEO \<and> title e1 = ''Missing page <title>'' \<and>
            severity e2 = Low \<and> category e2 = SEO \<and> title e2 = ''Missing meta description'')"
  using assms by (rule checkSEO_title_and_description)

theorem seo_empty_title_no_description_witness:
  "browser_string untitled_world 0 PageTitle = Returned [] \<and> trim [] = [] \<and>
   fst (checkSEO untitled_world example_ctx init_state) = Returned () \<and>
   length (bugs (snd (checkSEO untitled_world example_ctx init_state))) = 2 \<and>
   map (\<lambda>b. (severity b, category b, title b)) (bugs (snd (checkSEO untitled_world example_ctx init_state))) =
     [(Medium, SEO, ''Missing page <title>''), (Low, SEO, ''Missing meta description'')]"
proof -
  have t: "trim [] = []" by (simp add: trim_def)
  have m: "meta_description \<lparr> meta_description = [], meta_viewport = ''width=device-width'',
           meta_ogTitle = ''A page'', meta_ogImage = [],
           meta_charset = True, meta_lang = ''en'', meta_canonical = [],
           meta_favicon = True \<rparr> = []" by simp
  note r = seo_empty_title_no_description [OF untitled_world_page(1) t untitled_world_page(2) m,
      of example_ctx init_state]
  have r': "fst (checkSEO untitled_world example_ctx init_state) = Returned () \<and>
         (\<exists>e1 e2. bugs (snd (checkSEO untitled_world example_ctx init_state)) = bugs init_state @ [e1, e2] \<and>
            severity e1 = Medium \<and> category e1 = SEO \<and> title e1 = ''Missing page <title>'' \<and>
            severity e2 = Low \<and> category e2 = SEO \<and> title e2 = ''Missing meta description'')"
    by (rule r) simp_all
  have a: "browser_string untitled_world 0 PageTitle = Returned []"
    using untitled_world_page(1) by blast
  have b: "fst (checkSEO untitled_world example_ctx init_state) = Returned ()"
    using r' by blast
  obtain e1 e2 where e: "bugs (snd (checkSEO untitled_world example_ctx init_state)) = [e1, e2]"
      "severity e1 = Medium" "category e1 = SEO" "title e1 = ''Missing page <title>''"
      "severity e2 = Low" "category e2 = SEO" "title e2 = ''Missing meta description''"
    using r' by (elim conjE exE) simp
  have c: "length (bugs (snd (checkSEO untitled_world example_ctx init_state))) = 2"
    by (simp add: e(1))
  have d: "map (\<lambda>b. (severity b, category b, title b)) (bugs (snd (checkSEO untitled_world example_ctx init_state))) =
     [(Medium, SEO, ''Missing page <title>''), (Low, SEO, ''Missing meta description'')]"
    by (simp add: e)
  from a t b c d show ?thesis by (intro conjI)
qed

text \<open>C7, counterexample to the claim as stated: on such a page the first bug is not titled
  \<open>Missing page title\<close>.\<close>

theorem seo_title_bug_is_named_otherwise:
  "map (\<lambda>b. (severity b, category b, title b)) (bugs (snd (checkSEO untitled_world example_ctx init_state))) =
     [(Medium, SEO, ''Missing page <title>''), (Low, SEO, ''Missing meta description'')] \<and>
   \<not> (\<exists>b \<in> set (bugs (snd (checkSEO untitled_world example_ctx init_state))).
        title b = ''Missing page title'')"
proof -
  let ?B = "bugs (snd (checkSEO untitled_world example_ctx init_state))"
  have "\<not> (\<exists>b \<in> set ?B. title b = ''Missing page title'')"
  proof
    assume "\<exists>b \<in> set ?B. title b = ''Missing page title''"
    then obtain b where b: "b \<in> set ?B" "title b = ''Missing page title''"
      by blast
    from b(1) have "(severity b, category b, title b) \<in> (\<lambda>b. (severity b, category b, title b)) ` set ?B"
      by (rule imageI)
    then have "(severity b, category b, title b) \<in>
        set [(Medium, SEO, ''Missing page <title>''), (Low, SEO, ''Missing meta description'')]"
      using untitled_world_bugs by (simp only: set_map [symmetric])
    then have "title b = ''Missing page <title>'' \<or> title b = ''Missing meta description''"
      by simp blast
    with b(2) show False by simp
  qed
  with untitled_world_bugs show ?thesis by (rule conjI)
qed

subsection \<open>The broken-link detector\<close>

lemma bugs_browser_status_call [simp]: "bugs (snd (browser_status_call w op s)) = bugs s"
  by (simp add: browser_status_call_def)

lemma head_requests_result:
  assumes "\<forall>k. \<forall>h \<in> set hs. browser_status w k (RequestHead h 8000) = Returned (st h)"
  shows "fst (head_requests w hs broken s) =
           broken @ map (\<lambda>h. h @ '' -> '' @ string_of_nat (st h)) (filter (\<lambda>h. st h \<ge> 400) hs) \<and>
         bugs (snd (head_requests w hs broken s)) = bugs s"
  using assms
proof (induction hs arbitrary: broken s)
  case Nil
  show ?case by simp
next
  case (Cons h hs)
  have h: "browser_status w (tick s) (RequestHead h 8000) = Returned (st h)"
    using Cons.prems by simp
  have r: "\<forall>k. \<forall>h \<in> set hs. browser_status w k (RequestHead h 8000) = Returned (st h)"
    using Cons.prems by simp
  note ih = Cons.IH [OF r]
  show ?case
    using h ih by (simp add: browser_status_call_def)
qed

lemma uniq_subset: "set (uniq xs) = set xs"
proof (induction xs rule: uniq.induct)
  case 1
  show ?case by simp
next
  case (2 x xs)
  then show ?case by auto
qed

lemma distinct_uniq: "distinct (uniq xs)"
proof (induction xs rule: uniq.induct)
  case 1
  show ?case by simp
next
  case (2 x xs)
  then show ?case by (simp add: uniq_subset)
qed

lemma checkBrokenLinks_result:
  assumes "\<forall>k. browser_strings w k (Evaluate ''a[href]'') = Returned hrefs"
    and "\<forall>k. \<forall>h \<in> set (take 30 (uniq (filter (\<lambda>h. startsWith h ''http'') hrefs))).
           browser_status w k (RequestHead h 8000) = Returned (st h)"
    and "broken = map (\<lambda>h. h @ '' -> '' @ string_of_nat (st h))
                    (filter (\<lambda>h. st h \<ge> 400) (take 30 (uniq (filter (\<lambda>h. startsWith h ''http'') hrefs))))"
  shows "fst (checkBrokenLinks w ctx s) = Returned () \<and>
         (if broken = [] then bugs (snd (checkBrokenLinks w ctx s)) = bugs s
          else \<exists>e. bugs (snd (checkBrokenLinks w ctx s)) = bugs s @ [e] \<and>
                 title e = string_of_nat (length broken) @ '' broken / unreachable link(s)'' \<and>
                 severity e = (if length broken > 5 then High else Medium) \<and>
                 category e = Content \<and> details e = Some (take 20 broken))"
proof -
  let ?s1 = "await_step w (Browser (Evaluate ''a[href]'')) s"
  let ?unique = "take 30 (uniq (filter (\<lambda>h. startsWith h ''http'') hrefs))"
  have c: "browser_strings_call w (Evaluate ''a[href]'') s = (Returned hrefs, ?s1)"
    using assms(1) by (simp add: browser_strings_call_def)
  have hr: "fst (head_requests w ?unique [] ?s1) = broken"
       "bugs (snd (head_requests w ?unique [] ?s1)) = bugs s"
    using head_requests_result [OF assms(2), of "[]" ?s1] assms(3) by simp_all
  obtain b s2 where p: "head_requests w ?unique [] ?s1 = (b, s2)"
    by (cases "head_requests w ?unique [] ?s1")
  have b: "b = broken" "bugs s2 = bugs s"
    using hr p by simp_all
  show ?thesis
    using c p b by (simp add: checkBrokenLinks_def Let_def bugs_addBug)
qed

lemma string_of_nat_404: "string_of_nat 404 = ''404''"
  by code_simp

lemma length_filter_in_set:
  assumes "distinct xs" "finite B"
  shows "length (filter (\<lambda>h. h \<in> B) xs) \<le> card B"
proof -
  have "distinct (filter (\<lambda>h. h \<in> B) xs)"
    using assms(1) by simp
  then have "length (filter (\<lambda>h. h \<in> B) xs) = card (set (filter (\<lambda>h. h \<in> B) xs))"
    by (rule distinct_card [symmetric])
  also have "\<dots> \<le> card B"
    using assms(2) by (intro card_mono) auto
  finally show ?thesis .
qed

text \<open>What \<open>checkBrokenLinks\<close> commits on a page with forty distinct absolute links of
  which three answer 404 and the others below 400.\<close>

lemma broken_links_commit:
  assumes "\<forall>k. browser_strings w k (Evaluate ''a[href]'') = Returned hrefs"
    and "links = uniq (filter (\<lambda>h. startsWith h ''http'') hrefs)"
    and "length links = 40"
    and "bad \<subseteq> set links" "card bad = 3"
    and "\<forall>k. \<forall>h \<in> set links. browser_status w k (RequestHead h 8000) = Returned (st h)"
    and "\<forall>h \<in> set links. (h \<in> bad \<longrightarrow> st h = 404) \<and> (h \<notin> bad \<longrightarrow> st h < 400)"
    and "found = filter (\<lambda>h. h \<in> bad) (take 30 links)"
  shows "fst (checkBrokenLinks w ctx s) = Returned () \<and>
         (if found = [] then bugs (snd (checkBrokenLinks w ctx s)) = bugs s
          else \<exists>e. bugs (snd (checkBrokenLinks w ctx s)) = bugs s @ [e] \<and>
                 title e = string_of_nat (length found) @ '' broken / unreachable link(s)'' \<and>
                 severity e = Medium \<and> category e = Content \<and>
                 details e = Some (map (\<lambda>h. h @ '' -> 404'') found))"
proof -
  let ?unique = "take 30 links"
  let ?broken = "map (\<lambda>h. h @ '' -> '' @ string_of_nat (st h)) (filter (\<lambda>h. st h \<ge> 400) ?unique)"
  have sub: "set ?unique \<subseteq> set links"
    by (rule set_take_subset)
  have st30: "\<forall>k. \<forall>h \<in> set (take 30 (uniq (filter (\<lambda>h. startsWith h ''http'') hrefs))).
           browser_status w k (RequestHead h 8000) = Returned (st h)"
    using assms(6) sub assms(2) by auto
  have f: "filter (\<lambda>h. st h \<ge> 400) ?unique = found"
    unfolding assms(8)
  proof (rule filter_cong [OF refl])
    fix h assume "h \<in> set ?unique"
    then have "h \<in> set links" using sub by blast
    then show "(400 \<le> st h) = (h \<in> bad)"
      using assms(7) by (cases "h \<in> bad") auto
  qed
  have m: "map (\<lambda>h. h @ '' -> '' @ string_of_nat (st h)) found = map (\<lambda>h. h @ '' -> 404'') found"
  proof (rule map_cong [OF refl])
    fix h assume "h \<in> set found"
    then have "h \<in> bad" "h \<in> set links"
      using sub by (auto simp: assms(8))
    then have "st h = 404" using assms(7) by blast
    then show "h @ '' -> '' @ string_of_nat (st h) = h @ '' -> 404''"
      by (simp add: string_of_nat_404)
  qed
  have br: "?broken = map (\<lambda>h. h @ '' -> 404'') found"
    using f m by simp
  have fin: "finite bad"
    using assms(5) by (simp add: card_ge_0_finite)
  have "distinct links"
    unfolding assms(2) by (rule distinct_uniq)
  then have "distinct ?unique" by simp
  then have "length found \<le> card bad"
    unfolding assms(8) using fin by (rule length_filter_in_set)
  then have len: "length found \<le> 3"
    using assms(5) by simp
  have e3: "?broken = map (\<lambda>h. h @ '' -> '' @ string_of_nat (st h))
                    (filter (\<lambda>h. st h \<ge> 400) (take 30 (uniq (filter (\<lambda>h. startsWith h ''http'') hrefs))))"
    unfolding assms(2) by (rule refl)
  note r = checkBrokenLinks_result [OF assms(1) st30 e3, of ctx s]
  let ?B = "map (\<lambda>h. h @ '' -> 404'') found"
  have r': "fst (checkBrokenLinks w ctx s) = Returned () \<and>
         (if ?B = [] then bugs (snd (checkBrokenLinks w ctx s)) = bugs s
          else \<exists>e. bugs (snd (checkBrokenLinks w ctx s)) = bugs s @ [e] \<and>
                 title e = string_of_nat (length ?B) @ '' broken / unreachable link(s)'' \<and>
                 severity e = (if length ?B > 5 then High else Medium) \<and>
                 category e = Content \<and> details e = Some (take 20 ?B))"
    by (rule r [unfolded br])
  have l5: "\<not> length found > 5" using len by simp
  have t20: "take 20 ?B = ?B" using len by simp
  have e0: "(?B = []) = (found = [])" by simp
  have ln: "length ?B = length found" by simp
  show ?thesis
  proof (cases "found = []")
    case True
    then show ?thesis using r' by simp
  next
    case False
    then have "\<exists>e. bugs (snd (checkBrokenLinks w ctx s)) = bugs s @ [e] \<and>
                 title e = string_of_nat (length ?B) @ '' broken / unreachable link(s)'' \<and>
                 severity e = (if length ?B > 5 then High else Medium) \<and>
                 category e = Content \<and> details e = Some (take 20 ?B)"
      using r' by simp
    then obtain e where e: "bugs (snd (checkBrokenLinks w ctx s)) = bugs s @ [e]"
        "title e = string_of_nat (length ?B) @ '' broken / unreachable link(s)''"
        "severity e = (if length ?B > 5 then High else Medium)"
        "category e = Content" "details e = Some (take 20 ?B)"
      by blast
    have "title e = string_of_nat (length found) @ '' broken / unreachable link(s)''"
      using e(2) by simp
    moreover have "severity e = Medium"
      using e(3) l5 by simp
    moreover have "details e = Some ?B"
      using e(5) t20 by simp
    ultimately show ?thesis
      using False e(1) e(4) r' by auto
  qed
qed

lemma trace_takeScreenshot:
  "\<exists>xs. trace (snd (takeScreenshot w ctx label fullPage s)) = trace s @ xs \<and>
        filter is_network_call xs = []"
  by (simp add: takeScreenshot_def read_clock_def browser_unit_call_def Let_def)

lemma trace_addBug:
  "\<exists>xs. trace (addBug w ctx opts s) = trace s @ xs \<and> filter is_network_call xs = []"
proof -
  let ?t = "takeScreenshot w ctx (bug_id_for (length (bugs s)) @ ''-'' @ opt_evidenceLabel opts)
              (case opt_fullPage opts of None \<Rightarrow> True | Some b \<Rightarrow> b) s"
  obtain xs where xs: "trace (snd ?t) = trace s @ xs" "filter is_network_call xs = []"
    using trace_takeScreenshot by blast
  obtain shot s1 where p: "?t = (shot, s1)"
    by (cases ?t)
  have "trace s1 = trace s @ xs"
    using xs(1) p by simp
  then have "trace (addBug w ctx opts s) =
      trace s @ (xs @ [ConsoleLog (''  -> '' @ bug_id_for (length (bugs s)) @ '' ['' @
                        severity_str (opt_severity opts) @ ''] '' @ opt_title opts)])"
    using p by (simp add: addBug_def Let_def array_push_def)
  moreover have "filter is_network_call
      (xs @ [ConsoleLog (''  -> '' @ bug_id_for (length (bugs s)) @ '' ['' @
                        severity_str (opt_severity opts) @ ''] '' @ opt_title opts)]) = []"
    using xs(2) by simp
  ultimately show ?thesis by blast
qed

lemma trace_head_requests:
  "\<exists>xs. trace (snd (head_requests w hs broken s)) = trace s @ xs \<and>
        filter is_network_call xs = map (\<lambda>h. Browser (RequestHead h 8000)) hs"
proof (induction hs arbitrary: broken s)
  case Nil
  show ?case by simp
next
  case (Cons h hs)
  let ?s1 = "await_step w (Browser (RequestHead h 8000)) s"
  obtain b where b: "head_requests w (h # hs) broken s = head_requests w hs b ?s1"
    by (cases "browser_status w (tick s) (RequestHead h 8000)")
       (simp_all add: browser_status_call_def)
  obtain xs where xs: "trace (snd (head_requests w hs b ?s1)) = trace ?s1 @ xs"
      "filter is_network_call xs = map (\<lambda>h. Browser (RequestHead h 8000)) hs"
    using Cons.IH by blast
  have "trace (snd (head_requests w (h # hs) broken s)) =
        trace s @ (Browser (RequestHead h 8000) # xs)"
    using b xs(1) by simp
  moreover have "filter is_network_call (Browser (RequestHead h 8000) # xs) =
        map (\<lambda>h. Browser (RequestHead h 8000)) (h # hs)"
    using xs(2) by simp
  ultimately show ?case by blast
qed

lemma checkBrokenLinks_requests:
  assumes "\<forall>k. browser_strings w k (Evaluate ''a[href]'') = Returned hrefs"
  shows "filter is_network_call
           (drop (length (trace s)) (trace (snd (checkBrokenLinks w ctx s)))) =
         map (\<lambda>h. Browser (RequestHead h 8000))
           (take 30 (uniq (filter (\<lambda>h. startsWith h ''http'') hrefs)))"
proof -
  let ?s1 = "await_step w (Browser (Evaluate ''a[href]'')) s"
  let ?unique = "take 30 (uniq (filter (\<lambda>h. startsWith h ''http'') hrefs))"
  have c: "browser_strings_call w (Evaluate ''a[href]'') s = (Returned hrefs, ?s1)"
    using assms by (simp add: browser_strings_call_def)
  obtain b s2 where p: "head_requests w ?unique [] ?s1 = (b, s2)"
    by (cases "head_requests w ?unique [] ?s1")
  obtain xs where xs: "trace s2 = trace ?s1 @ xs"
      "filter is_network_call xs = map (\<lambda>h. Browser (RequestHead h 8000)) ?unique"
    using trace_head_requests [of w ?unique "[]" ?s1] p by auto
  have "\<exists>ys. trace (snd (checkBrokenLinks w ctx s)) = trace s2 @ ys \<and>
             filter is_network_call ys = []"
  proof (cases "b = []")
    case True
    then show ?thesis
      using c p by (simp add: checkBrokenLinks_def Let_def)
  next
    case False
    then show ?thesis
      using c p by (simp add: checkBrokenLinks_def Let_def trace_addBug)
  qed
  then obtain ys where ys: "trace (snd (checkBrokenLinks w ctx s)) = trace s2 @ ys"
      "filter is_network_call ys = []"
    by blast
  have "drop (length (trace s)) (trace (snd (checkBrokenLinks w ctx s))) =
        Browser (Evaluate ''a[href]'') # xs @ ys"
    using xs(1) ys(1) by simp
  then show ?thesis
    using xs(2) ys(2) by simp
qed

text \<open>C8. On a page with forty distinct absolute links of which three answer 404 and the
  others answer below 400, \<open>checkBrokenLinks\<close> requests only the first thirty distinct links,
  in page order: its network calls are one HEAD request to each of them, in that order, and
  nothing else. When none of the three is among them it commits nothing; otherwise it
  commits one bug, of category Content and severity Medium, titled with the count followed
  by \<open>broken / unreachable link(s)\<close>, whose details are exactly the 404 links among the first
  thirty, in page order, each followed by \<open>-> 404\<close>.\<close>

theorem broken_links_first_thirty:
  assumes "\<forall>k. browser_strings w k (Evaluate ''a[href]'') = Returned hrefs"
    and "links = uniq (filter (\<lambda>h. startsWith h ''http'') hrefs)"
    and "length links = 40"
    and "bad \<subseteq> set links" "card bad = 3"
    and "\<forall>k. \<forall>h \<in> set links. browser_status w k (RequestHead h 8000) = Returned (st h)"
    and "\<forall>h \<in> set links. (h \<in> bad \<longrightarrow> st h = 404) \<and> (h \<notin> bad \<longrightarrow> st h < 400)"
    and "found = filter (\<lambda>h. h \<in> bad) (take 30 links)"
  shows "filter is_network_call
           (drop (length (trace s)) (trace (snd (checkBrokenLinks w ctx s)))) =
           map (\<lambda>h. Browser (RequestHead h 8000)) (take 30 links) \<and>
         fst (checkBrokenLinks w ctx s) = Returned () \<and>
         (if found = [] then bugs (snd (checkBrokenLinks w ctx s)) = bugs s
          else \<exists>e. bugs (snd (checkBrokenLinks w ctx s)) = bugs s @ [e] \<and>
                 title e = string_of_nat (length found) @ '' broken / unreachable link(s)'' \<and>
                 severity e = Medium \<and> category e = Content \<and>
                 details e = Some (map (\<lambda>h. h @ '' -> 404'') found))"
proof -
  have a: "filter is_network_call
           (drop (length (trace s)) (trace (snd (checkBrokenLinks w ctx s)))) =
           map (\<lambda>h. Browser (RequestHead h 8000)) (take 30 links)"
    unfolding assms(2) using assms(1) by (rule checkBrokenLinks_requests)
  have b: "fst (checkBrokenLinks w ctx s) = Returned () \<and>
         (if found = [] then bugs (snd (checkBrokenLinks w ctx s)) = bugs s
          else \<exists>e. bugs (snd (checkBrokenLinks w ctx s)) = bugs s @ [e] \<and>
                 title e = string_of_nat (length found) @ '' broken / unreachable link(s)'' \<and>
                 severity e = Medium \<and> category e = Content \<and>
                 details e = Some (map (\<lambda>h. h @ '' -> 404'') found))"
    using assms by (rule broken_links_commit)
  from a b show ?thesis by (rule conjI)
qed

lemma forty_links_first_thirty:
  "take 30 forty_links = map (\<lambda>i. ''http://example.test/p'' @ string_of_nat i) [1..<31]"
  "''http://example.test/p35'' \<notin> set (take 30 forty_links)"
  by code_simp+

lemma forty_links_facts:
  "uniq (filter (\<lambda>h. startsWith h ''http'') forty_links) = forty_links"
  "length forty_links = 40"
  "filter (\<lambda>h. h \<in> set spread_404) (take 30 forty_links) =
     [''http://example.test/p2'', ''http://example.test/p17'']"
  "filter (\<lambda>h. h \<in> set late_404) (take 30 forty_links) = []"
  "set spread_404 \<subseteq> set forty_links" "set late_404 \<subseteq> set forty_links"
  "card (set spread_404) = 3" "card (set late_404) = 3"
  by code_simp+

lemma links_world_page:
  "\<forall>k. browser_strings (links_world bad) k (Evaluate ''a[href]'') = Returned forty_links"
  "\<forall>k. \<forall>h \<in> set hs. browser_status (links_world bad) k (RequestHead h 8000) =
       Returned (if h \<in> set bad then 404 else 200)"
  by (simp_all add: links_world_def head_status_def)

lemma links_world_404s:
  "map (\<lambda>h. browser_status (links_world spread_404) 0 (RequestHead h 8000)) spread_404 =
     [Returned 404, Returned 404, Returned 404]"
  "map (\<lambda>h. browser_status (links_world late_404) 0 (RequestHead h 8000)) late_404 =
     [Returned 404, Returned 404, Returned 404]"
  by (simp_all add: links_world_def head_status_def spread_404_def late_404_def)

lemma string_of_nat_2: "string_of_nat 2 = ''2''"
  by code_simp

theorem broken_links_first_thirty_witness:
  "length (uniq (filter (\<lambda>h. startsWith h ''http'') forty_links)) = 40 \<and>
   card (set spread_404) = 3 \<and>
   map (\<lambda>h. browser_status (links_world spread_404) 0 (RequestHead h 8000)) spread_404 =
     [Returned 404, Returned 404, Returned 404] \<and>
   filter is_network_call
     (drop (length (trace init_state))
        (trace (snd (checkBrokenLinks (links_world spread_404) example_ctx init_state)))) =
     map (\<lambda>i. Browser (RequestHead (''http://example.test/p'' @ string_of_nat i) 8000)) [1..<31] \<and>
   ''http://example.test/p35'' \<in> set spread_404 \<and>
   Browser (RequestHead ''http://example.test/p35'' 8000) \<notin>
     set (trace (snd (checkBrokenLinks (links_world spread_404) example_ctx init_state))) \<and>
   map (\<lambda>b. (title b, details b))
     (bugs (snd (checkBrokenLinks (links_world spread_404) example_ctx init_state))) =
     [(''2 broken / unreachable link(s)'',
       Some [''http://example.test/p2 -> 404'', ''http://example.test/p17 -> 404''])]"
proof -
  let ?found = "[''http://example.test/p2'', ''http://example.test/p17'']"
  let ?s' = "snd (checkBrokenLinks (links_world spread_404) example_ctx init_state)"
  have h7: "\<forall>h \<in> set forty_links.
      (h \<in> set spread_404 \<longrightarrow> (if h \<in> set spread_404 then 404 else 200) = (404::nat)) \<and>
      (h \<notin> set spread_404 \<longrightarrow> (if h \<in> set spread_404 then 404 else 200) < (400::nat))"
    by simp
  note r = broken_links_first_thirty [OF links_world_page(1) forty_links_facts(1) [symmetric]
      forty_links_facts(2) forty_links_facts(5) forty_links_facts(7) links_world_page(2) h7
      forty_links_facts(3) [symmetric], of init_state example_ctx]
  have q: "filter is_network_call (drop (length (trace init_state)) (trace ?s')) =
     map (\<lambda>h. Browser (RequestHead h 8000)) (take 30 forty_links)"
    using conjunct1 [OF r] .
  have q1: "filter is_network_call (drop (length (trace init_state)) (trace ?s')) =
     map (\<lambda>i. Browser (RequestHead (''http://example.test/p'' @ string_of_nat i) 8000)) [1..<31]"
    unfolding q forty_links_first_thirty(1) map_map by (simp add: comp_def)
  have "Browser (RequestHead ''http://example.test/p35'' 8000) \<notin>
      set (filter is_network_call (drop (length (trace init_state)) (trace ?s')))"
    unfolding q using forty_links_first_thirty(2) by auto
  then have q2: "Browser (RequestHead ''http://example.test/p35'' 8000) \<notin> set (trace ?s')"
    by (simp add: init_state_def)
  have q3: "''http://example.test/p35'' \<in> set spread_404"
    by (simp add: spread_404_def)
  have "\<exists>e. bugs ?s' = bugs init_state @ [e] \<and>
                 title e = string_of_nat (length ?found) @ '' broken / unreachable link(s)'' \<and>
                 severity e = Medium \<and> category e = Content \<and>
                 details e = Some (map (\<lambda>h. h @ '' -> 404'') ?found)"
    using conjunct2 [OF r] by simp
  then obtain e where e: "bugs ?s' = [e]"
      "title e = string_of_nat (length ?found) @ '' broken / unreachable link(s)''"
      "details e = Some (map (\<lambda>h. h @ '' -> 404'') ?found)"
    by auto
  have d: "map (\<lambda>b. (title b, details b)) (bugs ?s') =
     [(''2 broken / unreachable link(s)'',
       Some [''http://example.test/p2 -> 404'', ''http://example.test/p17 -> 404''])]"
    using e by (simp add: numeral_2_eq_2 [symmetric] string_of_nat_2)
  have l: "length (uniq (filter (\<lambda>h. startsWith h ''http'') forty_links)) = 40"
    by (simp add: forty_links_facts(1,2))
  from l forty_links_facts(7) links_world_404s(1) q1 q3 q2 d show ?thesis by (intro conjI)
qed

text \<open>C8, counterexample to the claim as stated: forty distinct absolute links of which
  three answer 404, and no bug is committed, the three being the last three.\<close>

theorem broken_links_beyond_thirty_unreported:
  "length (uniq (filter (\<lambda>h. startsWith h ''http'') forty_links)) = 40 \<and>
   card (set late_404) = 3 \<and>
   map (\<lambda>h. browser_status (links_world late_404) 0 (RequestHead h 8000)) late_404 =
     [Returned 404, Returned 404, Returned 404] \<and>
   bugs (snd (checkBrokenLinks (links_world late_404) example_ctx init_state)) = []"
proof -
  let ?st = "\<lambda>h. if h \<in> set late_404 then 404 else (200::nat)"
  have f: "filter (\<lambda>h. ?st h \<ge> 400) (take 30 forty_links) =
           filter (\<lambda>h. h \<in> set late_404) (take 30 forty_links)"
    by (rule filter_cong [OF refl]) simp
  have b: "[] = map (\<lambda>h. h @ '' -> '' @ string_of_nat (?st h))
                    (filter (\<lambda>h. ?st h \<ge> 400)
                       (take 30 (uniq (filter (\<lambda>h. startsWith h ''http'') forty_links))))"
    unfolding forty_links_facts(1) f forty_links_facts(4) by simp
  have st: "\<forall>k. \<forall>h \<in> set (take 30 (uniq (filter (\<lambda>h. startsWith h ''http'') forty_links))).
           browser_status (links_world late_404) k (RequestHead h 8000) = Returned (?st h)"
    by (rule links_world_page(2))
  have "bugs (snd (checkBrokenLinks (links_world late_404) example_ctx init_state)) = bugs init_state"
    using checkBrokenLinks_result [OF links_world_page(1) st b, of example_ctx init_state] by simp
  then have n: "bugs (snd (checkBrokenLinks (links_world late_404) example_ctx init_state)) = []"
    by simp
  have l: "length (uniq (filter (\<lambda>h. startsWith h ''http'') forty_links)) = 40"
    by (simp add: forty_links_facts(1,2))
  from l forty_links_facts(8) links_world_404s(2) n show ?thesis by (intro conjI)
qed

section \<open>The oracle\<close>

subsection \<open>The oracle calls\<close>

text \<open>The text calls never throw, and give the empty text when every request fails.\<close>

lemma askGeminiVision_total: "\<exists>t. fst (askGeminiVision w file prompt s) = Returned t"
  by (simp add: askGeminiVision_def split: option.splits prod.splits res.splits)

lemma askGemini_all_fail:
  assumes "\<forall>k model prompt img. \<exists>msg. generateContent w k model prompt img = Threw msg"
  shows "fst (askGemini w prompt s) = Returned []"
proof (cases "geminiModel s")
  case None
  then show ?thesis by (simp add: askGemini_def)
next
  case (Some model)
  have g: "\<And>st. \<exists>msg. fst (generate w model prompt None st) = Threw msg"
    using assms by (simp add: generate_def)
  obtain msg where m: "fst (askGemini_try w model prompt s) = Threw msg"
    using g by (auto simp: askGemini_try_def)
  obtain msg2 where m2: "fst (generate w model prompt None
       (await_step w (Sleep 15000) (log rate_limited_msg (snd (askGemini_try w model prompt s))))) = Threw msg2"
    using g by blast
  show ?thesis
    using Some m m2
    by (cases "askGemini_try w model prompt s";
        cases "generate w model prompt None
                 (await_step w (Sleep 15000) (log rate_limited_msg (snd (askGemini_try w model prompt s))))")
       (simp add: askGemini_def)
qed

lemma askGeminiVision_answer:
  assumes "geminiVisionModel s = Some model"
    "\<forall>k f. \<exists>d. fs_readFile w k f = Returned d"
    "\<forall>k p img. generateContent w k model p img = Returned raw"
  shows "fst (askGeminiVision w file prompt s) = Returned raw"
proof -
  obtain d where d: "fs_readFile w (tick (throttleLLM w s)) file = Returned d"
    using assms(2) by blast
  show ?thesis
    using assms(1,3) d
    by (simp add: askGeminiVision_def askGeminiVision_try_def read_image_def generate_def)
qed

text \<open>The planner, when the page and the oracle answer: what \<open>JSON.parse\<close> makes of the
  cleaned answer, or the plan \<open>done\<close> when it throws.\<close>

lemma getNextTestAction_answer:
  assumes "geminiModel s \<noteq> None" "geminiVisionModel s = Some model"
    "\<forall>k op. browser_unit w k op = Returned ()"
    "\<forall>k op. \<exists>d. browser_string w k op = Returned d"
    "\<forall>k f. \<exists>d. fs_readFile w k f = Returned d"
    "\<forall>k p img. generateContent w k model p img = Returned raw"
  shows "fst (getNextTestAction w ctx history pageUnderstanding s) =
           (case JSON_parse w (clean_response raw) of
              Returned v \<Rightarrow> Returned v
            | Threw m \<Rightarrow> Returned (done_action ''Could not parse LLM response''))"
proof -
  let ?s1 = "s\<lparr>tick := Suc (tick s)\<rparr>"
  let ?file = "path_join (screenshotDir ctx) (''llm-action-'' @ string_of_nat (date_now w (tick s)) @ ''.png'')"
  let ?s2 = "await_step w (Browser (Screenshot ?file False)) ?s1"
  let ?s3 = "await_step w (Browser (Evaluate ''getDOMSummary'')) ?s2"
  let ?s4 = "?s3\<lparr>tick := Suc (tick ?s3)\<rparr>"
  obtain dom where dom: "browser_string w (tick ?s2) (Evaluate ''getDOMSummary'') = Returned dom"
    using assms(4) by blast
  let ?prompt = "nextAction_prompt pageUnderstanding (page_url w (tick ?s3)) dom history"
  have v: "geminiVisionModel ?s4 = Some model"
    using assms(2) by simp
  have a: "fst (askGeminiVision w ?file ?prompt ?s4) = Returned raw"
    using v assms(5,6) by (rule askGeminiVision_answer)
  have shot: "browser_unit w (tick ?s1) (Screenshot ?file False) = Returned ()"
    using assms(3) by blast
  obtain gm where gm: "geminiModel s = Some gm"
    using assms(1) by blast
  show ?thesis
    using gm shot dom a
    by (cases "askGeminiVision w ?file ?prompt ?s4")
       (simp add: getNextTestAction_def read_clock_def browser_unit_call_def getDOMSummary_def
          browser_string_call_def read_page_url_def Let_def split: res.splits)
qed

lemma terse_answer_clean: "clean_response terse_answer = terse_answer"
  by code_simp

lemma terse_oracle_world_facts:
  "geminiModel (initGemini terse_oracle_world init_state) \<noteq> None"
  "geminiVisionModel (initGemini terse_oracle_world init_state) = Some ''gemini-2.5-flash''"
  "\<forall>k op. browser_unit terse_oracle_world k op = Returned ()"
  "\<forall>k op. \<exists>d. browser_string terse_oracle_world k op = Returned d"
  "\<forall>k f. \<exists>d. fs_readFile terse_oracle_world k f = Returned d"
  "\<forall>k p img. generateContent terse_oracle_world k ''gemini-2.5-flash'' p img = Returned terse_answer"
  "JSON_parse terse_oracle_world terse_answer = Returned (JObj [(''action'', JStr ''done'')])"
  by (simp_all add: terse_oracle_world_def quiet_world_def initGemini_def init_state_def)

text \<open>C9, at the failing input. The oracle answers \<open>{"action": "done"}\<close>: JSON, but not the
  fixed action shape. \<open>getNextTestAction\<close> returns the parsed object as it is, and the next
  statement of the loop, which logs \<open>action.reasoning.slice(0, 80)\<close>, throws a \<open>TypeError\<close>;
  the turn is not treated as \<open>done\<close>.\<close>

theorem malformed_plan_throws:
  "fst (getNextTestAction terse_oracle_world example_ctx [] []
          (log (''LLM iteration '' @ string_of_nat (0 + 1) @ ''/'' @ string_of_nat 20 @ ''...'')
             (initGemini terse_oracle_world init_state))) =
     Returned (JObj [(''action'', JStr ''done'')]) \<and>
   fst (plan_turn terse_oracle_world example_ctx 0 20 [] [] 0
          (initGemini terse_oracle_world init_state)) =
     Threw (''Cannot read properties of undefined (reading '' @ sq @ ''slice'' @ sq @ '')'')"
proof -
  let ?s0 = "log (''LLM iteration '' @ string_of_nat (0 + 1) @ ''/'' @ string_of_nat 20 @ ''...'')
               (initGemini terse_oracle_world init_state)"
  have m: "geminiModel ?s0 \<noteq> None" "geminiVisionModel ?s0 = Some ''gemini-2.5-flash''"
    using terse_oracle_world_facts(1,2) by simp_all
  have g: "fst (getNextTestAction terse_oracle_world example_ctx [] [] ?s0) =
             Returned (JObj [(''action'', JStr ''done'')])"
    using getNextTestAction_answer [OF m terse_oracle_world_facts(3,4,5,6), of example_ctx "[]" "[]"]
    by (simp add: terse_answer_clean terse_oracle_world_facts(7))
  have p: "fst (plan_turn terse_oracle_world example_ctx 0 20 [] [] 0
          (initGemini terse_oracle_world init_state)) =
     Threw (''Cannot read properties of undefined (reading '' @ sq @ ''slice'' @ sq @ '')'')"
    using g
    by (cases "getNextTestAction terse_oracle_world example_ctx [] [] ?s0")
       (simp add: plan_turn_def)
  from g p show ?thesis by (rule conjI)
qed

end
